(* ===== verification/Prelude.thy ===== *)
theory Prelude
  imports Main "HOL-Library.Sublist"
begin

text \<open>
  What every component shares: Go's error values, the state-and-error type in which the stateful
  code is written, the rules by which an invariant passes through a composed operation, and the
  list functions that stand for the SQL statements of the code (upsert on a unique key, the rowid
  that SQLite hands out, deletion), with their lemmas.
\<close>

named_theorems keeps_intro \<open>how an operation keeps an invariant\<close>
named_theorems table_simps \<open>what a table holds after a statement\<close>

section \<open>Errors and state\<close>

text \<open>
  \<open>ErrMsg m\<close> is \<open>errors.New(m)\<close>, \<open>ErrNoRows\<close> is \<open>sql.ErrNoRows\<close>, \<open>ErrDB\<close> is any error the
  database driver or its context returns, \<open>ErrConstraint\<close> a violated constraint of the schema.
  \<open>Panic\<close> is no error value but a run-time panic, which leaves every function on the stack.
\<close>

datatype error = ErrMsg string | ErrNoRows | ErrDB | ErrConstraint | Panic

definition error_text :: "error \<Rightarrow> string" where
  \<comment> \<open>\<open>err.Error()\<close>; the text of a driver error is not modelled\<close>
  "error_text e = (case e of ErrMsg m \<Rightarrow> m | ErrNoRows \<Rightarrow> ''sql: no rows in result set''
     | ErrDB \<Rightarrow> ''database error'' | ErrConstraint \<Rightarrow> ''constraint failed'' | Panic \<Rightarrow> ''panic'')"

text \<open>
  A Go method that returns \<open>(value, error)\<close> and changes state: the state after it, and the error
  (\<open>Inl\<close>) or the value (\<open>Inr\<close>). An error does not undo the changes made before it.
\<close>

type_synonym ('s, 'a) comp = "'s \<Rightarrow> (error + 'a) \<times> 's"

definition ret :: "'a \<Rightarrow> ('s, 'a) comp" where
  "ret a s = (Inr a, s)"

definition fail :: "error \<Rightarrow> ('s, 'a) comp" where
  "fail e s = (Inl e, s)"

definition andThen :: "('s, 'a) comp \<Rightarrow> ('a \<Rightarrow> ('s, 'b) comp) \<Rightarrow> ('s, 'b) comp" where
  "andThen m f s = (case m s of (Inl e, s') \<Rightarrow> (Inl e, s') | (Inr a, s') \<Rightarrow> f a s')"

definition ignoring :: "('s, 'a) comp \<Rightarrow> ('s, unit) comp" where
  \<comment> \<open>\<open>_ = f(...)\<close>: the effects stay, the error is dropped\<close>
  "ignoring m s = (Inr (), snd (m s))"

definition gets :: "('s \<Rightarrow> 'a) \<Rightarrow> ('s, 'a) comp" where
  "gets f s = (Inr (f s), s)"

definition modify :: "('s \<Rightarrow> 's) \<Rightarrow> ('s, unit) comp" where
  "modify f s = (Inr (), f s)"

fun forEach :: "'b list \<Rightarrow> ('b \<Rightarrow> ('s, unit) comp) \<Rightarrow> ('s, unit) comp" where
  \<comment> \<open>\<open>for _, x := range xs { if err := f(x); err != nil { return err } }\<close>\<close>
  "forEach [] f = ret ()"
| "forEach (x # xs) f = andThen (f x) (\<lambda>_. forEach xs f)"

fun collect :: "('b \<Rightarrow> ('s, 'a) comp) \<Rightarrow> 'b list \<Rightarrow> ('s, 'a list) comp" where
  \<comment> \<open>\<open>for _, x := range xs { out = append(out, f(x)) }\<close>\<close>
  "collect f [] = ret []"
| "collect f (x # xs) = andThen (f x) (\<lambda>y. andThen (collect f xs) (\<lambda>ys. ret (y # ys)))"

lemma andThen_ret [simp]: "andThen (ret a) f = f a"
  by (rule ext) (simp add: andThen_def ret_def)

lemma andThen_fail [simp]: "andThen (fail e) f = fail e"
  by (rule ext) (simp add: andThen_def fail_def)

lemma andThen_assoc: "andThen (andThen m f) g = andThen m (\<lambda>a. andThen (f a) g)"
  by (rule ext) (simp add: andThen_def split: prod.splits sum.splits)

lemma andThen_Inr: "m s = (Inr a, s') \<Longrightarrow> andThen m f s = f a s'"
  by (simp add: andThen_def)

lemma andThen_Inl: "m s = (Inl e, s') \<Longrightarrow> andThen m f s = (Inl e, s')"
  by (simp add: andThen_def)

lemma andThen_InrE:
  assumes "andThen m f s = (Inr b, t)"
  obtains a s' where "m s = (Inr a, s')" and "f a s' = (Inr b, t)"
  using assms by (auto simp: andThen_def split: prod.splits sum.splits)

lemma then_InrE:
  assumes "andThen m (\<lambda>_. k) s = (Inr b, t)"
  obtains u where "m s = (Inr (), u)" "k u = (Inr b, t)"
  using assms by (rule andThen_InrE) simp

lemmas comp_defs = ret_def fail_def andThen_def ignoring_def gets_def modify_def

section \<open>Keeping an invariant\<close>

text \<open>
  \<open>keeps I m\<close>: from a state with \<open>I\<close> the operation \<open>m\<close> leads to a state with \<open>I\<close>, whether it
  returns a value or an error.
\<close>

definition keeps :: "('s \<Rightarrow> bool) \<Rightarrow> ('s, 'a) comp \<Rightarrow> bool" where
  "keeps I m \<longleftrightarrow> (\<forall>s. I s \<longrightarrow> I (snd (m s)))"

lemma keepsI: "(\<And>s. I s \<Longrightarrow> I (snd (m s))) \<Longrightarrow> keeps I m"
  by (simp add: keeps_def)

lemma keepsD: "keeps I m \<Longrightarrow> I s \<Longrightarrow> m s = (r, t) \<Longrightarrow> I t"
  by (auto simp: keeps_def dest: spec [of _ s])

lemma keeps_snd: "keeps I m \<Longrightarrow> I s \<Longrightarrow> I (snd (m s))"
  by (simp add: keeps_def)

lemma keeps_ret [keeps_intro]: "keeps I (ret a)"
  by (simp add: keeps_def ret_def)

lemma keeps_fail [keeps_intro]: "keeps I (fail e)"
  by (simp add: keeps_def fail_def)

lemma keeps_gets [keeps_intro]: "keeps I (gets f)"
  by (simp add: keeps_def gets_def)

lemma keeps_ignoring [keeps_intro]: "keeps I m \<Longrightarrow> keeps I (ignoring m)"
  by (simp add: keeps_def ignoring_def)

lemma keeps_andThen [keeps_intro]:
  assumes "keeps I m" and "\<And>a. keeps I (f a)"
  shows "keeps I (andThen m f)"
proof (rule keepsI)
  fix s assume "I s"
  obtain r t where m: "m s = (r, t)" by fastforce
  with assms(1) \<open>I s\<close> have "I t" by (blast intro: keepsD)
  with assms(2) m show "I (snd (andThen m f s))"
    by (cases r) (auto simp: andThen_def intro: keeps_snd)
qed

lemma keeps_if [keeps_intro]:
  "(b \<Longrightarrow> keeps I m) \<Longrightarrow> (\<not> b \<Longrightarrow> keeps I n) \<Longrightarrow> keeps I (if b then m else n)"
  by simp

lemma keeps_forEach [keeps_intro]: "(\<And>x. keeps I (f x)) \<Longrightarrow> keeps I (forEach xs f)"
  by (induction xs) (auto intro: keeps_intro)

lemma keeps_collect [keeps_intro]: "(\<And>x. keeps I (f x)) \<Longrightarrow> keeps I (collect f xs)"
  by (induction xs) (auto intro: keeps_intro)

lemma keeps_modify: "(\<And>s. I s \<Longrightarrow> I (f s)) \<Longrightarrow> keeps I (modify f)"
  by (simp add: keeps_def modify_def)

section \<open>Tables\<close>

text \<open>
  A table is the list of its rows in rowid order. \<open>next_rowid\<close> is the id SQLite gives to a row
  inserted into a table with an \<open>INTEGER PRIMARY KEY\<close> and no explicit id: one more than the
  largest in use, 1 in an empty table.
\<close>

definition next_rowid :: "int list \<Rightarrow> int" where
  "next_rowid ids = (if ids = [] then 1 else fold max (tl ids) (hd ids) + 1)"

definition upsert :: "('r \<Rightarrow> bool) \<Rightarrow> ('r \<Rightarrow> 'r) \<Rightarrow> 'r \<Rightarrow> 'r list \<Rightarrow> 'r list" where
  \<comment> \<open>\<open>INSERT ... ON CONFLICT(key) DO UPDATE SET ...\<close>: \<open>hit\<close> says which rows have the new row's key\<close>
  "upsert hit upd new rows =
     (if list_ex hit rows then map (\<lambda>r. if hit r then upd r else r) rows else rows @ [new])"

definition insert_ignore :: "('r \<Rightarrow> bool) \<Rightarrow> 'r \<Rightarrow> 'r list \<Rightarrow> 'r list" where
  \<comment> \<open>\<open>INSERT OR IGNORE\<close>\<close>
  "insert_ignore hit new rows = (if list_ex hit rows then rows else rows @ [new])"

definition update_where :: "('r \<Rightarrow> bool) \<Rightarrow> ('r \<Rightarrow> 'r) \<Rightarrow> 'r list \<Rightarrow> 'r list" where
  "update_where hit upd rows = map (\<lambda>r. if hit r then upd r else r) rows"

definition delete_where :: "('r \<Rightarrow> bool) \<Rightarrow> 'r list \<Rightarrow> 'r list" where
  "delete_where hit rows = filter (\<lambda>r. \<not> hit r) rows"

lemma fold_max_ge: "(x :: int) \<le> fold max xs x"
  by (induction xs arbitrary: x) (auto intro: order_trans [OF max.cobounded2])

lemma fold_max_mem: "y \<in> set xs \<Longrightarrow> (y :: int) \<le> fold max xs x"
proof (induction xs arbitrary: x)
  case (Cons z zs)
  then show ?case
    using order_trans [OF max.cobounded1 fold_max_ge] by auto
qed simp

lemma next_rowid_gt: "i \<in> set ids \<Longrightarrow> i < next_rowid ids"
proof (cases ids)
  case (Cons a xs)
  assume "i \<in> set ids"
  with Cons have "i \<le> fold max xs a"
    by (auto intro: fold_max_ge fold_max_mem)
  with Cons show ?thesis
    by (simp add: next_rowid_def)
qed simp

lemma next_rowid_fresh [simp]: "next_rowid ids \<notin> set ids"
  using next_rowid_gt [of "next_rowid ids" ids] by auto

lemma next_rowid_pos:
  assumes "\<And>i. i \<in> set ids \<Longrightarrow> 0 < i"
  shows "0 < next_rowid ids"
proof (cases ids)
  case (Cons a xs)
  with assms have "0 < a"
    by simp
  moreover have "a \<le> fold max xs a"
    by (rule fold_max_ge)
  ultimately show ?thesis
    using Cons by (simp add: next_rowid_def)
qed (simp add: next_rowid_def)

lemma takeWhile_stop:
  "\<forall>x \<in> set a. P x \<Longrightarrow> \<not> P c \<Longrightarrow> takeWhile P (a @ c # r) = a \<and> dropWhile P (a @ c # r) = c # r"
  by (induction a) auto

lemma find_append: "find P (xs @ ys) = (case find P xs of None \<Rightarrow> find P ys | Some x \<Rightarrow> Some x)"
  by (induction xs) auto

lemma find_map_same:
  "(\<And>r. P (f r) = P r) \<Longrightarrow> find P (map f xs) = map_option f (find P xs)"
  by (induction xs) auto

lemma find_filter_weaker:
  "(\<And>r. P r \<Longrightarrow> Q r) \<Longrightarrow> find P (filter Q xs) = find P xs"
  by (induction xs) auto

lemma find_filter_none:
  "(\<And>r. P r \<Longrightarrow> \<not> Q r) \<Longrightarrow> find P (filter Q xs) = None"
  by (induction xs) auto

lemma keys_filter: "(\<lambda>r. g (f r)) ` set (filter (\<lambda>r. g (f r) \<in> K) rows) = g ` f ` set rows \<inter> K"
  by auto

lemma find_Some_mem: "find P xs = Some x \<Longrightarrow> x \<in> set xs \<and> P x"
  by (auto simp: find_Some_iff)

lemma map_update_where: "(\<And>r. g (f r) = g r) \<Longrightarrow> map g (update_where P f rows) = map g rows"
  by (simp add: update_where_def)

lemma set_update_where: "set (update_where P f rows) = (\<lambda>r. if P r then f r else r) ` set rows"
  by (simp add: update_where_def)

lemma ball_update_where:
  "\<forall>r \<in> set rows. Q r \<Longrightarrow> (\<And>r. Q r \<Longrightarrow> Q (f r)) \<Longrightarrow> \<forall>r \<in> set (update_where P f rows). Q r"
  by (auto simp: set_update_where)

lemma update_where_hit:
  assumes "r \<in> set (update_where P f rows)" and "P r"
  shows "\<exists>x \<in> set rows. P x \<and> r = f x"
proof -
  from assms(1) obtain x where "x \<in> set rows" and "r = (if P x then f x else x)"
    unfolding set_update_where by blast
  with assms(2) show ?thesis
    by (cases "P x") auto
qed

lemma filter_update_where_other:
  "(\<And>r. P r \<Longrightarrow> P (f r)) \<Longrightarrow> filter (\<lambda>r. \<not> P r) (update_where P f rows) = filter (\<lambda>r. \<not> P r) rows"
  by (induction rows) (auto simp: update_where_def)

lemma set_delete_where [table_simps]: "set (delete_where P rows) = {r \<in> set rows. \<not> P r}"
  by (auto simp: delete_where_def)

lemma distinct_map_delete_where: "distinct (map g rows) \<Longrightarrow> distinct (map g (delete_where P rows))"
  by (simp add: delete_where_def distinct_map_filter)

lemma fold_delete_where: "fold (\<lambda>k. delete_where (\<lambda>r. f r = k)) ks rows = filter (\<lambda>r. f r \<notin> set ks) rows"
  by (induction ks arbitrary: rows) (auto simp: delete_where_def intro!: filter_cong)

lemma list_ex_find: "list_ex P xs \<longleftrightarrow> find P xs \<noteq> None"
  by (induction xs) auto

section \<open>Interface: insert or update on a unique key\<close>

text \<open>
  What the operations of the store rely on when they write a table with a unique key: one row per
  key stays one row per key, the written key reads back as the merged or the new row, and every
  other key reads as before. \<open>put n rows\<close> is the table after the statement with the arguments \<open>n\<close>.
\<close>

locale keyed_upsert =
  fixes key :: "'r \<Rightarrow> 'k"
    and key_of :: "'n \<Rightarrow> 'k"
    and merge :: "'n \<Rightarrow> 'r \<Rightarrow> 'r"
    and fresh :: "'n \<Rightarrow> 'r list \<Rightarrow> 'r"
    and put :: "'n \<Rightarrow> 'r list \<Rightarrow> 'r list"
  assumes put_upsert: "put n rows = upsert (\<lambda>r. key r = key_of n) (merge n) (fresh n rows) rows"
    and key_fresh: "key (fresh n rows) = key_of n"
    and key_merge: "key r = key_of n \<Longrightarrow> key (merge n r) = key_of n"
begin

lemma put_map_keys:
  "map key (put n rows) = (if key_of n \<in> key ` set rows then map key rows else map key rows @ [key_of n])"
proof (cases "key_of n \<in> key ` set rows")
  case True
  then have "list_ex (\<lambda>r. key r = key_of n) rows"
    by (auto simp: list_ex_iff)
  with True show ?thesis
    by (auto simp: put_upsert upsert_def key_merge)
next
  case False
  then have "\<not> list_ex (\<lambda>r. key r = key_of n) rows"
    unfolding list_ex_iff by (metis image_eqI)
  with False show ?thesis
    by (simp add: put_upsert upsert_def key_fresh)
qed

lemma find_merged:
  "find (\<lambda>r. key r = k) (map (\<lambda>r. if key r = key_of n then merge n r else r) rows) =
     map_option (\<lambda>r. if key r = key_of n then merge n r else r) (find (\<lambda>r. key r = k) rows)"
  by (induction rows) (auto simp: key_merge)

lemma put_distinct: "distinct (map key rows) \<Longrightarrow> distinct (map key (put n rows))"
  by (simp add: put_map_keys)

lemma put_keys: "key ` set (put n rows) = insert (key_of n) (key ` set rows)"
  using arg_cong [OF put_map_keys, of set] by (auto split: if_splits)

lemma lookup_put_same:
  "find (\<lambda>r. key r = key_of n) (put n rows) =
     Some (case find (\<lambda>r. key r = key_of n) rows of None \<Rightarrow> fresh n rows | Some r \<Rightarrow> merge n r)"
proof (cases "find (\<lambda>r. key r = key_of n) rows")
  case None
  then show ?thesis
    by (simp add: put_upsert upsert_def list_ex_find find_append key_fresh)
next
  case (Some r)
  then show ?thesis
    by (auto simp: put_upsert upsert_def list_ex_find find_merged dest: find_Some_mem)
qed

lemma lookup_put_other:
  assumes "k \<noteq> key_of n"
  shows "find (\<lambda>r. key r = k) (put n rows) = find (\<lambda>r. key r = k) rows"
proof -
  have "map_option (\<lambda>r. if key r = key_of n then merge n r else r) (find (\<lambda>r. key r = k) rows) =
      find (\<lambda>r. key r = k) rows"
    using assms by (cases "find (\<lambda>r. key r = k) rows") (auto dest: find_Some_mem)
  then show ?thesis
    using assms
    by (simp add: put_upsert upsert_def find_merged find_append key_fresh split: option.split)
qed

lemma fold_put_keys: "key ` set (fold put ns rows) = key_of ` set ns \<union> key ` set rows"
  by (induction ns arbitrary: rows) (auto simp: put_keys)

lemma fold_put_distinct: "distinct (map key rows) \<Longrightarrow> distinct (map key (fold put ns rows))"
  by (induction ns arbitrary: rows) (simp_all add: put_distinct)

lemma fold_lookup_other:
  "k \<notin> key_of ` set ns \<Longrightarrow> find (\<lambda>r. key r = k) (fold put ns rows) = find (\<lambda>r. key r = k) rows"
  by (induction ns arbitrary: rows) (simp_all add: lookup_put_other)

lemma fold_lookup_last:
  assumes "ns = ns1 @ n # ns2" and "key_of n \<notin> key_of ` set ns2"
  shows "\<exists>rows'. find (\<lambda>r. key r = key_of n) (fold put ns rows) =
    Some (case find (\<lambda>r. key r = key_of n) rows' of None \<Rightarrow> fresh n rows' | Some r \<Rightarrow> merge n r)"
  using assms by (intro exI [of _ "fold put ns1 rows"]) (simp add: fold_lookup_other lookup_put_same)

lemma put_all:
  assumes "\<And>r. r \<in> set rows \<Longrightarrow> P r" and "P (fresh n rows)"
    and "\<And>r. P r \<Longrightarrow> key r = key_of n \<Longrightarrow> P (merge n r)" and "r \<in> set (put n rows)"
  shows "P r"
  using assms(4) by (auto simp: put_upsert upsert_def assms(1-3) split: if_splits)

end

locale keyed_upsert_id = keyed_upsert key key_of merge fresh put
  for key :: "'r \<Rightarrow> 'k" and key_of :: "'n \<Rightarrow> 'k" and merge :: "'n \<Rightarrow> 'r \<Rightarrow> 'r"
    and fresh :: "'n \<Rightarrow> 'r list \<Rightarrow> 'r" and put :: "'n \<Rightarrow> 'r list \<Rightarrow> 'r list" +
  fixes rid :: "'r \<Rightarrow> int"
  assumes rid_fresh: "rid (fresh n rows) = next_rowid (map rid rows)"
    and rid_merge: "rid (merge n r) = rid r"
begin

lemma put_map_rids:
  "map rid (put n rows) =
     (if list_ex (\<lambda>r. key r = key_of n) rows then map rid rows
      else map rid rows @ [next_rowid (map rid rows)])"
  by (simp add: put_upsert upsert_def rid_fresh rid_merge)

lemma put_rids_distinct: "distinct (map rid rows) \<Longrightarrow> distinct (map rid (put n rows))"
  using next_rowid_fresh [of "map rid rows"] by (simp add: put_map_rids del: next_rowid_fresh)

lemma fold_put_rids_distinct: "distinct (map rid rows) \<Longrightarrow> distinct (map rid (fold put ns rows))"
  by (induction ns arbitrary: rows) (simp_all add: put_rids_distinct)

lemma put_rids_kept: "set (map rid rows) \<subseteq> set (map rid (put n rows))"
  unfolding put_map_rids by auto

end

section \<open>Interface: a view of the database behind an in-memory cache\<close>

text \<open>
  The store reads each policy table once and then answers from memory. \<open>view\<close> is what the query
  returns, \<open>read\<close> the method. A cache is coherent when, loaded, it holds the view.
\<close>

definition coherent :: "('s \<Rightarrow> bool) \<Rightarrow> ('s \<Rightarrow> 'v) \<Rightarrow> ('s \<Rightarrow> 'v) \<Rightarrow> 's \<Rightarrow> bool" where
  "coherent loaded cached view s \<longleftrightarrow> (loaded s \<longrightarrow> cached s = view s)"

locale cached_view =
  fixes view :: "'s \<Rightarrow> 'v"
    and loaded :: "'s \<Rightarrow> bool"
    and cached :: "'s \<Rightarrow> 'v"
    and read :: "('s, 'v) comp"
  assumes read_hit: "loaded s \<Longrightarrow> read s = (Inr (cached s), s)"
    and read_fill: "\<not> loaded s \<Longrightarrow> read s = (Inr v, t) \<Longrightarrow>
      v = view s \<and> view t = view s \<and> loaded t \<and> cached t = view s"
    and read_error: "read s = (Inl e, t) \<Longrightarrow> \<not> loaded s \<and> \<not> loaded t \<and> view t = view s"
begin

lemma read_view: "read s = (r, t) \<Longrightarrow> view t = view s"
  by (cases r; cases "loaded s") (auto simp: read_hit dest: read_fill read_error)

lemma read_correct: "coherent loaded cached view s \<Longrightarrow> read s = (Inr v, t) \<Longrightarrow> v = view s"
  by (cases "loaded s") (auto simp: read_hit coherent_def dest: read_fill)

lemma read_coherent: "coherent loaded cached view s \<Longrightarrow> read s = (r, t) \<Longrightarrow> coherent loaded cached view t"
  by (cases r; cases "loaded s") (auto simp: read_hit coherent_def dest: read_fill read_error)

lemma read_again: "read s = (Inr v, t) \<Longrightarrow> read t = (Inr v, t)"
  by (cases "loaded s") (auto simp: read_hit dest: read_fill)

end

section \<open>Interface: a queue of bounded capacity\<close>

text \<open>
  What the producer of a buffered channel relies on when it sends without waiting: an item is appended
  while there is room and counted as lost otherwise.
\<close>

locale bounded_queue =
  fixes items :: "'s \<Rightarrow> 'e list"
    and lost :: "'s \<Rightarrow> int"
    and cap :: int
    and put :: "'e \<Rightarrow> 's \<Rightarrow> 's"
  assumes put_room: "int (length (items s)) < cap \<Longrightarrow> items (put e s) = items s @ [e] \<and> lost (put e s) = lost s"
    and put_full: "cap \<le> int (length (items s)) \<Longrightarrow> items (put e s) = items s \<and> lost (put e s) = lost s + 1"
begin

lemma put_bounded: "int (length (items s)) \<le> cap \<Longrightarrow> int (length (items (put e s))) \<le> cap"
  using put_room [of s e] put_full [of s e] by (cases "int (length (items s)) < cap") auto

lemma put_accounted: "int (length (items (put e s))) + lost (put e s) = int (length (items s)) + lost s + 1"
  using put_room [of s e] put_full [of s e] by (cases "int (length (items s)) < cap") auto

lemma put_prefix: "prefix (items s) (items (put e s))"
  using put_room [of s e] put_full [of s e] by (cases "int (length (items s)) < cap") auto

end

end
