(* ===== verification/Go_Strings.thy ===== *)
theory Go_Strings
  imports Prelude "HOL-Library.Char_ord" "HOL-Library.List_Lexorder" "HOL-Library.Product_Lexorder"
begin

text \<open>
  The functions of Go's \<open>strings\<close> and \<open>strconv\<close> packages that the code calls. A Go string is a
  sequence of bytes, here a \<open>char list\<close>. Letter case and white space are those of ASCII: a byte
  above 127 is left alone by \<open>to_lower\<close> and is no white space, where Go would decode UTF-8 and map
  the letters of other scripts; DNS presentation names, MAC addresses, URLs and the keywords of the
  program are ASCII. The order of strings (\<open>\<le>\<close>) is the byte order, as in Go and in SQLite's
  BINARY collation.
\<close>

named_theorems go_strings \<open>evaluation rules for the string functions\<close>

definition is_space :: "char \<Rightarrow> bool" where
  "is_space c \<longleftrightarrow> c = CHR '' '' \<or> c = CHR 0x09 \<or> c = CHR 0x0A \<or> c = CHR 0x0B \<or> c = CHR 0x0C \<or> c = CHR 0x0D"

definition lower_char :: "char \<Rightarrow> char" where
  "lower_char c = (let n = of_char c :: nat in if 65 \<le> n \<and> n \<le> 90 then char_of (n + 32) else c)"

definition upper_char :: "char \<Rightarrow> char" where
  "upper_char c = (let n = of_char c :: nat in if 97 \<le> n \<and> n \<le> 122 then char_of (n - 32) else c)"

definition to_lower :: "string \<Rightarrow> string" where
  "to_lower s = map lower_char s"

definition to_upper :: "string \<Rightarrow> string" where
  "to_upper s = map upper_char s"

definition equal_fold :: "string \<Rightarrow> string \<Rightarrow> bool" where
  "equal_fold s t \<longleftrightarrow> to_lower s = to_lower t"

definition trim_left :: "string \<Rightarrow> string" where
  "trim_left s = dropWhile is_space s"

definition trim_space :: "string \<Rightarrow> string" where
  "trim_space s = rev (dropWhile is_space (rev (dropWhile is_space s)))"

definition trim_right :: "string \<Rightarrow> string \<Rightarrow> string" where
  \<comment> \<open>\<open>strings.TrimRight(s, cutset)\<close>\<close>
  "trim_right s cs = rev (dropWhile (\<lambda>c. c \<in> set cs) (rev s))"

definition has_prefix :: "string \<Rightarrow> string \<Rightarrow> bool" where
  "has_prefix s p \<longleftrightarrow> take (length p) s = p"

definition has_suffix :: "string \<Rightarrow> string \<Rightarrow> bool" where
  "has_suffix s p \<longleftrightarrow> length p \<le> length s \<and> drop (length s - length p) s = p"

definition trim_prefix :: "string \<Rightarrow> string \<Rightarrow> string" where
  "trim_prefix s p = (if has_prefix s p then drop (length p) s else s)"

definition trim_suffix :: "string \<Rightarrow> string \<Rightarrow> string" where
  "trim_suffix s p = (if has_suffix s p then take (length s - length p) s else s)"

text \<open>\<open>IndexByte\<close>, \<open>IndexAny\<close> and \<open>Index\<close>: \<open>None\<close> where Go returns -1.\<close>

fun index_where :: "(char \<Rightarrow> bool) \<Rightarrow> string \<Rightarrow> nat option" where
  "index_where p [] = None"
| "index_where p (x # xs) = (if p x then Some 0 else map_option Suc (index_where p xs))"

definition index_byte :: "string \<Rightarrow> char \<Rightarrow> nat option" where
  "index_byte s c = index_where (\<lambda>x. x = c) s"

definition index_any :: "string \<Rightarrow> string \<Rightarrow> nat option" where
  "index_any s cs = index_where (\<lambda>x. x \<in> set cs) s"

fun index_sub :: "string \<Rightarrow> string \<Rightarrow> nat option" where
  "index_sub [] sub = (if sub = [] then Some 0 else None)"
| "index_sub (x # xs) sub =
     (if has_prefix (x # xs) sub then Some 0 else map_option Suc (index_sub xs sub))"

definition contains :: "string \<Rightarrow> string \<Rightarrow> bool" where
  "contains s sub \<longleftrightarrow> index_sub s sub \<noteq> None"

definition contains_any :: "string \<Rightarrow> string \<Rightarrow> bool" where
  "contains_any s cs \<longleftrightarrow> index_any s cs \<noteq> None"

fun split_by :: "(char \<Rightarrow> bool) \<Rightarrow> string \<Rightarrow> string list" where
  "split_by p [] = [[]]"
| "split_by p (x # xs) =
     (if p x then [] # split_by p xs
      else (case split_by p xs of [] \<Rightarrow> [[x]] | w # ws \<Rightarrow> (x # w) # ws))"

definition split_on :: "string \<Rightarrow> char \<Rightarrow> string list" where
  \<comment> \<open>\<open>strings.Split(s, sep)\<close> for a separator of one byte\<close>
  "split_on s c = split_by (\<lambda>x. x = c) s"

definition fields :: "string \<Rightarrow> string list" where
  "fields s = filter (\<lambda>w. w \<noteq> []) (split_by is_space s)"

fun join :: "string list \<Rightarrow> string \<Rightarrow> string" where
  "join [] sep = []"
| "join [w] sep = w"
| "join (w # v # vs) sep = w @ sep @ join (v # vs) sep"

definition remove_byte :: "string \<Rightarrow> char \<Rightarrow> string" where
  \<comment> \<open>\<open>strings.ReplaceAll(s, c, "")\<close>\<close>
  "remove_byte s c = filter (\<lambda>x. x \<noteq> c) s"

section \<open>Numbers as text\<close>

definition is_digit :: "char \<Rightarrow> bool" where
  "is_digit c \<longleftrightarrow> 48 \<le> (of_char c :: nat) \<and> (of_char c :: nat) \<le> 57"

definition digit_val :: "char \<Rightarrow> nat" where
  "digit_val c = of_char c - 48"

definition digit_char :: "nat \<Rightarrow> char" where
  "digit_char d = char_of (48 + d)"

fun digits :: "nat \<Rightarrow> string" where
  "digits n = (if n < 10 then [digit_char n] else digits (n div 10) @ [digit_char (n mod 10)])"

declare digits.simps [simp del]

definition itoa :: "int \<Rightarrow> string" where
  "itoa i = (if i < 0 then CHR ''-'' # digits (nat (- i)) else digits (nat i))"

definition digits_val :: "string \<Rightarrow> nat" where
  "digits_val s = foldl (\<lambda>a c. 10 * a + digit_val c) 0 s"

definition int64_ok :: "int \<Rightarrow> bool" where
  "int64_ok i \<longleftrightarrow> - (2 ^ 63) \<le> i \<and> i < 2 ^ 63"

definition atoi :: "string \<Rightarrow> int option" where
  \<comment> \<open>\<open>strconv.Atoi\<close> and \<open>strconv.ParseInt(s, 10, 64)\<close>; \<open>None\<close> is its error\<close>
  "atoi s =
     (let neg = has_prefix s ''-'';
          body = (if has_prefix s ''-'' \<or> has_prefix s ''+'' then drop 1 s else s);
          v = (if neg then - int (digits_val body) else int (digits_val body))
      in if body \<noteq> [] \<and> list_all is_digit body \<and> int64_ok v then Some v else None)"

definition bool_text :: "bool \<Rightarrow> string" where
  \<comment> \<open>\<open>fmt.Sprintf("%t", b)\<close>\<close>
  "bool_text b = (if b then ''true'' else ''false'')"

section \<open>Lemmas\<close>

lemma has_prefix_iff: "has_prefix s p \<longleftrightarrow> (\<exists>t. s = p @ t)"
  by (metis append_eq_conv_conj append_take_drop_id has_prefix_def)

lemma has_suffix_iff: "has_suffix s p \<longleftrightarrow> (\<exists>t. s = t @ p)"
  by (auto simp: has_suffix_def) (metis append_take_drop_id)

lemma has_prefix_append [simp]: "has_prefix (p @ t) p"
  by (auto simp: has_prefix_iff)

lemma has_suffix_append [simp]: "has_suffix (t @ p) p"
  by (auto simp: has_suffix_iff)

lemma has_suffix_snoc: "has_suffix (s @ [c]) [d] \<longleftrightarrow> c = d"
  by (auto simp: has_suffix_def)

lemma has_prefix_Cons: "has_prefix (x # xs) [c] \<longleftrightarrow> x = c"
  by (auto simp: has_prefix_def)

lemma has_prefix_Nil [simp]: "has_prefix [] (x # xs) = False"
  by (simp add: has_prefix_def)

lemma has_suffix_Nil [simp]: "has_suffix [] (x # xs) = False"
  by (simp add: has_suffix_def)

lemma has_suffix_length: "has_suffix s p \<Longrightarrow> length p \<le> length s"
  by (simp add: has_suffix_def)

lemma has_suffix_trans: "has_suffix s t \<Longrightarrow> has_suffix t u \<Longrightarrow> has_suffix s u"
  by (auto simp: has_suffix_iff)

lemma has_suffix_linear:
  "has_suffix s a \<Longrightarrow> has_suffix s b \<Longrightarrow> length a \<le> length b \<Longrightarrow> has_suffix b a"
  by (auto simp: has_suffix_iff append_eq_append_conv2)

lemma trim_suffix_append [simp]: "trim_suffix (s @ p) p = s"
  by (simp add: trim_suffix_def)

lemma trim_prefix_append [simp]: "trim_prefix (p @ s) p = s"
  by (simp add: trim_prefix_def)

lemma length_trim_suffix: "length (trim_suffix s p) \<le> length s"
  by (simp add: trim_suffix_def)

lemma trim_suffix_dot_length: "has_suffix s p \<Longrightarrow> length (trim_suffix s p) = length s - length p"
  by (simp add: trim_suffix_def has_suffix_def)

lemma index_where_Some:
  "index_where p s = Some i \<Longrightarrow> i < length s \<and> p (s ! i) \<and> (\<forall>j < i. \<not> p (s ! j))"
proof (induction s arbitrary: i)
  case (Cons x xs)
  show ?case
  proof (cases "p x")
    case False
    with Cons.prems obtain k where "index_where p xs = Some k" and "i = Suc k"
      by auto
    with Cons.IH False show ?thesis
      by (auto simp: nth_Cons split: nat.splits)
  qed (use Cons.prems in auto)
qed simp

lemma index_where_None: "index_where p s = None \<longleftrightarrow> (\<forall>x \<in> set s. \<not> p x)"
  by (induction s) auto

lemma index_where_append:
  "(\<And>x. x \<in> set s \<Longrightarrow> \<not> p x) \<Longrightarrow> p c \<Longrightarrow> index_where p (s @ c # t) = Some (length s)"
  by (induction s) auto

subsection \<open>Letter case and white space\<close>

lemma of_char_lower:
  "(of_char (lower_char c) :: nat) =
     (let n = of_char c in if 65 \<le> n \<and> n \<le> 90 then n + 32 else n)"
  by (simp add: lower_char_def Let_def)

lemma of_char_upper:
  "(of_char (upper_char c) :: nat) =
     (let n = of_char c in if 97 \<le> n \<and> n \<le> 122 then n - 32 else n)"
  by (auto simp: upper_char_def Let_def intro!: mod_less)

lemma char_eq_iff_code: "c = d \<longleftrightarrow> (of_char c :: nat) = of_char d"
  by (metis char_of_char)

lemma lower_char_idem [simp]: "lower_char (lower_char c) = lower_char c"
  by (simp add: char_eq_iff_code of_char_lower Let_def)

lemma upper_char_idem [simp]: "upper_char (upper_char c) = upper_char c"
  by (auto simp: char_eq_iff_code of_char_upper Let_def)

lemma lower_char_eq_nonletter:
  "\<not> (97 \<le> (of_char d :: nat) \<and> (of_char d :: nat) \<le> 122) \<Longrightarrow>
   \<not> (65 \<le> (of_char d :: nat) \<and> (of_char d :: nat) \<le> 90) \<Longrightarrow> lower_char c = d \<longleftrightarrow> c = d"
  by (simp only: char_eq_iff_code of_char_lower Let_def) arith

lemma lower_char_dot [simp]: "lower_char c = CHR ''.'' \<longleftrightarrow> c = CHR ''.''"
  by (rule lower_char_eq_nonletter) simp_all

lemma is_space_code:
  "is_space c \<longleftrightarrow> (let n = of_char c :: nat in n = 32 \<or> 9 \<le> n \<and> n \<le> 13)"
  by (auto simp: is_space_def char_eq_iff_code Let_def)

lemma is_space_lower [simp]: "is_space (lower_char c) = is_space c"
  by (auto simp: is_space_code of_char_lower Let_def)

lemma is_space_upper [simp]: "is_space (upper_char c) = is_space c"
  by (auto simp: is_space_code of_char_upper Let_def)

lemma not_space_dot [simp]: "\<not> is_space (CHR ''.'')"
  by (simp add: is_space_def)

lemma to_lower_idem [simp]: "to_lower (to_lower s) = to_lower s"
  by (simp add: to_lower_def)

lemma to_upper_idem [simp]: "to_upper (to_upper s) = to_upper s"
  by (simp add: to_upper_def)

lemma to_lower_Nil_iff [simp]: "to_lower s = [] \<longleftrightarrow> s = []"
  by (simp add: to_lower_def)

lemma to_upper_Nil_iff [simp]: "to_upper s = [] \<longleftrightarrow> s = []"
  by (simp add: to_upper_def)

lemma to_lower_append [simp]: "to_lower (s @ t) = to_lower s @ to_lower t"
  by (simp add: to_lower_def)

lemma length_to_lower [simp]: "length (to_lower s) = length s"
  by (simp add: to_lower_def)

lemma dropWhile_hd: "xs \<noteq> [] \<Longrightarrow> \<not> P (hd xs) \<Longrightarrow> dropWhile P xs = xs"
  by (cases xs) auto

definition trimmed :: "string \<Rightarrow> bool" where
  "trimmed s \<longleftrightarrow> s = [] \<or> (\<not> is_space (hd s) \<and> \<not> is_space (last s))"

lemma trim_space_trimmed: "trimmed s \<Longrightarrow> trim_space s = s"
  by (cases "s = []") (simp_all add: trimmed_def trim_space_def dropWhile_hd hd_rev)

lemma dropWhile_rev_last:
  "xs \<noteq> [] \<Longrightarrow> \<not> P (hd xs) \<Longrightarrow>
   dropWhile P (rev xs) \<noteq> [] \<and> last (dropWhile P (rev xs)) = hd xs"
  by (cases xs) (auto simp: dropWhile_append)

lemma trimmed_trim_space: "trimmed (trim_space s)"
proof -
  let ?u = "dropWhile is_space s"
  show ?thesis
  proof (cases "?u = []")
    case False
    then have hd: "\<not> is_space (hd ?u)"
      by (rule hd_dropWhile)
    let ?v = "dropWhile is_space (rev ?u)"
    from dropWhile_rev_last [of ?u is_space, OF False hd] have "?v \<noteq> []" and "last ?v = hd ?u"
      by auto
    with hd hd_dropWhile [of is_space "rev ?u"] show ?thesis
      by (simp add: trimmed_def trim_space_def hd_rev last_rev)
  next
    case True
    then show ?thesis by (simp only: trimmed_def trim_space_def) simp
  qed
qed

lemma trim_space_idem [simp]: "trim_space (trim_space s) = trim_space s"
  by (rule trim_space_trimmed) (rule trimmed_trim_space)

lemma dropWhile_map_same: "(\<And>x. P (f x) = P x) \<Longrightarrow> dropWhile P (map f xs) = map f (dropWhile P xs)"
  by (induction xs) auto

lemma trim_space_to_lower: "trim_space (to_lower s) = to_lower (trim_space s)"
  by (simp add: trim_space_def to_lower_def dropWhile_map_same rev_map)

lemma trim_space_to_upper: "trim_space (to_upper s) = to_upper (trim_space s)"
  by (simp add: trim_space_def to_upper_def dropWhile_map_same rev_map)

lemma trimmed_to_lower [simp]: "trimmed (to_lower s) = trimmed s"
  by (cases s) (auto simp: trimmed_def to_lower_def last_map)

subsection \<open>Decimal text\<close>

lemma digit_char_digit: "d < 10 \<Longrightarrow> is_digit (digit_char d) \<and> digit_val (digit_char d) = d"
  by (simp add: is_digit_def digit_val_def digit_char_def)

lemma digits_val_snoc: "digits_val (s @ [c]) = 10 * digits_val s + digit_val c"
  by (simp add: digits_val_def)

lemma digits_ok: "digits n \<noteq> [] \<and> list_all is_digit (digits n) \<and> digits_val (digits n) = n"
proof (induction n rule: digits.induct)
  case (1 n)
  show ?case
  proof (cases "n < 10")
    case True
    then show ?thesis
      by (simp add: digits.simps [of n] digit_char_digit digits_val_def)
  next
    case False
    with "1.IH" digit_char_digit [of "n mod 10"] show ?thesis
      by (simp add: digits.simps [of n] digits_val_snoc)
  qed
qed

lemma digit_not_sign: "is_digit c \<Longrightarrow> c \<noteq> CHR ''-'' \<and> c \<noteq> CHR ''+''"
  by (auto simp: is_digit_def)

lemma digits_no_sign:
  "\<not> has_prefix (digits n) ''-''" "\<not> has_prefix (digits n) ''+''"
  using digits_ok [of n] digit_not_sign [of "hd (digits n)"]
  by (cases "digits n"; auto simp: has_prefix_Cons)+

lemma atoi_itoa: "int64_ok i \<Longrightarrow> atoi (itoa i) = Some i"
  using digits_ok [of "nat i"] digits_ok [of "nat (- i)"]
  by (auto simp: atoi_def itoa_def Let_def has_prefix_Cons digits_no_sign)

lemma atoi_bound: "atoi s = Some i \<Longrightarrow> int64_ok i"
  by (auto simp: atoi_def Let_def split: if_splits)

lemma atoi_Nil [simp]: "atoi [] = None"
  by (simp add: atoi_def)

lemma split_by_nonempty: "split_by p s \<noteq> []"
  by (induction s) (auto split: list.splits)

end
