(* ===== verification/Go_Time.thy ===== *)
theory Go_Time
  imports Go_Strings
begin

text \<open>
  Instants of time and their RFC3339Nano text, the form in which the store keeps every timestamp
  (\<open>time.Now().UTC().Format(time.RFC3339Nano)\<close>) and compares them in SQL. An instant is the number
  of nanoseconds since 1970-01-01T00:00:00Z; the civil date is that of the proleptic Gregorian
  calendar, as in Go's \<open>time\<close> package.
\<close>

type_synonym instant = int

definition nanos_per_sec :: int where
  "nanos_per_sec = 1000000000"

definition is_leap :: "int \<Rightarrow> bool" where
  "is_leap y \<longleftrightarrow> y mod 4 = 0 \<and> (y mod 100 \<noteq> 0 \<or> y mod 400 = 0)"

text \<open>Year and day of the year from the number of days since 0001-01-01.\<close>

definition year_yday :: "int \<Rightarrow> int \<times> int" where
  "year_yday d =
     (let n400 = d div 146097; r = d mod 146097;
          n100 = min 3 (r div 36524); r = r - 36524 * n100;
          n4 = r div 1461; r = r mod 1461;
          n1 = min 3 (r div 365)
      in (400 * n400 + 100 * n100 + 4 * n4 + n1 + 1, r - 365 * n1))"

definition month_lengths :: "int \<Rightarrow> int list" where
  "month_lengths y = [31, if is_leap y then 29 else 28, 31, 30, 31, 30, 31, 31, 30, 31, 30, 31]"

fun month_day :: "int list \<Rightarrow> int \<Rightarrow> int \<times> int" where
  "month_day [] d = (1, d + 1)"
| "month_day (l # ls) d =
     (if d < l then (1, d + 1) else (case month_day ls (d - l) of (m, dd) \<Rightarrow> (m + 1, dd)))"

definition pad :: "nat \<Rightarrow> int \<Rightarrow> string" where
  "pad w i = (let s = digits (nat i) in replicate (w - length s) (CHR ''0'') @ s)"

definition fmt_date :: "int \<Rightarrow> string" where
  \<comment> \<open>\<open>2006-01-02\<close>, from the number of days since 1970-01-01\<close>
  "fmt_date days =
     (case year_yday (days + 719162) of (y, yd) \<Rightarrow>
        (case month_day (month_lengths y) yd of (m, d) \<Rightarrow>
           pad 4 y @ ''-'' @ pad 2 m @ ''-'' @ pad 2 d))"

definition fmt_clock :: "int \<Rightarrow> string" where
  \<comment> \<open>\<open>15:04:05\<close>, from the second of the day\<close>
  "fmt_clock s = pad 2 (s div 3600) @ '':'' @ pad 2 (s div 60 mod 60) @ '':'' @ pad 2 (s mod 60)"

definition fmt_frac :: "int \<Rightarrow> string" where
  \<comment> \<open>\<open>.999999999\<close>: trailing zeros are dropped, and the whole fraction when it is zero\<close>
  "fmt_frac ns = (if ns = 0 then [] else ''.'' @ trim_right (pad 9 ns) ''0'')"

definition unix_secs :: "instant \<Rightarrow> int" where
  "unix_secs t = t div nanos_per_sec"

definition fmt_secs :: "int \<Rightarrow> string" where
  "fmt_secs s = fmt_date (s div 86400) @ ''T'' @ fmt_clock (s mod 86400)"

definition fmt_time :: "instant \<Rightarrow> string" where
  "fmt_time t = fmt_secs (unix_secs t) @ fmt_frac (t mod nanos_per_sec) @ ''Z''"

definition zero_time :: instant where
  \<comment> \<open>\<open>time.Time{}\<close>, the first of January of the year 1\<close>
  "zero_time = - 62135596800 * nanos_per_sec"

section \<open>Reading a timestamp back\<close>

text \<open>
  \<open>time.Parse(time.RFC3339Nano, s)\<close> on texts in UTC (with the \<open>Z\<close>), the only ones the program
  writes; a text with a numeric zone offset is outside the model and reads as an error here.
\<close>

definition days_before_year :: "int \<Rightarrow> int" where
  "days_before_year y = 365 * (y - 1) + (y - 1) div 4 - (y - 1) div 100 + (y - 1) div 400"

definition days_of_date :: "int \<Rightarrow> int \<Rightarrow> int \<Rightarrow> int" where
  "days_of_date y m d =
     days_before_year y + sum_list (take (nat (m - 1)) (month_lengths y)) + (d - 1) - 719162"

definition num_field :: "string \<Rightarrow> nat \<Rightarrow> nat \<Rightarrow> int option" where
  "num_field s i w =
     (let f = take w (drop i s)
      in if length f = w \<and> list_all is_digit f then Some (int (digits_val f)) else None)"

definition parse_frac :: "string \<Rightarrow> int option" where
  \<comment> \<open>what follows the seconds: \<open>Z\<close>, or a fraction and \<open>Z\<close>\<close>
  "parse_frac s =
     (if s = ''Z'' then Some 0
      else if has_prefix s ''.'' \<and> has_suffix s ''Z'' then
        (let ds = trim_suffix (drop 1 s) ''Z'';
             ns = take 9 (ds @ replicate 9 (CHR ''0''))
         in if ds \<noteq> [] \<and> list_all is_digit ds then Some (int (digits_val ns)) else None)
      else None)"

definition parse_time :: "string \<Rightarrow> instant option" where
  "parse_time s =
     (case (num_field s 0 4, num_field s 5 2, num_field s 8 2,
            num_field s 11 2, num_field s 14 2, num_field s 17 2, parse_frac (drop 19 s)) of
        (Some y, Some mo, Some d, Some h, Some mi, Some sec, Some ns) \<Rightarrow>
          if s ! 4 = CHR ''-'' \<and> s ! 7 = CHR ''-'' \<and> s ! 10 = CHR ''T'' \<and> s ! 13 = CHR '':'' \<and>
             s ! 16 = CHR '':'' \<and> 1 \<le> mo \<and> mo \<le> 12 \<and> 1 \<le> d \<and>
             d \<le> month_lengths y ! nat (mo - 1) \<and> h < 24 \<and> mi < 60 \<and> sec < 60
          then Some ((days_of_date y mo d * 86400 + h * 3600 + mi * 60 + sec) * nanos_per_sec + ns)
          else None
      | _ \<Rightarrow> None)"

definition parse_or_zero :: "string \<Rightarrow> instant" where
  \<comment> \<open>\<open>t, _ = time.Parse(...)\<close>: the zero time on an error\<close>
  "parse_or_zero s = (case parse_time s of Some t \<Rightarrow> t | None \<Rightarrow> zero_time)"

section \<open>The calendar\<close>

lemma days_before_year_split:
  assumes "0 \<le> b" "b \<le> 3" "0 \<le> c" "c \<le> 24" "0 \<le> e" "e \<le> 3"
  shows "days_before_year (400 * a + 100 * b + 4 * c + e + 1) =
    146097 * a + 36524 * b + 1461 * c + 365 * e"
proof -
  have "(400 * a + 100 * b + 4 * c + e) div 4 = 100 * a + 25 * b + c"
    by (rule int_div_pos_eq [where r = e]) (use assms in simp_all)
  moreover have "(400 * a + 100 * b + 4 * c + e) div 100 = 4 * a + b"
    by (rule int_div_pos_eq [where r = "4 * c + e"]) (use assms in simp_all)
  moreover have "(400 * a + 100 * b + 4 * c + e) div 400 = a"
    by (rule int_div_pos_eq [where r = "100 * b + 4 * c + e"]) (use assms in simp_all)
  ultimately show ?thesis
    by (simp add: days_before_year_def)
qed

lemma mod_zero_in_range: "0 < x \<Longrightarrow> x \<le> k \<Longrightarrow> x mod k = 0 \<longleftrightarrow> x = (k :: int)"
  by (cases "x = k") (simp_all add: mod_pos_pos_trivial)

lemma is_leap_split:
  assumes "0 \<le> b" "b \<le> 3" "0 \<le> c" "c \<le> 24" "0 \<le> e" "e \<le> 3"
  shows "is_leap (400 * a + 100 * b + 4 * c + e + 1) \<longleftrightarrow> e = 3 \<and> (c \<noteq> 24 \<or> b = 3)"
proof -
  have "400 * a + 100 * b + 4 * c + e + 1 = (e + 1) + 4 * (100 * a + 25 * b + c)"
    by simp
  then have m4: "(400 * a + 100 * b + 4 * c + e + 1) mod 4 = (e + 1) mod 4"
    by (simp only: mod_mult_self2)
  have "400 * a + 100 * b + 4 * c + e + 1 = (4 * c + e + 1) + 100 * (4 * a + b)"
    by simp
  then have m100: "(400 * a + 100 * b + 4 * c + e + 1) mod 100 = (4 * c + e + 1) mod 100"
    by (simp only: mod_mult_self2)
  have "400 * a + 100 * b + 4 * c + e + 1 = (100 * b + 4 * c + e + 1) + 400 * a"
    by simp
  then have m400: "(400 * a + 100 * b + 4 * c + e + 1) mod 400 = (100 * b + 4 * c + e + 1) mod 400"
    by (simp only: mod_mult_self2)
  have z4: "(e + 1) mod 4 = 0 \<longleftrightarrow> e + 1 = 4"
    by (rule mod_zero_in_range) (use assms in linarith)+
  have z100: "(4 * c + e + 1) mod 100 = 0 \<longleftrightarrow> 4 * c + e + 1 = 100"
    by (rule mod_zero_in_range) (use assms in linarith)+
  have z400: "(100 * b + 4 * c + e + 1) mod 400 = 0 \<longleftrightarrow> 100 * b + 4 * c + e + 1 = 400"
    by (rule mod_zero_in_range) (use assms in linarith)+
  have "4 * c + e + 1 = 100 \<longleftrightarrow> e = 3 \<and> c = 24"
    using assms by linarith
  moreover have "100 * b + 4 * c + e + 1 = 400 \<longleftrightarrow> e = 3 \<and> c = 24 \<and> b = 3"
    using assms by linarith
  ultimately show ?thesis
    unfolding is_leap_def m4 m100 m400 z4 z100 z400 by auto
qed

lemma div_bounds: "0 < k \<Longrightarrow> k * (x div k) \<le> x \<and> x < k * (x div k) + (k :: int)"
  using mult_div_mod_eq [of k x] pos_mod_sign [of k x] pos_mod_bound [of k x] by linarith

lemma year_yday_correct:
  assumes "year_yday d = (y, yd)"
  shows "days_before_year y + yd = d" and "0 \<le> yd" and "yd < (if is_leap y then 366 else 365)"
proof -
  define a where "a = d div 146097"
  define r where "r = d mod 146097"
  define b where "b = min 3 (r div 36524)"
  define r2 where "r2 = r - 36524 * b"
  define c where "c = r2 div 1461"
  define r3 where "r3 = r2 mod 1461"
  define e where "e = min 3 (r3 div 365)"
  have d: "d = 146097 * a + r" and r: "0 \<le> r" "r < 146097"
    by (simp_all add: a_def r_def)
  have b: "0 \<le> b" "b \<le> 3" and r2: "0 \<le> r2" "r2 \<le> 36524" "b < 3 \<Longrightarrow> r2 < 36524"
    using r div_bounds [of 36524 r] unfolding b_def r2_def min_def by auto
  have c: "0 \<le> c" "c \<le> 24" and r2_eq: "r2 = 1461 * c + r3" and r3: "0 \<le> r3" "r3 < 1461"
    using r2(1,2) div_bounds [of 1461 r2] unfolding c_def r3_def by auto
  obtain k where k: "365 * k \<le> r3" "r3 < 365 * k + 365" and e_def': "e = min 3 k"
    using div_bounds [of 365 r3] e_def by auto
  have e: "0 \<le> e" "e \<le> 3" and yd_b: "0 \<le> r3 - 365 * e" "r3 - 365 * e \<le> 365"
    "r3 - 365 * e = 365 \<longrightarrow> e = 3 \<and> r3 = 1460"
    using r3 k unfolding e_def' min_def by auto
  have y: "y = 400 * a + 100 * b + 4 * c + e + 1" and yd: "yd = r3 - 365 * e"
  proof -
    have "year_yday d = (400 * a + 100 * b + 4 * c + e + 1, r3 - 365 * e)"
      by (simp only: year_yday_def Let_def a_def r_def b_def r2_def c_def r3_def e_def)
    with assms show "y = 400 * a + 100 * b + 4 * c + e + 1" and "yd = r3 - 365 * e"
      by simp_all
  qed
  show "days_before_year y + yd = d"
    unfolding y days_before_year_split [OF b c e] using d r2_eq r2_def yd by simp
  show "0 \<le> yd"
    using yd_b yd by simp
  have "c \<noteq> 24 \<or> b = 3" if "r3 = 1460"
    using that r2(2,3) r2_eq b by (cases "b < 3") auto
  moreover have "is_leap y \<longleftrightarrow> e = 3 \<and> (c \<noteq> 24 \<or> b = 3)"
    unfolding y by (rule is_leap_split [OF b c e])
  moreover have "yd = 365 \<longrightarrow> e = 3 \<and> r3 = 1460"
    unfolding yd by (rule yd_b(3))
  ultimately have leap: "yd = 365 \<Longrightarrow> is_leap y"
    by blast
  from yd_b(2) yd have "yd \<le> 365"
    by (simp only:)
  then consider "yd = 365" | "yd < 365"
    by linarith
  then show "yd < (if is_leap y then 366 else 365)"
    by cases (use leap in simp_all)
qed

definition whole_seconds :: "int \<Rightarrow> int" where
  \<comment> \<open>\<open>int64(d.Seconds())\<close>, but for the rounding of the float64 between\<close>
  "whole_seconds d = (if d < 0 then - ((- d) div nanos_per_sec) else d div nanos_per_sec)"

definition time_since :: "int \<Rightarrow> int \<Rightarrow> int" where
  \<comment> \<open>\<open>now.Sub(t)\<close>, which saturates at the range of an int64\<close>
  "time_since now t = max (- (2 ^ 63)) (min (2 ^ 63 - 1) (now - t))"

end
