(* ===== verification/Go_JSON.thy ===== *)
theory Go_JSON
  imports Go_Strings Go_Time
begin

text \<open>
  encoding/json as the handlers use it: \<open>NewDecoder(r.Body).Decode(&body)\<close> reads the first JSON value of
  the body and stores it into a struct. The text of a body is represented by that value. A decoder takes
  the value and what the variable holds before; \<open>None\<close> is any error, after which every caller drops the
  variable.
\<close>

datatype json = JsNull | JsBool bool | JsNum string | JsStr string | JsArr "json list" | JsObj "(string \<times> json) list"

type_synonym 'a decoder = "json \<Rightarrow> 'a \<Rightarrow> 'a option"

section \<open>Values\<close>

text \<open>\<open>null\<close> leaves the variable as it is; a value of another kind is an \<open>UnmarshalTypeError\<close>.\<close>

definition dec_bool :: "bool decoder" where
  "dec_bool j b = (case j of JsBool v \<Rightarrow> Some v | JsNull \<Rightarrow> Some b | _ \<Rightarrow> None)"

definition dec_string :: "string decoder" where
  "dec_string j s = (case j of JsStr v \<Rightarrow> Some v | JsNull \<Rightarrow> Some s | _ \<Rightarrow> None)"

definition dec_int :: "int decoder" where
  \<comment> \<open>\<open>int\<close> and \<open>int64\<close>: the literal must be an integer of 64 bits, without fraction or exponent\<close>
  "dec_int j i = (case j of JsNum lit \<Rightarrow> atoi lit | JsNull \<Rightarrow> Some i | _ \<Rightarrow> None)"

definition rfc3339 :: "string \<Rightarrow> instant option" where
  \<comment> \<open>\<open>parseStrictRFC3339\<close>: in UTC, or with an offset of hours and minutes\<close>
  "rfc3339 s =
     (if has_suffix s ''Z'' then parse_time s
      else let z = drop (length s - 6) s
           in (case (num_field z 1 2, num_field z 4 2, parse_time (take (length s - 6) s @ ''Z'')) of
                 (Some h, Some m, Some t) \<Rightarrow>
                   if h < 24 \<and> m < 60 \<and> z ! 3 = CHR '':'' \<and> hd z \<in> set ''+-''
                   then Some (if hd z = CHR ''+'' then t - (3600 * h + 60 * m) * nanos_per_sec
                              else t + (3600 * h + 60 * m) * nanos_per_sec)
                   else None
               | _ \<Rightarrow> None))"

definition dec_time :: "instant decoder" where
  "dec_time j t = (case j of JsStr v \<Rightarrow> rfc3339 v | JsNull \<Rightarrow> Some t | _ \<Rightarrow> None)"

definition dec_pointer :: "'a \<Rightarrow> 'a decoder \<Rightarrow> 'a option decoder" where
  \<comment> \<open>\<open>null\<close> makes the pointer nil; else what it points to is decoded, allocated first when it is nil\<close>
  "dec_pointer zero d j p =
     (case j of JsNull \<Rightarrow> Some None
      | _ \<Rightarrow> map_option Some (d j (case p of None \<Rightarrow> zero | Some v \<Rightarrow> v)))"

fun dec_items :: "'a \<Rightarrow> 'a decoder \<Rightarrow> json list \<Rightarrow> 'a list \<Rightarrow> 'a list option" where
  \<comment> \<open>the elements of an array; those of an earlier array under the same key are decoded over\<close>
  "dec_items zero d [] old = Some []"
| "dec_items zero d (j # js) old =
     (case d j (case old of [] \<Rightarrow> zero | x # _ \<Rightarrow> x) of
        None \<Rightarrow> None
      | Some a \<Rightarrow> map_option ((#) a) (dec_items zero d js (drop 1 old)))"

definition dec_slice :: "'a \<Rightarrow> 'a decoder \<Rightarrow> 'a list decoder" where
  "dec_slice zero d j xs =
     (case j of JsArr js \<Rightarrow> dec_items zero d js xs | JsNull \<Rightarrow> Some [] | _ \<Rightarrow> None)"

section \<open>Structs\<close>

fun fold_name :: "string \<Rightarrow> string" where
  \<comment> \<open>\<open>foldName\<close>: letters without case; the long s and the Kelvin sign fold to ASCII letters\<close>
  "fold_name [] = []"
| "fold_name (c # r) =
     (if c = CHR 0xC5 \<and> take 1 r = [CHR 0xBF] then CHR ''s'' # fold_name (drop 1 r)
      else if c = CHR 0xE2 \<and> take 2 r = [CHR 0x84, CHR 0xAA] then CHR ''k'' # fold_name (drop 2 r)
      else lower_char c # fold_name r)"

definition member :: "('s \<Rightarrow> 'a) \<Rightarrow> (('a \<Rightarrow> 'a) \<Rightarrow> 's \<Rightarrow> 's) \<Rightarrow> 'a decoder \<Rightarrow> 's decoder" where
  \<comment> \<open>a field of a struct, by its selector and its update\<close>
  "member get upd d j s = map_option (\<lambda>a. upd (\<lambda>_. a) s) (d j (get s))"

fun dec_members :: "(string \<times> 's decoder) list \<Rightarrow> (string \<times> json) list \<Rightarrow> 's \<Rightarrow> 's option" where
  \<comment> \<open>keys find their field without regard to case; unknown keys are skipped; a later key wins\<close>
  "dec_members fs [] s = Some s"
| "dec_members fs ((k, j) # kvs) s =
     (case find (\<lambda>f. fold_name (fst f) = fold_name k) fs of
        None \<Rightarrow> dec_members fs kvs s
      | Some f \<Rightarrow> (case snd f j s of None \<Rightarrow> None | Some s \<Rightarrow> dec_members fs kvs s))"

definition dec_struct :: "(string \<times> 's decoder) list \<Rightarrow> 's decoder" where
  "dec_struct fs j s =
     (case j of JsObj kvs \<Rightarrow> dec_members fs kvs s | JsNull \<Rightarrow> Some s | _ \<Rightarrow> None)"

section \<open>What is decoded\<close>

lemma dec_members_append:
  "dec_members fs (xs @ ys) s = (case dec_members fs xs s of None \<Rightarrow> None | Some t \<Rightarrow> dec_members fs ys t)"
  by (induction fs xs s rule: dec_members.induct) (auto split: option.splits)

lemma dec_members_unknown:
  assumes "\<forall>f \<in> set fs. fold_name (fst f) \<noteq> fold_name k"
  shows "dec_members fs ((k, j) # kvs) s = dec_members fs kvs s"
proof -
  have "find (\<lambda>f. fold_name (fst f) = fold_name k) fs = None"
    using assms by (auto simp: find_None_iff)
  then show ?thesis
    by simp
qed

lemma dec_items_length: "dec_items zero d js old = Some xs \<Longrightarrow> length xs = length js"
  by (induction zero d js old arbitrary: xs rule: dec_items.induct) (auto split: option.splits)

end
