(* ===== verification/Go_Net.thy ===== *)
theory Go_Net
  imports Go_Strings "HOL-Library.Word"
begin

unbundle bit_operations_syntax

text \<open>
  What the code uses of Go's \<open>net\<close> package: IP addresses as byte slices (16 bytes, or 4 for the
  result of \<open>To4\<close>; the empty slice is \<open>nil\<close>), \<open>ParseIP\<close> with the grammar of \<open>netip.ParseAddr\<close>,
  the address classes, \<open>String\<close>, and \<open>SplitHostPort\<close>/\<open>JoinHostPort\<close>.
\<close>

type_synonym byte = "8 word"
type_synonym ip = "byte list"

section \<open>Parsing\<close>

definition v4_field :: "string \<Rightarrow> byte option" where
  \<comment> \<open>decimal, no leading zero, at most 255\<close>
  "v4_field f =
     (if f \<noteq> [] \<and> length f \<le> 3 \<and> list_all is_digit f \<and> (length f = 1 \<or> hd f \<noteq> CHR ''0'') \<and>
         digits_val f \<le> 255
      then Some (of_nat (digits_val f)) else None)"

definition parse_v4 :: "string \<Rightarrow> ip option" where
  "parse_v4 s =
     (case map v4_field (split_on s (CHR ''.'')) of
        [Some a, Some b, Some c, Some d] \<Rightarrow> Some [a, b, c, d]
      | _ \<Rightarrow> None)"

definition hex_val :: "char \<Rightarrow> nat option" where
  "hex_val c = (let n = of_char c :: nat in
     if 48 \<le> n \<and> n \<le> 57 then Some (n - 48)
     else if 97 \<le> n \<and> n \<le> 102 then Some (n - 87)
     else if 65 \<le> n \<and> n \<le> 70 then Some (n - 55)
     else None)"

definition hex_prefix :: "string \<Rightarrow> string" where
  "hex_prefix s = takeWhile (\<lambda>c. hex_val c \<noteq> None) s"

definition hex_num :: "string \<Rightarrow> nat" where
  "hex_num s = foldl (\<lambda>a c. 16 * a + (case hex_val c of Some d \<Rightarrow> d | None \<Rightarrow> 0)) 0 s"

text \<open>
  The loop of \<open>parseIPv6\<close>: \<open>n\<close> is the number of two-byte groups still free, \<open>acc\<close> the bytes
  read so far, \<open>ell\<close> the position of the \<open>::\<close>. The result is the unread rest, the bytes and the
  ellipsis, or \<open>None\<close> for an error.
\<close>

fun v6_groups :: "nat \<Rightarrow> string \<Rightarrow> ip \<Rightarrow> nat option \<Rightarrow> (string \<times> ip \<times> nat option) option" where
  "v6_groups 0 s acc ell = Some (s, acc, ell)"
| "v6_groups (Suc n) s acc ell =
     (let h = hex_prefix s; off = length h; rest = drop off s
      in if off = 0 \<or> 4 < off then None
         else if has_prefix rest ''.'' then
           (if (ell = None \<and> length acc \<noteq> 12) \<or> 16 < length acc + 4 then None
            else (case parse_v4 s of None \<Rightarrow> None | Some q \<Rightarrow> Some ([], acc @ q, ell)))
         else
           (let acc = acc @ [of_nat (hex_num h div 256), of_nat (hex_num h mod 256)]
            in case rest of
                 [] \<Rightarrow> Some ([], acc, ell)
               | [_] \<Rightarrow> None
               | c # c' # s' \<Rightarrow>
                   if c \<noteq> CHR '':'' then None
                   else if c' = CHR '':'' then
                     (if ell \<noteq> None then None
                      else if s' = [] then Some ([], acc, Some (length acc))
                      else v6_groups n s' acc (Some (length acc)))
                   else v6_groups n (c' # s') acc ell))"

definition v6_expand :: "string \<times> ip \<times> nat option \<Rightarrow> ip option" where
  "v6_expand res =
     (case res of (s, bytes, ell) \<Rightarrow>
        if s \<noteq> [] then None
        else if length bytes < 16 then
          (case ell of
             None \<Rightarrow> None
           | Some e \<Rightarrow> Some (take e bytes @ replicate (16 - length bytes) 0 @ drop e bytes))
        else if ell \<noteq> None then None
        else Some bytes)"

definition parse_v6 :: "string \<Rightarrow> ip option" where
  "parse_v6 s =
     (if CHR ''%'' \<in> set s then None
      else if s = ''::'' then Some (replicate 16 0)
      else Option.bind (if has_prefix s ''::'' then v6_groups 8 (drop 2 s) [] (Some 0)
                        else v6_groups 8 s [] None) v6_expand)"

definition v4_prefix :: ip where
  "v4_prefix = replicate 10 0 @ [255, 255]"

definition ParseIP :: "string \<Rightarrow> ip" where
  "ParseIP s =
     (case index_any s ''.:'' of
        None \<Rightarrow> []
      | Some i \<Rightarrow>
          (case (if s ! i = CHR ''.'' then map_option (\<lambda>q. v4_prefix @ q) (parse_v4 s) else parse_v6 s) of
             None \<Rightarrow> []
           | Some ip \<Rightarrow> ip))"

definition To4 :: "ip \<Rightarrow> ip" where
  "To4 p = (if length p = 4 then p
            else if length p = 16 \<and> take 12 p = v4_prefix then drop 12 p
            else [])"

section \<open>Address classes\<close>

definition IsLoopback :: "ip \<Rightarrow> bool" where
  "IsLoopback p = (case To4 p of a # _ \<Rightarrow> a = 127 | [] \<Rightarrow> p = replicate 15 0 @ [1])"

definition IsUnspecified :: "ip \<Rightarrow> bool" where
  "IsUnspecified p \<longleftrightarrow> To4 p = [0, 0, 0, 0] \<or> p = replicate 16 0"

definition IsPrivate :: "ip \<Rightarrow> bool" where
  "IsPrivate p =
     (case To4 p of
        a # b # _ \<Rightarrow> a = 10 \<or> (a = 172 \<and> b AND 0xF0 = 16) \<or> (a = 192 \<and> b = 168)
      | _ \<Rightarrow> length p = 16 \<and> p ! 0 AND 0xFE = 0xFC)"

definition IsLinkLocalUnicast :: "ip \<Rightarrow> bool" where
  "IsLinkLocalUnicast p =
     (case To4 p of
        a # b # _ \<Rightarrow> a = 169 \<and> b = 254
      | _ \<Rightarrow> length p = 16 \<and> p ! 0 = 0xFE \<and> p ! 1 AND 0xC0 = 0x80)"

definition IsLinkLocalMulticast :: "ip \<Rightarrow> bool" where
  "IsLinkLocalMulticast p =
     (case To4 p of
        a # b # c # _ \<Rightarrow> a = 224 \<and> b = 0 \<and> c = 0
      | _ \<Rightarrow> length p = 16 \<and> p ! 0 = 0xFF \<and> p ! 1 AND 0x0F = 0x02)"

section \<open>Text form\<close>

definition v4_string :: "ip \<Rightarrow> string" where
  "v4_string q = join (map (\<lambda>b. digits (unat b)) q) ''.''"

definition hex_digit :: "nat \<Rightarrow> char" where
  "hex_digit d = (if d < 10 then char_of (48 + d) else char_of (87 + d))"

fun hex_text :: "nat \<Rightarrow> string" where
  "hex_text n = (if n < 16 then [hex_digit n] else hex_text (n div 16) @ [hex_digit (n mod 16)])"

declare hex_text.simps [simp del]

fun groups16 :: "ip \<Rightarrow> nat list" where
  "groups16 (a # b # r) = (256 * unat a + unat b) # groups16 r"
| "groups16 _ = []"

definition zero_run :: "nat list \<Rightarrow> nat \<Rightarrow> nat" where
  \<comment> \<open>length of the run of zero groups that starts at \<open>i\<close>\<close>
  "zero_run gs i = length (takeWhile (\<lambda>g. g = 0) (drop i gs))"

definition best_run :: "nat list \<Rightarrow> (nat \<times> nat) option" where
  \<comment> \<open>the first longest run of at least two zero groups\<close>
  "best_run gs = fold (\<lambda>i best. if 2 \<le> zero_run gs i \<and>
       (case best of None \<Rightarrow> True | Some (j, l) \<Rightarrow> l < zero_run gs i)
     then Some (i, zero_run gs i) else best) [0..<length gs] None"

definition v6_string :: "ip \<Rightarrow> string" where
  "v6_string p =
     (let gs = groups16 p
      in case best_run gs of
           None \<Rightarrow> join (map hex_text gs) '':''
         | Some (i, l) \<Rightarrow> join (map hex_text (take i gs)) '':'' @ ''::'' @
                          join (map hex_text (drop (i + l) gs)) '':'')"

definition ip_string :: "ip \<Rightarrow> string" where
  \<comment> \<open>\<open>IP.String()\<close> of an address the program holds: nil, 4 or 16 bytes\<close>
  "ip_string p = (if p = [] then ''<nil>'' else if To4 p \<noteq> [] then v4_string (To4 p) else v6_string p)"

section \<open>Host and port\<close>

definition last_index :: "string \<Rightarrow> char \<Rightarrow> nat option" where
  "last_index s c = map_option (\<lambda>i. length s - 1 - i) (index_byte (rev s) c)"

definition SplitHostPort :: "string \<Rightarrow> (string \<times> string) option" where
  \<comment> \<open>\<open>None\<close> is any of its errors\<close>
  "SplitHostPort hp =
     (case last_index hp (CHR '':'') of
        None \<Rightarrow> None
      | Some i \<Rightarrow>
          if has_prefix hp ''['' then
            (case index_byte hp (CHR '']'') of
               None \<Rightarrow> None
             | Some e \<Rightarrow>
                 if e + 1 \<noteq> i then None
                 else if CHR ''['' \<in> set (drop 1 hp) \<or> CHR '']'' \<in> set (drop (e + 1) hp) then None
                 else Some (take (e - 1) (drop 1 hp), drop (i + 1) hp))
          else if CHR '':'' \<in> set (take i hp) then None
          else if CHR ''['' \<in> set hp \<or> CHR '']'' \<in> set hp then None
          else Some (take i hp, drop (i + 1) hp))"

definition JoinHostPort :: "string \<Rightarrow> string \<Rightarrow> string" where
  "JoinHostPort host port =
     (if CHR '':'' \<in> set host then ''['' @ host @ '']:'' @ port else host @ '':'' @ port)"

section \<open>Lemmas\<close>

lemma parse_v4_length: "parse_v4 s = Some q \<Longrightarrow> length q = 4"
  by (auto simp: parse_v4_def split: list.splits option.splits)

lemma v6_groups_length:
  "v6_groups n s acc ell = Some (s', bytes, ell') \<Longrightarrow> length acc + 2 * n = 16 \<Longrightarrow>
   length bytes \<le> 16"
proof (induction n s acc ell rule: v6_groups.induct)
  case (2 n s acc ell)
  then show ?case
    by (auto simp: Let_def dest!: parse_v4_length split: if_splits option.splits list.splits)
qed auto

lemma v6_expand_length: "v6_expand (s, bytes, ell) = Some p \<Longrightarrow> length bytes \<le> 16 \<Longrightarrow> length p = 16"
  by (auto simp: v6_expand_def split: if_splits option.splits)

lemma parse_v6_length:
  assumes "parse_v6 s = Some p"
  shows "length p = 16"
proof (cases "s = ''::''")
  case True
  with assms show ?thesis
    by (auto simp: parse_v6_def split: if_splits)
next
  case False
  with assms obtain s0 e0 s' bytes ell where "v6_groups 8 s0 [] e0 = Some (s', bytes, ell)"
    and "v6_expand (s', bytes, ell) = Some p"
    by (auto simp: parse_v6_def bind_eq_Some_conv split: if_splits)
  then show ?thesis
    using v6_groups_length [of 8 s0 "[]" e0 s' bytes ell] by (auto dest: v6_expand_length)
qed

lemma ParseIP_length: "ParseIP s \<noteq> [] \<Longrightarrow> length (ParseIP s) = 16"
  by (auto simp: ParseIP_def v4_prefix_def dest: parse_v4_length parse_v6_length split: option.splits if_splits)

lemma To4_length: "To4 p = [] \<or> length (To4 p) = 4"
  by (simp add: To4_def)

lemma To4_v4 [simp]: "length q = 4 \<Longrightarrow> To4 (v4_prefix @ q) = q"
  by (simp add: To4_def v4_prefix_def)

end
