(* ===== verification/Go_URL.thy ===== *)
theory Go_URL
  imports Go_Net
begin

text \<open>
  \<open>url.Parse\<close> of Go 1.26, as far as the program looks at its result: whether there is an error, the
  scheme, the host with its port, and \<open>Hostname()\<close>. Path, query and fragment are only checked for
  the escapes that make \<open>Parse\<close> fail.
\<close>

record url =
  u_Scheme :: string
  u_Host :: string

definition alpha :: "char \<Rightarrow> bool" where
  "alpha c = (let n = of_char (lower_char c) :: nat in 97 \<le> n \<and> n \<le> 122)"

definition ctl_byte :: "char \<Rightarrow> bool" where
  "ctl_byte c = (let n = of_char c :: nat in n < 32 \<or> n = 127)"

text \<open>Percent escapes: \<open>None\<close> is an \<open>EscapeError\<close> or an \<open>InvalidHostError\<close>.\<close>

fun escapes_ok :: "string \<Rightarrow> bool" where
  \<comment> \<open>\<open>unescape\<close> for paths, fragments and user information fails only on a bad escape\<close>
  "escapes_ok [] = True"
| "escapes_ok (c # r) =
     (if c = CHR ''%'' then
        (case r of
           a # b # r' \<Rightarrow> hex_val a \<noteq> None \<and> hex_val b \<noteq> None \<and> escapes_ok r'
         | _ \<Rightarrow> False)
      else escapes_ok r)"

definition host_plain :: "char \<Rightarrow> bool" where
  \<comment> \<open>not \<open>shouldEscape(c, encodeHost)\<close>\<close>
  "host_plain c = (alpha c \<or> is_digit c \<or>
     c \<in> set ''-_.~!$&()*+,;=:[]<>'' \<or> c = CHR 0x22 \<or> c = CHR 0x27)"

definition host_char :: "char \<Rightarrow> bool" where
  \<comment> \<open>what may stand unescaped: bytes of 128 and more pass\<close>
  "host_char c = (host_plain c \<or> 128 \<le> (of_char c :: nat))"

fun unescape_host :: "string \<Rightarrow> string option" where
  "unescape_host [] = Some []"
| "unescape_host (c # r) =
     (if c = CHR ''%'' then
        (case r of
           a # b # r' \<Rightarrow>
             (case (hex_val a, hex_val b) of
                (Some x, Some y) \<Rightarrow>
                  if x < 8 \<and> \<not> (x = 2 \<and> y = 5) then None
                  else map_option (\<lambda>t. char_of (16 * x + y) # t) (unescape_host r')
              | _ \<Rightarrow> None)
         | _ \<Rightarrow> None)
      else if host_char c then map_option (\<lambda>t. c # t) (unescape_host r)
      else None)"

fun unescape_zone :: "string \<Rightarrow> string option" where
  "unescape_zone [] = Some []"
| "unescape_zone (c # r) =
     (if c = CHR ''%'' then
        (case r of
           a # b # r' \<Rightarrow>
             (case (hex_val a, hex_val b) of
                (Some x, Some y) \<Rightarrow>
                  if \<not> (x = 2 \<and> y = 5) \<and> 16 * x + y \<noteq> 32 \<and> \<not> host_plain (char_of (16 * x + y))
                  then None
                  else map_option (\<lambda>t. char_of (16 * x + y) # t) (unescape_zone r')
              | _ \<Rightarrow> None)
         | _ \<Rightarrow> None)
      else if host_char c then map_option (\<lambda>t. c # t) (unescape_zone r)
      else None)"

definition getScheme :: "string \<Rightarrow> (string \<times> string) option" where
  "getScheme raw =
     (case index_where (\<lambda>c. \<not> alpha c \<and> \<not> is_digit c \<and> c \<notin> set ''+-.'') raw of
        None \<Rightarrow> Some ('''', raw)
      | Some i \<Rightarrow>
          if raw \<noteq> [] \<and> \<not> alpha (hd raw) then (if raw ! 0 = CHR '':'' then None else Some ('''', raw))
          else if raw ! i = CHR '':'' then Some (take i raw, drop (i + 1) raw)
          else Some ('''', raw))"

definition validOptionalPort :: "string \<Rightarrow> bool" where
  "validOptionalPort port \<longleftrightarrow> (case port of [] \<Rightarrow> True | c # r \<Rightarrow> c = CHR '':'' \<and> list_all is_digit r)"

definition literal_ok :: "string \<Rightarrow> bool" where
  \<comment> \<open>\<open>netip.ParseAddr\<close> accepts it and it is no IPv4 address; a zone must not be empty\<close>
  "literal_ok h =
     (case index_byte h (CHR ''%'') of
        None \<Rightarrow> parse_v6 h \<noteq> None
      | Some i \<Rightarrow> parse_v6 (take i h) \<noteq> None \<and> i + 1 < length h)"

definition parseHost :: "string \<Rightarrow> string option" where
  "parseHost host =
     (case last_index host (CHR ''['') of
        Some (Suc _) \<Rightarrow> None
      | Some 0 \<Rightarrow>
          (case last_index host (CHR '']'') of
             None \<Rightarrow> None
           | Some e \<Rightarrow>
               let colonPort = drop (e + 1) host; name = drop 1 (take e host)
               in if \<not> validOptionalPort colonPort then None
                  else (case (case index_sub name ''%25'' of
                                None \<Rightarrow> unescape_host name
                              | Some z \<Rightarrow> (case (unescape_host (take z name), unescape_zone (drop z name)) of
                                            (Some a, Some b) \<Rightarrow> Some (a @ b) | _ \<Rightarrow> None)) of
                          None \<Rightarrow> None
                        | Some h \<Rightarrow> if literal_ok h then Some (''['' @ h @ '']'' @ colonPort) else None))
      | None \<Rightarrow>
          (case index_byte host (CHR '':'') of
             Some i \<Rightarrow> if validOptionalPort (drop i host) then unescape_host host else None
           | None \<Rightarrow> unescape_host host))"

definition validUserinfo :: "string \<Rightarrow> bool" where
  "validUserinfo s \<longleftrightarrow> list_all (\<lambda>c. alpha c \<or> is_digit c \<or> c \<in> set ''-._:~!$&()*+,;=%@'' \<or> c = CHR 0x27) s"

definition parseAuthority :: "string \<Rightarrow> string option" where
  "parseAuthority authority =
     (case last_index authority (CHR ''@'') of
        None \<Rightarrow> parseHost authority
      | Some i \<Rightarrow>
          (case parseHost (drop (i + 1) authority) of
             None \<Rightarrow> None
           | Some h \<Rightarrow> if validUserinfo (take i authority) \<and> escapes_ok (take i authority) then Some h else None))"

definition cut_at :: "string \<Rightarrow> char \<Rightarrow> string" where
  "cut_at s c = (case index_byte s c of None \<Rightarrow> s | Some i \<Rightarrow> take i s)"

definition url_Parse :: "string \<Rightarrow> url option" where
  "url_Parse rawURL =
     (let u = cut_at rawURL (CHR ''#''); frag = drop (length u + 1) rawURL
      in if list_ex ctl_byte u \<or> \<not> escapes_ok frag then None
         else (case getScheme u of
                 None \<Rightarrow> None
               | Some (scheme, rest) \<Rightarrow>
                   let scheme = to_lower scheme; rest = cut_at rest (CHR ''?'')
                   in if \<not> has_prefix rest ''/'' \<and> scheme \<noteq> '''' then Some \<lparr>u_Scheme = scheme, u_Host = ''''\<rparr>
                      else if \<not> has_prefix rest ''/'' \<and> contains (cut_at rest (CHR ''/'')) '':'' then None
                      else if has_prefix rest ''//'' \<and> (scheme \<noteq> '''' \<or> \<not> has_prefix rest ''///'')
                      then (let authority = cut_at (drop 2 rest) (CHR ''/'');
                                path = drop (length authority) (drop 2 rest)
                            in case parseAuthority authority of
                                 None \<Rightarrow> None
                               | Some h \<Rightarrow> if escapes_ok path then Some \<lparr>u_Scheme = scheme, u_Host = h\<rparr> else None)
                      else if escapes_ok rest then Some \<lparr>u_Scheme = scheme, u_Host = ''''\<rparr>
                      else None))"

definition u_Hostname :: "url \<Rightarrow> string" where
  \<comment> \<open>\<open>Hostname()\<close>: the host without the port and without brackets\<close>
  "u_Hostname u =
     (let hostport = u_Host u;
          host = (case last_index hostport (CHR '':'') of
                    Some i \<Rightarrow> if validOptionalPort (drop i hostport) then take i hostport else hostport
                  | None \<Rightarrow> hostport)
      in if has_prefix host ''['' \<and> has_suffix host '']'' then butlast (drop 1 host) else host)"

end
