(* ===== verification/Go_Path.thy ===== *)
theory Go_Path
  imports Go_Net
begin

text \<open>
  path and path/filepath on Unix: \<open>Clean\<close>, \<open>Dir\<close> and \<open>Join\<close> of two elements.
\<close>

fun clean_parts :: "bool \<Rightarrow> string list \<Rightarrow> string list \<Rightarrow> string list" where
  \<comment> \<open>the elements of a path without \<open>.\<close> and empty ones, \<open>..\<close> taking back the one before; in reverse\<close>
  "clean_parts rooted [] acc = rev acc"
| "clean_parts rooted (w # ws) acc =
     (if w = '''' \<or> w = ''.'' then clean_parts rooted ws acc
      else if w = ''..'' then
        (if acc \<noteq> [] \<and> hd acc \<noteq> ''..'' then clean_parts rooted ws (drop 1 acc)
         else if rooted then clean_parts rooted ws acc
         else clean_parts rooted ws (w # acc))
      else clean_parts rooted ws (w # acc))"

definition Clean :: "string \<Rightarrow> string" where
  "Clean p =
     (if p = '''' then ''.''
      else let rooted = (hd p = CHR ''/'');
               s = join (clean_parts rooted (split_on p (CHR ''/'')) []) ''/''
           in if rooted then CHR ''/'' # s else if s = '''' then ''.'' else s)"

definition Dir :: "string \<Rightarrow> string" where
  "Dir p = Clean (case last_index p (CHR ''/'') of None \<Rightarrow> '''' | Some i \<Rightarrow> take (i + 1) p)"

definition Join :: "string \<Rightarrow> string \<Rightarrow> string" where
  "Join a b =
     (if a = '''' \<and> b = '''' then '''' else if a = '''' then Clean b else if b = '''' then Clean a
      else Clean (a @ ''/'' @ b))"

lemma Clean_examples:
  "Clean ''/api/../x//y/.'' = ''/x/y''" "Clean ''../a/..'' = ''..''" "Dir ''data/tmdns.db'' = ''data''"
  "Dir ''tmdns.db'' = ''.''" "Join ''data'' ''admin-token.txt'' = ''data/admin-token.txt''"
  by code_simp+

end
