(* ===== verification/Go_HTTP.thy ===== *)
theory Go_HTTP
  imports Go_JSON Go_URL Go_Path
begin

text \<open>
  net/http as the admin server uses it: the parts of a request the code reads, the path as the mux and the
  handlers see it, the matching of \<open>ServeMux\<close> (patterns without host, method or wildcard), and what a
  cookie keeps of its value.
\<close>

section \<open>Requests\<close>

record request =
  rq_Method :: string
  rq_EscapedPath :: string
  rq_Query :: "(string \<times> string) list"
  rq_Host :: string
  rq_RemoteAddr :: string
  rq_Header :: "string \<Rightarrow> string"
  rq_Cookies :: "(string \<times> string) list"
  rq_Body :: "json option"

text \<open>
  \<open>rq_Header\<close> is \<open>r.Header.Get\<close>, \<open>rq_Cookies\<close> the cookies of \<open>r.Cookies()\<close> in order, \<open>rq_Body\<close> the first
  JSON value of the body, \<open>None\<close> when there is none or it is malformed.
\<close>

fun path_unescape :: "string \<Rightarrow> string option" where
  "path_unescape [] = Some []"
| "path_unescape (c # r) =
     (if c = CHR ''%'' then
        (case r of
           a # b # r' \<Rightarrow>
             (case (hex_val a, hex_val b) of
                (Some x, Some y) \<Rightarrow> map_option ((#) (char_of (16 * x + y))) (path_unescape r')
              | _ \<Rightarrow> None)
         | _ \<Rightarrow> None)
      else map_option ((#) c) (path_unescape r))"

definition unescaped :: "string \<Rightarrow> string" where
  \<comment> \<open>\<open>pathUnescape\<close> of the mux; the server refuses a request whose path has a malformed escape\<close>
  "unescaped s = (case path_unescape s of Some t \<Rightarrow> t | None \<Rightarrow> s)"

definition rq_Path :: "request \<Rightarrow> string" where
  \<comment> \<open>\<open>r.URL.Path\<close>\<close>
  "rq_Path r = unescaped (rq_EscapedPath r)"

definition query_get :: "request \<Rightarrow> string \<Rightarrow> string" where
  \<comment> \<open>\<open>r.URL.Query().Get(key)\<close>\<close>
  "query_get r key = (case map_of (rq_Query r) key of Some v \<Rightarrow> v | None \<Rightarrow> '''')"

section \<open>The mux\<close>

definition cleanPath :: "string \<Rightarrow> string" where
  "cleanPath p =
     (if p = '''' then ''/''
      else let rooted = (if hd p = CHR ''/'' then p else CHR ''/'' # p); np = Clean rooted
           in if last rooted = CHR ''/'' \<and> np \<noteq> ''/'' then np @ ''/'' else np)"

definition path_segments :: "string \<Rightarrow> string list" where
  \<comment> \<open>what \<open>firstSegment\<close> yields in turn; a trailing slash leaves an empty last segment\<close>
  "path_segments p = map unescaped (split_on (drop 1 p) (CHR ''/''))"

text \<open>A route is its segments, whether the pattern ends in a slash, and the handler.\<close>

type_synonym 'h route = "string list \<times> bool \<times> 'h"

definition exact_route :: "'h route list \<Rightarrow> string list \<Rightarrow> 'h option" where
  "exact_route routes segs =
     map_option (\<lambda>r. snd (snd r)) (find (\<lambda>r. fst r = segs \<and> \<not> fst (snd r)) routes)"

definition below :: "string list \<Rightarrow> 'h route \<Rightarrow> bool" where
  "below segs r \<longleftrightarrow> fst (snd r) \<and> length (fst r) < length segs \<and> take (length (fst r)) segs = fst r"

fun longest_route :: "'h route list \<Rightarrow> 'h route option" where
  \<comment> \<open>the most specific of the patterns that match\<close>
  "longest_route [] = None"
| "longest_route (r # rs) =
     (case longest_route rs of
        None \<Rightarrow> Some r
      | Some q \<Rightarrow> if length (fst r) < length (fst q) then Some q else Some r)"

datatype 'h target = Handler 'h | Redirected | NoRoute

definition subtree_route :: "'h route list \<Rightarrow> string list \<Rightarrow> 'h option" where
  "subtree_route routes segs = map_option (\<lambda>r. snd (snd r)) (longest_route (filter (below segs) routes))"

definition mux_match :: "'h route list \<Rightarrow> string list \<Rightarrow> 'h target" where
  "mux_match routes segs =
     (case exact_route routes segs of
        Some h \<Rightarrow> Handler h
      | None \<Rightarrow> (case subtree_route routes segs of Some h \<Rightarrow> Handler h | None \<Rightarrow> NoRoute))"

definition slash_redirect :: "'h route list \<Rightarrow> string list \<Rightarrow> bool" where
  \<comment> \<open>\<open>/tree\<close> is redirected to \<open>/tree/\<close> when only the latter is registered\<close>
  "slash_redirect routes segs \<longleftrightarrow>
     exact_route routes segs = None \<and> list_ex (\<lambda>r. fst (snd r) \<and> fst r = segs) routes"

definition findHandler :: "'h route list \<Rightarrow> string \<Rightarrow> string \<Rightarrow> 'h target" where
  \<comment> \<open>of the method and the escaped path; a path that is not clean is redirected, except for CONNECT\<close>
  "findHandler routes meth p =
     (let path = (if meth = ''CONNECT'' then p else cleanPath p); segs = path_segments path
      in if slash_redirect routes segs then Redirected
         else if path \<noteq> p then Redirected
         else mux_match routes segs)"

section \<open>Cookies\<close>

definition valid_cookie_byte :: "char \<Rightarrow> bool" where
  "valid_cookie_byte c = (let n = of_char c :: nat in 32 \<le> n \<and> n < 127 \<and> c \<notin> set ''\";'' \<and> n \<noteq> 92)"

definition cookie_value :: "string \<Rightarrow> string" where
  \<comment> \<open>what \<open>SetCookie\<close> sends of a value, and a client sends back: invalid bytes are dropped\<close>
  "cookie_value v = filter valid_cookie_byte v"

lemma cookie_value_id: "list_all valid_cookie_byte v \<longleftrightarrow> cookie_value v = v"
  by (simp add: cookie_value_def list_all_iff filter_id_conv)

section \<open>Addresses\<close>

definition ip_equal :: "ip \<Rightarrow> ip \<Rightarrow> bool" where
  \<comment> \<open>\<open>IP.Equal\<close>: an IPv4 address equals its IPv6 form\<close>
  "ip_equal p q \<longleftrightarrow> p = q \<or> (To4 p \<noteq> [] \<and> To4 p = To4 q)"

lemma exact_route_Some:
  assumes "exact_route routes segs = Some h"
  shows "\<exists>t \<in> set routes. fst t = segs \<and> \<not> fst (snd t) \<and> snd (snd t) = h"
proof -
  from assms obtain t where "find (\<lambda>r. fst r = segs \<and> \<not> fst (snd r)) routes = Some t" and "snd (snd t) = h"
    by (auto simp: exact_route_def)
  then show ?thesis
    by (metis (mono_tags, lifting) find_Some_iff nth_mem)
qed

lemma longest_route_in: "longest_route rs = Some r \<Longrightarrow> r \<in> set rs"
  by (induction rs arbitrary: r) (auto split: option.splits if_splits)

lemma longest_route_max: "longest_route rs = Some r \<Longrightarrow> q \<in> set rs \<Longrightarrow> length (fst q) \<le> length (fst r)"
proof (induction rs arbitrary: r q)
  case (Cons a rs)
  show ?case
  proof (cases "longest_route rs")
    case None
    then have "rs = []"
      by (cases rs) (auto split: option.splits if_splits)
    with Cons.prems show ?thesis
      by simp
  next
    case (Some b)
    have "length (fst q) \<le> length (fst b)" if "q \<in> set rs"
      using Cons.IH [OF Some that] .
    with Cons.prems Some show ?thesis
      by (auto split: if_splits)
  qed
qed simp

section \<open>Paths and segments\<close>

lemma path_unescape_slash:
  "path_unescape (xs @ CHR ''/'' # ys) = Some q \<Longrightarrow>
   \<exists>a b. path_unescape xs = Some a \<and> path_unescape ys = Some b \<and> q = a @ CHR ''/'' # b"
proof (induction xs arbitrary: q rule: path_unescape.induct)
  case 1
  then show ?case
    by auto
next
  case (2 c r)
  have slash: "hex_val (CHR ''/'') = None"
    by code_simp
  show ?case
  proof (cases "c = CHR ''%''")
    case False
    with 2(3) obtain q' where q': "path_unescape (r @ CHR ''/'' # ys) = Some q'" "q = c # q'"
      by auto
    from 2(2) [OF False q'(1)] q'(2) False show ?thesis
      by auto
  next
    case True
    show ?thesis
    proof (cases r)
      case Nil
      with True 2(3) show ?thesis
        by (cases ys) (auto simp: slash)
    next
      case (Cons x r1)
      show ?thesis
      proof (cases r1)
        case Nil
        with True Cons 2(3) show ?thesis
          by (auto simp: slash split: option.splits)
      next
        case c2: (Cons y r2)
        with True Cons 2(3) obtain i j q' where h: "hex_val x = Some i" "hex_val y = Some j"
            "path_unescape (r2 @ CHR ''/'' # ys) = Some q'" "q = char_of (16 * i + j) # q'"
          by (auto split: option.splits)
        from 2(1) [OF True Cons c2 refl h(1) h(2) h(3)] obtain a b where
          "path_unescape r2 = Some a" "path_unescape ys = Some b" "q' = a @ CHR ''/'' # b"
          by blast
        with h True Cons c2 show ?thesis
          by auto
      qed
    qed
  qed
qed

lemma split_on_none: "c \<notin> set xs \<Longrightarrow> split_on xs c = [xs]"
  by (induction xs) (auto simp: split_on_def)

lemma split_on_first: "c \<notin> set xs \<Longrightarrow> split_on (xs @ c # ys) c = xs # split_on ys c"
  by (induction xs) (auto simp: split_on_def)

lemma unescaped_segments:
  "path_unescape p = Some q \<Longrightarrow> q = join (map unescaped (split_on p (CHR ''/''))) ''/''"
proof (induction "length p" arbitrary: p q rule: less_induct)
  case less
  show ?case
  proof (cases "CHR ''/'' \<in> set p")
    case False
    with less.prems show ?thesis
      by (simp add: split_on_none unescaped_def)
  next
    case True
    then obtain xs ys where p: "p = xs @ CHR ''/'' # ys" "CHR ''/'' \<notin> set xs"
      by (meson split_list_first)
    from path_unescape_slash [OF less.prems [unfolded p(1)]] obtain a b where
      u: "path_unescape xs = Some a" "path_unescape ys = Some b" "q = a @ CHR ''/'' # b"
      by blast
    have "b = join (map unescaped (split_on ys (CHR ''/''))) ''/''"
      by (rule less.hyps) (simp_all add: p(1) u(2))
    moreover have "map unescaped (split_on ys (CHR ''/'')) \<noteq> []"
      by (simp add: split_on_def split_by_nonempty)
    ultimately show ?thesis
      using u by (cases "map unescaped (split_on ys (CHR ''/''))") (auto simp: p split_on_first unescaped_def)
  qed
qed

lemma join_append: "xs \<noteq> [] \<Longrightarrow> ys \<noteq> [] \<Longrightarrow> join (xs @ ys) sep = join xs sep @ sep @ join ys sep"
proof (induction xs)
  case (Cons x xs)
  then show ?case
    by (cases xs; cases ys) auto
qed simp

section \<open>What a route says about the path\<close>

definition wf_request :: "request \<Rightarrow> bool" where
  \<comment> \<open>what net/http sees to: escapes are well-formed, and a path that is not empty starts with a slash\<close>
  "wf_request r \<longleftrightarrow> path_unescape (rq_EscapedPath r) \<noteq> None \<and> (rq_EscapedPath r = '''' \<or> hd (rq_EscapedPath r) = CHR ''/'')"

definition pattern_text :: "'h route \<Rightarrow> string" where
  \<comment> \<open>the pattern, without a slash at its end\<close>
  "pattern_text t = CHR ''/'' # join (fst t) ''/''"

lemma rq_Path_segments:
  assumes "wf_request r" and "rq_EscapedPath r \<noteq> ''''"
  shows "rq_Path r = CHR ''/'' # join (path_segments (rq_EscapedPath r)) ''/''"
proof -
  from assms obtain p where p: "rq_EscapedPath r = CHR ''/'' # p"
    by (cases "rq_EscapedPath r") (auto simp: wf_request_def)
  with assms obtain q where q: "path_unescape p = Some q"
    by (auto simp: wf_request_def)
  with p have "rq_Path r = CHR ''/'' # q"
    by (simp add: rq_Path_def unescaped_def)
  with unescaped_segments [OF q] show ?thesis
    by (simp add: p path_segments_def)
qed

lemma findHandler_route:
  assumes "findHandler routes (rq_Method r) (rq_EscapedPath r) = Handler h" and "wf_request r"
    and "rq_EscapedPath r \<noteq> ''''"
  shows "\<exists>t \<in> set routes. snd (snd t) = h \<and>
    (if fst (snd t) then fst t = [] \<or> has_prefix (rq_Path r) (pattern_text t @ ''/'') else rq_Path r = pattern_text t)"
proof -
  let ?segs = "path_segments (rq_EscapedPath r)"
  have path: "rq_Path r = CHR ''/'' # join ?segs ''/''"
    using assms(2,3) by (rule rq_Path_segments)
  from assms(1) have "mux_match routes ?segs = Handler h"
    by (auto simp: findHandler_def Let_def split: if_splits)
  then consider "exact_route routes ?segs = Some h" | "subtree_route routes ?segs = Some h"
    by (auto simp: mux_match_def split: option.splits)
  then show ?thesis
  proof cases
    case 1
    from exact_route_Some [OF this] obtain t where t: "t \<in> set routes" "fst t = ?segs" "\<not> fst (snd t)" "snd (snd t) = h"
      by blast
    have "rq_Path r = pattern_text t"
      unfolding pattern_text_def t(2) by (rule path)
    with t show ?thesis
      by (intro bexI [of _ t]) simp_all
  next
    case 2
    then obtain t where t: "longest_route (filter (below ?segs) routes) = Some t" "snd (snd t) = h"
      by (auto simp: subtree_route_def)
    from longest_route_in [OF t(1)] have t': "t \<in> set routes" "below ?segs t"
      by simp_all
    then have b: "fst (snd t)" "take (length (fst t)) ?segs = fst t" "drop (length (fst t)) ?segs \<noteq> []"
      by (simp_all add: below_def)
    have "has_prefix (rq_Path r) (pattern_text t @ ''/'')" if "fst t \<noteq> []"
    proof -
      have "?segs = fst t @ drop (length (fst t)) ?segs"
        using append_take_drop_id [of "length (fst t)" ?segs] b(2) by simp
      then have "join ?segs ''/'' = join (fst t) ''/'' @ ''/'' @ join (drop (length (fst t)) ?segs) ''/''"
        using join_append [OF that b(3)] by metis
      then show ?thesis
        by (simp add: path pattern_text_def has_prefix_def)
    qed
    with t' b(1) t(2) show ?thesis
      by (intro bexI [of _ t]) auto
  qed
qed

end
