(* ===== verification/Config.thy ===== *)
theory Config
  imports Go_Net
begin

text \<open>
  internal/config/config.go: the settings read from the environment, the addresses to bind, and the
  choice of a LAN address among the interfaces. The environment, the interfaces with their addresses
  and the output of \<open>networksetup\<close> are parameters.
\<close>

record Config =
  DNSAddr :: string
  HTTPAddr :: string
  DBPath :: string
  AdminToken :: string
  AdminTokenPath :: string
  Upstream :: string
  SinkholeIPv4 :: string
  SinkholeIPv6 :: string
  LogLevel :: string
  QueryTimeoutMS :: int
  EventQueueCap :: int

section \<open>The environment\<close>

definition getenv :: "(string \<Rightarrow> string) \<Rightarrow> string \<Rightarrow> string \<Rightarrow> string" where
  "getenv Getenv key fallback = (let val = trim_space (Getenv key) in if val \<noteq> '''' then val else fallback)"

definition getenvInt :: "(string \<Rightarrow> string) \<Rightarrow> string \<Rightarrow> int \<Rightarrow> int" where
  "getenvInt Getenv key fallback =
     (let val = trim_space (Getenv key)
      in if val = '''' then fallback
         else (case atoi val of None \<Rightarrow> fallback | Some parsed \<Rightarrow> if parsed \<le> 0 then fallback else parsed))"

definition ResolveHTTPBindAddr :: "string \<Rightarrow> string" where
  "ResolveHTTPBindAddr val =
     (case SplitHostPort val of
        None \<Rightarrow> val
      | Some (host, port) \<Rightarrow> if host \<noteq> ''auto'' \<and> host \<noteq> ''lan'' then val else JoinHostPort ''0.0.0.0'' port)"

definition ResolveBindAddr :: "string \<Rightarrow> string" where
  "ResolveBindAddr val =
     (case SplitHostPort val of
        None \<Rightarrow> val
      | Some (host, port) \<Rightarrow> if host \<noteq> ''auto'' \<and> host \<noteq> ''lan'' then val else JoinHostPort ''0.0.0.0'' port)"

definition Load :: "(string \<Rightarrow> string) \<Rightarrow> Config" where
  "Load Getenv =
     (let dnsAddr = getenv Getenv ''TMDNS_DNS_ADDR'' ''auto:53'';
          httpAddr = getenv Getenv ''TMDNS_HTTP_ADDR'' ''auto:8080''
      in \<lparr>DNSAddr = ResolveBindAddr dnsAddr,
          HTTPAddr = ResolveHTTPBindAddr httpAddr,
          DBPath = getenv Getenv ''TMDNS_DB_PATH'' ''tm-dns.db'',
          AdminToken = trim_space (Getenv ''TMDNS_ADMIN_TOKEN''),
          AdminTokenPath = getenv Getenv ''TMDNS_ADMIN_TOKEN_PATH'' '''',
          Upstream = getenv Getenv ''TMDNS_UPSTREAM'' ''1.1.1.1:53'',
          SinkholeIPv4 = getenv Getenv ''TMDNS_SINKHOLE_IPV4'' ''0.0.0.0'',
          SinkholeIPv6 = getenv Getenv ''TMDNS_SINKHOLE_IPV6'' ''::'',
          LogLevel = to_lower (getenv Getenv ''TMDNS_LOG_LEVEL'' ''debug''),
          QueryTimeoutMS = getenvInt Getenv ''TMDNS_QUERY_TIMEOUT_MS'' 2500,
          EventQueueCap = getenvInt Getenv ''TMDNS_EVENT_QUEUE_CAP'' 10000\<rparr>)"

section \<open>The LAN address\<close>

definition isUsableLANIPv4 :: "string \<Rightarrow> bool" where
  "isUsableLANIPv4 val =
     (case To4 (ParseIP val) of [] \<Rightarrow> False | a # _ \<Rightarrow> \<not> (a = 127 \<or> a = 169))"

definition private172 :: "string \<Rightarrow> bool" where
  "private172 ip =
     (case To4 (ParseIP ip) of a # b # _ \<Rightarrow> a = 172 \<and> 16 \<le> b \<and> b \<le> 31 | _ \<Rightarrow> False)"

definition interfaceScore :: "string \<Rightarrow> string \<Rightarrow> string \<Rightarrow> int" where
  "interfaceScore name hardwarePort ip =
     (let lowerName = to_lower name; lowerPort = to_lower hardwarePort;
          score = 10 +
            (if contains lowerPort ''wi-fi'' \<or> contains lowerPort ''wifi'' \<or> contains lowerPort ''airport'' then 20
             else if contains lowerPort ''ethernet'' \<or> contains lowerPort ''lan'' \<or> contains lowerPort ''thunderbolt'' then 90
             else if has_prefix lowerName ''en'' then 45 else 0);
          score = (if contains lowerName ''bridge'' \<or> contains lowerName ''awdl'' \<or> contains lowerName ''llw'' \<or>
                      contains lowerName ''utun'' then score - 100 else score)
      in if has_prefix ip ''192.168.'' \<or> has_prefix ip ''10.'' \<or> private172 ip then score + 10 else score)"

record interfaceCandidate =
  Name :: string
  HardwarePort :: string
  IP :: string
  Score :: int

record interface =
  if_name :: string
  if_up :: bool
  if_loopback :: bool
  if_addrs :: "ip list option"

definition ipv4FromAddr :: "ip \<Rightarrow> string" where
  "ipv4FromAddr addr = (let ip = To4 addr in if ip = [] then '''' else ip_string ip)"

definition iface_candidates :: "(string \<Rightarrow> string) \<Rightarrow> interface \<Rightarrow> interfaceCandidate list" where
  "iface_candidates hardwarePorts iface =
     (if \<not> if_up iface \<or> if_loopback iface then []
      else (case if_addrs iface of
              None \<Rightarrow> []
            | Some addrs \<Rightarrow>
                map (\<lambda>ip. \<lparr>Name = if_name iface, HardwarePort = hardwarePorts (if_name iface), IP = ip,
                        Score = interfaceScore (if_name iface) (hardwarePorts (if_name iface)) ip\<rparr>)
                  (filter (\<lambda>ip. ip \<noteq> '''' \<and> isUsableLANIPv4 ip) (map ipv4FromAddr addrs))))"

definition no_candidate :: interfaceCandidate where
  "no_candidate = \<lparr>Name = '''', HardwarePort = '''', IP = '''', Score = 0\<rparr>"

definition better :: "interfaceCandidate \<Rightarrow> interfaceCandidate \<Rightarrow> interfaceCandidate" where
  "better candidate best = (if Score best < Score candidate then candidate else best)"

definition AutoLANIPv4 :: "(string \<Rightarrow> string) \<Rightarrow> interface list option \<Rightarrow> string \<times> bool" where
  "AutoLANIPv4 hardwarePorts ifaces =
     (case ifaces of
        None \<Rightarrow> ('''', False)
      | Some ifs \<Rightarrow>
          (let best = fold better (concat (map (iface_candidates hardwarePorts) ifs)) no_candidate
           in (IP best, IP best \<noteq> '''')))"

fun hardware_ports :: "string list \<Rightarrow> string \<Rightarrow> (string \<times> string) list \<Rightarrow> (string \<times> string) list" where
  \<comment> \<open>the map \<open>ports\<close> as an association list, the last entry of a device first\<close>
  "hardware_ports [] current ports = ports"
| "hardware_ports (line # rest) current ports =
     (let line = trim_space line
      in if has_prefix line ''Hardware Port:''
         then hardware_ports rest (trim_space (trim_prefix line ''Hardware Port:'')) ports
         else if has_prefix line ''Device:''
         then (let device = trim_space (trim_prefix line ''Device:'')
               in hardware_ports rest current
                    (if current \<noteq> '''' \<and> device \<noteq> '''' then (device, current) # ports else ports))
         else hardware_ports rest current ports)"

definition parseNetworkSetupHardwarePorts :: "string \<Rightarrow> (string \<times> string) list" where
  "parseNetworkSetupHardwarePorts output = hardware_ports (split_on output (CHR 0x0A)) '''' []"

section \<open>What they yield\<close>

text \<open>
  The queue capacity and the query timeout are positive whatever the environment holds, so that the
  event channel always has room for at least one event.
\<close>

lemma Load_positive: "0 < EventQueueCap (Load Getenv) \<and> 0 < QueryTimeoutMS (Load Getenv)"
  by (simp add: Load_def getenvInt_def Let_def split: option.split)

lemma JoinHostPort_any: "JoinHostPort ''0.0.0.0'' port = ''0.0.0.0:'' @ port"
  by (simp add: JoinHostPort_def)

text \<open>
  An address whose host is \<open>auto\<close> or \<open>lan\<close> binds every interface on its port; any other address is
  used as it is written. The admin interface is resolved in the same way.
\<close>

lemma ResolveBindAddr_all_interfaces:
  "ResolveBindAddr val =
     (case SplitHostPort val of
        Some (host, port) \<Rightarrow> if host \<in> {''auto'', ''lan''} then ''0.0.0.0:'' @ port else val
      | None \<Rightarrow> val) \<and>
   ResolveHTTPBindAddr val = ResolveBindAddr val"
  by (auto simp: ResolveBindAddr_def ResolveHTTPBindAddr_def JoinHostPort_any split: option.split)

lemma fold_better:
  "fold better cs b \<in> insert b (set cs)"
  "c \<in> insert b (set cs) \<Longrightarrow> Score c \<le> Score (fold better cs b)"
proof (induction cs arbitrary: b c)
  case (Cons x xs)
  { case 1
    show ?case
      using Cons.IH(1) [of "better x b"] by (auto simp: better_def split: if_splits)
  next
    case 2
    have "Score b \<le> Score (better x b)" and "Score x \<le> Score (better x b)"
      by (simp_all add: better_def)
    moreover have "Score (better x b) \<le> Score (fold better xs (better x b))"
      by (rule Cons.IH(2)) simp
    ultimately show ?case
      using 2 Cons.IH(2) [of c "better x b"] by auto
  }
qed simp_all

lemma fold_better_none: "\<forall>c \<in> set cs. Score c \<le> 0 \<Longrightarrow> fold better cs no_candidate = no_candidate"
proof (induction cs)
  case (Cons c cs)
  then have "better c no_candidate = no_candidate"
    by (simp add: better_def no_candidate_def)
  with Cons show ?case
    by simp
qed simp

text \<open>
  The address that \<open>AutoLANIPv4\<close> returns is one of a usable candidate with the highest score, and
  that score is positive; it returns none exactly when no candidate scores above zero.
\<close>

lemma AutoLANIPv4_best:
  assumes "AutoLANIPv4 ports (Some ifs) = (ip, found)"
    and "cs = concat (map (iface_candidates ports) ifs)"
  shows "(found \<longleftrightarrow> (\<exists>c \<in> set cs. 0 < Score c)) \<and>
    (found \<longrightarrow> (\<exists>c \<in> set cs. IP c = ip \<and> isUsableLANIPv4 ip \<and> (\<forall>c' \<in> set cs. Score c' \<le> Score c)))"
proof -
  let ?best = "fold better cs no_candidate"
  have ip: "ip = IP ?best" and found: "found \<longleftrightarrow> IP ?best \<noteq> ''''"
    using assms by (auto simp: AutoLANIPv4_def Let_def)
  have cand: "IP c \<noteq> '''' \<and> isUsableLANIPv4 (IP c)" if "c \<in> set cs" for c
    using that assms(2) by (auto simp: iface_candidates_def split: if_splits option.splits)
  have max: "Score c \<le> Score ?best" if "c \<in> set cs" for c
    using fold_better(2) [of c no_candidate cs] that by simp
  have mem: "?best \<in> insert no_candidate (set cs)"
    by (rule fold_better(1))
  show ?thesis
  proof (cases "?best \<in> set cs")
    case True
    have "0 < Score ?best"
    proof (rule ccontr)
      assume "\<not> 0 < Score ?best"
      then have "Score c \<le> 0" if "c \<in> set cs" for c
        using max [OF that] by simp
      then have "?best = no_candidate"
        by (simp add: fold_better_none)
      with cand [OF True] show False
        by (simp add: no_candidate_def)
    qed
    with True cand [OF True] max show ?thesis
      unfolding ip found by blast
  next
    case False
    with mem have "?best = no_candidate"
      by simp
    with max show ?thesis
      unfolding ip found by (force simp: no_candidate_def)
  qed
qed

lemma AutoLANIPv4_best_witness:
  "AutoLANIPv4 (\<lambda>_. ''Ethernet'') (Some [\<lparr>if_name = ''en0'', if_up = True, if_loopback = False,
     if_addrs = Some [[192, 168, 1, 5]]\<rparr>]) = (''192.168.1.5'', True)"
proof -
  obtain ip found where run: "AutoLANIPv4 (\<lambda>_. ''Ethernet'') (Some [\<lparr>if_name = ''en0'', if_up = True, if_loopback = False,
     if_addrs = Some [[192, 168, 1, 5]]\<rparr>]) = (ip, found)"
    by fastforce
  have c: "concat (map (iface_candidates (\<lambda>_. ''Ethernet'')) [\<lparr>if_name = ''en0'', if_up = True, if_loopback = False,
     if_addrs = Some [[192, 168, 1, 5]]\<rparr>]) =
     [\<lparr>Name = ''en0'', HardwarePort = ''Ethernet'', IP = ''192.168.1.5'', Score = 110\<rparr>]"
    by code_simp
  from AutoLANIPv4_best [OF run c [symmetric]] run show ?thesis
    by auto
qed

end
