(* ===== verification/Names.thy ===== *)
theory Names
  imports Go_Strings
begin

text \<open>
  Domain names (\<open>NormalizeName\<close> and \<open>parentDomain\<close> of internal/store/store.go, and the loop over
  the parents of a name in \<open>MatchBlocklist\<close>). A rule target or a blocklist entry covers a name when
  it equals it or is a suffix of it at a label boundary; \<open>walk_parents\<close> is shown to find the longest
  covering entry, and the canonical form is characterised, with the exact set of inputs on which
  normalising twice differs from normalising once.
\<close>

definition NormalizeName :: "string \<Rightarrow> string" where
  "NormalizeName name =
     (let name = to_lower (trim_space name);
          name = trim_prefix name ''.''
      in if name = '''' then ''''
         else if \<not> has_suffix name ''.'' then name @ ''.''
         else name)"

definition parentDomain :: "string \<Rightarrow> string" where
  "parentDomain name =
     (let name = trim_suffix name ''.''
      in case index_byte name (CHR ''.'') of
           None \<Rightarrow> ''''
         | Some idx \<Rightarrow> drop (idx + 1) name @ ''.'')"

definition covers :: "string \<Rightarrow> string \<Rightarrow> bool" where
  \<comment> \<open>the test of \<open>MatchRule\<close>: \<open>qname == target || strings.HasSuffix(qname, "."+target)\<close>\<close>
  "covers target qname \<longleftrightarrow> qname = target \<or> has_suffix qname (''.'' @ target)"

text \<open>The loop \<open>for candidate := qname; candidate != ""; candidate = parentDomain(candidate)\<close>.\<close>

definition name_measure :: "string \<Rightarrow> nat" where
  "name_measure s = 2 * length s + (if has_suffix s ''.'' then 0 else 1)"

lemma parentDomain_cases:
  obtains (none) "parentDomain s = ''''" "CHR ''.'' \<notin> set (trim_suffix s ''.'')"
  | (some) a b where "trim_suffix s ''.'' = a @ CHR ''.'' # b" "CHR ''.'' \<notin> set a"
      "parentDomain s = b @ ''.''"
proof (cases "index_byte (trim_suffix s ''.'') (CHR ''.'')")
  case None
  then have "parentDomain s = ''''"
    by (simp add: parentDomain_def)
  moreover from None have "CHR ''.'' \<notin> set (trim_suffix s ''.'')"
    by (auto simp: index_byte_def index_where_None)
  ultimately show ?thesis
    by (rule none)
next
  case (Some i)
  let ?t = "trim_suffix s ''.''"
  from Some have i: "i < length ?t" "?t ! i = CHR ''.''" "\<forall>j < i. ?t ! j \<noteq> CHR ''.''"
    by (auto simp: index_byte_def dest: index_where_Some)
  from i(1,2) have "?t = take i ?t @ CHR ''.'' # drop (Suc i) ?t"
    by (metis id_take_nth_drop)
  moreover from i have "CHR ''.'' \<notin> set (take i ?t)"
    by (auto simp: in_set_conv_nth)
  moreover from Some have "parentDomain s = drop (Suc i) ?t @ ''.''"
    by (simp add: parentDomain_def)
  ultimately show ?thesis
    by (rule some)
qed

lemma parentDomain_measure:
  assumes "s \<noteq> ''''"
  shows "name_measure (parentDomain s) < name_measure s"
proof (cases s rule: parentDomain_cases)
  case none
  with assms show ?thesis
    by (cases s) (simp_all add: name_measure_def)
next
  case (some a b)
  then have "length (trim_suffix s ''.'') = length a + length b + 1"
    by simp
  moreover have "name_measure (parentDomain s) = 2 * length b + 2"
    by (simp add: some name_measure_def)
  moreover have "has_suffix s ''.'' \<Longrightarrow> length s = length (trim_suffix s ''.'') + 1"
    by (auto simp: trim_suffix_def has_suffix_def)
  moreover have "length (trim_suffix s ''.'') \<le> length s"
    by (rule length_trim_suffix)
  ultimately show ?thesis
    by (auto simp: name_measure_def)
qed

function walk_parents :: "(string \<rightharpoonup> 'a) \<Rightarrow> string \<Rightarrow> 'a option" where
  "walk_parents cache candidate =
     (if candidate = '''' then None
      else case cache candidate of
             Some match \<Rightarrow> Some match
           | None \<Rightarrow> walk_parents cache (parentDomain candidate))"
  by pat_completeness auto
termination
  by (relation "measure (\<lambda>(cache, candidate). name_measure candidate)")
    (simp_all add: parentDomain_measure)

declare walk_parents.simps [simp del]

section \<open>Suffix matching\<close>

lemma covers_refl [simp]: "covers d d"
  by (simp add: covers_def)

lemma has_suffix_dot_append: "has_suffix q (''.'' @ d) \<Longrightarrow> has_suffix q d"
  by (auto simp: has_suffix_iff)

lemma covers_trans: "covers a b \<Longrightarrow> covers b c \<Longrightarrow> covers a c"
  by (auto simp: covers_def has_suffix_iff)

lemma covers_length: "covers d q \<Longrightarrow> length d \<le> length q"
  by (auto simp: covers_def dest: has_suffix_length)

lemma covers_antisym: "covers a b \<Longrightarrow> covers b a \<Longrightarrow> a = b"
  using covers_length [of a b] covers_length [of b a]
  by (auto simp: covers_def dest!: has_suffix_length)

lemma covers_same_length: "covers a q \<Longrightarrow> covers b q \<Longrightarrow> length a = length b \<Longrightarrow> a = b"
  by (auto simp: covers_def has_suffix_iff)

lemma covers_append: "covers d (sub @ ''.'' @ d)"
  by (simp add: covers_def has_suffix_iff)

text \<open>The parent of a name with a final dot is its longest proper covering name.\<close>

lemma parentDomain_covers:
  assumes "has_suffix q ''.''" and "parentDomain q \<noteq> ''''"
  shows "has_suffix q (''.'' @ parentDomain q)" and "has_suffix (parentDomain q) ''.''"
proof -
  from assms(1) obtain t where q: "q = t @ ''.''"
    by (auto simp: has_suffix_iff)
  from assms(2) obtain a b where "t = a @ CHR ''.'' # b" and p: "parentDomain q = b @ ''.''"
    by (cases q rule: parentDomain_cases) (auto simp: q)
  then have "q = a @ ''.'' @ parentDomain q"
    by (simp add: q)
  then show "has_suffix q (''.'' @ parentDomain q)"
    by (auto simp: has_suffix_iff)
  show "has_suffix (parentDomain q) ''.''"
    by (simp add: p)
qed

lemma parentDomain_next:
  assumes q: "has_suffix q ''.''" and d: "d \<noteq> ''''" and cov: "has_suffix q (''.'' @ d)"
  shows "parentDomain q \<noteq> ''''" and "covers d (parentDomain q)"
proof -
  from cov obtain u where u: "q = u @ CHR ''.'' # d"
    by (auto simp: has_suffix_iff)
  with q d obtain d' where d': "d = d' @ ''.''"
    by (cases d rule: rev_cases) (auto simp: has_suffix_snoc simp flip: append_assoc append_Cons)
  then have t: "trim_suffix q ''.'' = u @ CHR ''.'' # d'"
    using trim_suffix_append [of "u @ CHR ''.'' # d'" "''.''"] by (simp add: u)
  show "parentDomain q \<noteq> ''''"
    by (cases q rule: parentDomain_cases) (auto simp: t)
  then obtain a b where "u @ CHR ''.'' # d' = a @ CHR ''.'' # b" and a: "CHR ''.'' \<notin> set a"
    and p: "parentDomain q = b @ ''.''"
    by (cases q rule: parentDomain_cases) (auto simp: t)
  then consider "u = a" and "d' = b" | v where "b = v @ CHR ''.'' # d'"
    by (auto simp: append_eq_append_conv2 Cons_eq_append_conv append_eq_Cons_conv)
  then show "covers d (parentDomain q)"
    by cases (auto simp: covers_def has_suffix_iff d' p)
qed

section \<open>The walk finds the longest covering entry\<close>

lemma walk_parents_Some:
  "has_suffix q ''.'' \<Longrightarrow> walk_parents cache q = Some x \<Longrightarrow>
   \<exists>d. d \<noteq> '''' \<and> covers d q \<and> cache d = Some x \<and>
       (\<forall>d'. covers d' q \<and> length d < length d' \<longrightarrow> cache d' = None)"
proof (induction cache q rule: walk_parents.induct)
  case (1 cache q)
  from "1.prems"(1) have ne: "q \<noteq> ''''"
    by auto
  show ?case
  proof (cases "cache q")
    case (Some y)
    with "1.prems"(2) ne have "y = x"
      by (simp add: walk_parents.simps [of cache q])
    with Some ne covers_length [of _ q] show ?thesis
      by (intro exI [of _ q]) (auto simp: not_less [symmetric])
  next
    case None
    with "1.prems"(2) ne have rest: "walk_parents cache (parentDomain q) = Some x"
      by (simp add: walk_parents.simps [of cache q])
    then have pne: "parentDomain q \<noteq> ''''"
      by (auto simp: walk_parents.simps [of cache "''''"])
    note par = parentDomain_covers [OF "1.prems"(1) pne]
    from "1.IH" [OF ne None par(2) rest] obtain d where d: "d \<noteq> ''''" "covers d (parentDomain q)"
      "cache d = Some x" "\<And>d'. covers d' (parentDomain q) \<Longrightarrow> length d < length d' \<Longrightarrow> cache d' = None"
      by blast
    from par(1) have "covers (parentDomain q) q"
      by (simp add: covers_def)
    with d(2) have "covers d q"
      by (rule covers_trans)
    moreover have "cache d' = None" if "covers d' q" "length d < length d'" for d'
    proof (cases "d' = q")
      case False
      with that have "has_suffix q (''.'' @ d')" and "d' \<noteq> ''''"
        by (auto simp: covers_def)
      with "1.prems"(1) that(2) show ?thesis
        by (blast intro: d(4) parentDomain_next)
    qed (simp add: None)
    ultimately show ?thesis
      using d(1,3) by blast
  qed
qed

lemma walk_parents_None:
  "has_suffix q ''.'' \<Longrightarrow> walk_parents cache q = None \<Longrightarrow> d \<noteq> '''' \<Longrightarrow> covers d q \<Longrightarrow> cache d = None"
proof (induction cache q rule: walk_parents.induct)
  case (1 cache q)
  from "1.prems"(1) have ne: "q \<noteq> ''''"
    by auto
  with "1.prems"(2) have qn: "cache q = None"
    by (auto simp: walk_parents.simps [of cache q] split: option.splits)
  with "1.prems"(2) ne have rest: "walk_parents cache (parentDomain q) = None"
    by (simp add: walk_parents.simps [of cache q])
  show ?case
  proof (cases "d = q")
    case False
    with "1.prems"(4) have suf: "has_suffix q (''.'' @ d)"
      by (auto simp: covers_def)
    note nxt = parentDomain_next [OF "1.prems"(1,3) suf]
    from parentDomain_covers(2) [OF "1.prems"(1) nxt(1)] show ?thesis
      by (rule "1.IH" [OF ne qn _ rest "1.prems"(3) nxt(2)])
  qed (simp add: qn)
qed

section \<open>The canonical form\<close>

lemma NormalizeName_cases:
  obtains (empty) "trim_prefix (to_lower (trim_space n)) ''.'' = []" "NormalizeName n = []"
  | (dotted) t where "trim_prefix (to_lower (trim_space n)) ''.'' = t" "t \<noteq> []"
      "has_suffix t ''.''" "NormalizeName n = t"
  | (bare) t where "trim_prefix (to_lower (trim_space n)) ''.'' = t" "t \<noteq> []"
      "\<not> has_suffix t ''.''" "NormalizeName n = t @ ''.''"
proof -
  let ?u = "trim_prefix (to_lower (trim_space n)) ''.''"
  consider "?u = []" | "?u \<noteq> []" "has_suffix ?u ''.''" | "?u \<noteq> []" "\<not> has_suffix ?u ''.''"
    by blast
  then show ?thesis
    by cases (use empty dotted bare in \<open>simp_all add: NormalizeName_def\<close>)
qed

lemma NormalizeName_final_dot: "NormalizeName n \<noteq> [] \<Longrightarrow> has_suffix (NormalizeName n) ''.''"
  by (cases n rule: NormalizeName_cases) auto

lemma to_lower_drop: "to_lower (drop k s) = drop k (to_lower s)"
  by (simp add: to_lower_def drop_map)

lemma to_lower_trim_prefix: "to_lower s = s \<Longrightarrow> to_lower (trim_prefix s p) = trim_prefix s p"
  by (simp add: trim_prefix_def to_lower_drop)

lemma to_lower_dot [simp]: "to_lower ''.'' = ''.''"
  by (simp add: to_lower_def lower_char_def)

lemma NormalizeName_lower: "to_lower (NormalizeName n) = NormalizeName n"
proof -
  have "to_lower (trim_prefix (to_lower (trim_space n)) ''.'') = trim_prefix (to_lower (trim_space n)) ''.''"
    by (rule to_lower_trim_prefix) simp
  then show ?thesis
    by (cases n rule: NormalizeName_cases) auto
qed

lemma NormalizeName_to_lower [simp]: "NormalizeName (to_lower n) = NormalizeName n"
  by (simp add: NormalizeName_def trim_space_to_lower)

lemma NormalizeName_trim [simp]: "NormalizeName (trim_space n) = NormalizeName n"
  by (simp add: NormalizeName_def)

lemma trim_space_last:
  assumes "t \<noteq> []" and "\<not> is_space (last t)"
  shows "trim_space t = dropWhile is_space t" and "dropWhile is_space t \<noteq> []"
    and "last (dropWhile is_space t) = last t"
proof -
  have t: "t = takeWhile is_space t @ dropWhile is_space t"
    by simp
  show ne: "dropWhile is_space t \<noteq> []"
  proof
    assume "dropWhile is_space t = []"
    then have "\<forall>x \<in> set t. is_space x"
      by (simp add: dropWhile_eq_Nil_conv)
    with assms show False
      by simp
  qed
  with t show last: "last (dropWhile is_space t) = last t"
    by (metis last_appendR)
  from ne have "\<not> is_space (hd (dropWhile is_space t))"
    by (rule hd_dropWhile)
  moreover from last ne assms(2) have "\<not> is_space (hd (rev (dropWhile is_space t)))"
    by (simp add: hd_rev)
  ultimately show "trim_space t = dropWhile is_space t"
    using ne by (simp add: trim_space_def dropWhile_hd)
qed

lemma has_suffix_dot_last: "s \<noteq> [] \<Longrightarrow> has_suffix s ''.'' \<longleftrightarrow> last s = CHR ''.''"
  by (cases s rule: rev_cases) (auto simp: has_suffix_snoc)

lemma trim_prefix_last_dot:
  assumes "s \<noteq> []" and "last s = CHR ''.''"
  shows "trim_prefix s ''.'' = [] \<or> has_suffix (trim_prefix s ''.'') ''.''"
  using assms
  by (cases s) (auto simp: trim_prefix_def has_prefix_Cons has_suffix_dot_last split: if_splits)

lemma NormalizeName_length:
  assumes "t \<noteq> []" and "last t = CHR ''.''"
  shows "length (NormalizeName t) \<le> length (dropWhile is_space t)"
proof -
  from assms have trim: "trim_space t = dropWhile is_space t" "dropWhile is_space t \<noteq> []"
    "last (dropWhile is_space t) = CHR ''.''"
    using trim_space_last [of t] by simp_all
  let ?u = "to_lower (dropWhile is_space t)"
  have "last ?u = CHR ''.''"
    using trim(2,3) by (simp add: to_lower_def last_map)
  with trim(2) have "trim_prefix ?u ''.'' = [] \<or> has_suffix (trim_prefix ?u ''.'') ''.''"
    by (intro trim_prefix_last_dot) simp_all
  moreover have "length (trim_prefix ?u ''.'') \<le> length (dropWhile is_space t)"
    by (simp add: trim_prefix_def)
  ultimately show ?thesis
    using trim(1) by (cases t rule: NormalizeName_cases) auto
qed

text \<open>
  A nonempty lower-case name with its final dot is a fixed point of \<open>NormalizeName\<close> unless it
  starts with a dot or a blank.
\<close>

lemma NormalizeName_fixed:
  assumes ne: "t \<noteq> []" and dot: "has_suffix t ''.''" and low: "to_lower t = t"
  shows "NormalizeName t = t \<longleftrightarrow> \<not> has_prefix t ''.'' \<and> \<not> is_space (hd t)"
proof -
  from ne obtain x xs where t: "t = x # xs"
    by (cases t) auto
  from dot ne have last: "last t = CHR ''.''"
    by (simp add: has_suffix_dot_last)
  show ?thesis
  proof (cases "is_space x")
    case True
    then have "length (dropWhile is_space t) < length t"
      by (simp add: t le_imp_less_Suc length_dropWhile_le)
    with NormalizeName_length [OF ne last] have "NormalizeName t \<noteq> t"
      by auto
    with True show ?thesis
      by (simp add: t)
  next
    case False
    with last have "trim_space t = t"
      by (intro trim_space_trimmed) (simp add: trimmed_def t)
    then have "NormalizeName t = (let u = trim_prefix t ''.'' in if u = [] then [] else
        if \<not> has_suffix u ''.'' then u @ ''.'' else u)"
      by (simp add: NormalizeName_def low)
    moreover have "length (trim_prefix t ''.'') < length t" if "x = CHR ''.''"
      using that by (simp add: t trim_prefix_def has_prefix_Cons)
    moreover have "trim_prefix t ''.'' = [] \<or> has_suffix (trim_prefix t ''.'') ''.''"
      using ne last by (rule trim_prefix_last_dot)
    ultimately show ?thesis
      using False dot by (auto simp: t trim_prefix_def has_prefix_Cons Let_def)
  qed
qed

lemma NormalizeName_twice:
  "NormalizeName (NormalizeName n) = NormalizeName n \<longleftrightarrow>
     NormalizeName n = [] \<or>
     (\<not> has_prefix (NormalizeName n) ''.'' \<and> \<not> is_space (hd (NormalizeName n)))"
proof (cases "NormalizeName n = []")
  case True
  have "NormalizeName [] = []"
    by (simp add: NormalizeName_def trim_space_def trim_prefix_def to_lower_def)
  with True show ?thesis
    by simp
next
  case False
  with NormalizeName_fixed [OF False NormalizeName_final_dot [OF False] NormalizeName_lower]
  show ?thesis
    by simp
qed

end
