(* ===== verification/Store_Base.thy ===== *)
theory Store_Base
  imports Names Go_Time
begin

text \<open>
  The SQLite schema of \<open>migrate\<close> (internal/store/store.go) as records, one list of rows per table
  in rowid order; the \<open>Store\<close> struct with its three in-memory caches; the calls to the database,
  each of which may fail; and transactions. \<open>ErrDB\<close> is any error of the driver (a closed or full
  database, an expired context): which calls fail is the list \<open>faults\<close> of the environment, so that
  every statement about an operation covers every pattern of failures. The environment also holds
  the readings of the clock, one for each \<open>time.Now()\<close>.
\<close>

section \<open>The tables\<close>

record static_row =
  sr_id :: int
  sr_name :: string
  sr_type :: string
  sr_value :: string
  sr_ttl :: int
  sr_created_at :: string

record rule_row =
  rr_id :: int
  rr_scope :: string
  rr_target :: string
  rr_action :: string
  rr_enabled :: int
  rr_expires_at :: "string option"
  rr_hit_count :: int
  rr_last_hit_at :: "string option"
  rr_note :: string
  rr_created_at :: string

record preset_row =
  pr_id :: string
  pr_name :: string
  pr_tier :: string
  pr_description :: string
  pr_home_url :: string
  pr_source_url :: string
  pr_enabled :: int
  pr_created_at :: string
  pr_updated_at :: string

record source_row =
  so_id :: int
  so_name :: string
  so_url :: string
  so_format :: string
  so_enabled :: int
  so_last_status :: string
  so_last_checked :: string
  so_created_at :: string

record entry_row =
  en_domain :: string
  en_source_type :: string
  en_source_id :: string
  en_source_name :: string
  en_updated_at :: string

record host_row =
  ho_id :: int
  ho_source_ip :: string
  ho_label :: string
  ho_hostname :: string
  ho_mac :: string
  ho_vendor :: string
  ho_group :: string
  ho_confidence :: string
  ho_last_checked :: string
  ho_first_seen :: string
  ho_last_seen :: string
  ho_query_count :: int
  ho_block_count :: int
  ho_notes :: string

record observation_row =
  ob_id :: int
  ob_host_id :: int
  ob_source :: string
  ob_value :: string
  ob_observed_at :: string

record query_event_row =
  qe_id :: int
  qe_ts :: string
  qe_host_id :: int
  qe_source_ip :: string
  qe_query_name :: string
  qe_query_type :: string
  qe_action :: string
  qe_rule_id :: "int option"
  qe_source :: string
  qe_rcode :: string
  qe_upstream :: string
  qe_latency_ms :: int
  qe_answer :: string

record block_row =
  be_id :: int
  be_query_event_id :: int
  be_host_id :: int
  be_source_ip :: string
  be_query_name :: string
  be_rule_id :: "int option"
  be_source :: string
  be_created_at :: string

record audit_row =
  au_id :: int
  au_ts :: string
  au_action :: string
  au_target :: string
  au_detail :: string

record db =
  t_static :: "static_row list"
  t_rules :: "rule_row list"
  t_presets :: "preset_row list"
  t_sources :: "source_row list"
  t_entries :: "entry_row list"
  t_hosts :: "host_row list"
  t_observations :: "observation_row list"
  t_query_events :: "query_event_row list"
  t_block_events :: "block_row list"
  t_audit :: "audit_row list"
  t_settings :: "(string \<times> string) list"

definition empty_db :: db where
  \<comment> \<open>a new file after \<open>migrate\<close>\<close>
  "empty_db = \<lparr>t_static = [], t_rules = [], t_presets = [], t_sources = [], t_entries = [],
     t_hosts = [], t_observations = [], t_query_events = [], t_block_events = [], t_audit = [],
     t_settings = []\<rparr>"

section \<open>The store\<close>

record StaticRecord =
  SR_ID :: int
  SR_Name :: string
  SR_Type :: string
  SR_Value :: string
  SR_TTL :: int
  SR_CreatedAt :: instant

record Rule =
  R_ID :: int
  R_Scope :: string
  R_Target :: string
  R_Action :: string
  R_Enabled :: bool
  R_ExpiresAt :: "instant option"
  R_HitCount :: int
  R_LastHitAt :: "instant option"
  R_Note :: string
  R_CreatedAt :: instant

record BlocklistMatch =
  BM_Domain :: string
  BM_SourceName :: string
  BM_SourceType :: string
  BM_SourceID :: string

record env =
  faults :: "bool list"
  clock :: instant
  readings :: "instant list"

record store =
  s_db :: db
  s_env :: env
  rulesCache :: "Rule list"
  rulesLoaded :: bool
  staticCache :: "StaticRecord list"
  staticLoaded :: bool
  blocklistCache :: "(string \<times> BlocklistMatch) list"
  blocklistLoaded :: bool
  secretKey :: string

text \<open>A Go map is kept as an association list, read by \<open>map_of\<close>.\<close>

definition fresh_store :: "db \<Rightarrow> env \<Rightarrow> string \<Rightarrow> store" where
  \<comment> \<open>the \<open>&Store{...}\<close> of \<open>Open\<close>: no cache is loaded\<close>
  "fresh_store d e key = \<lparr>s_db = d, s_env = e, rulesCache = [], rulesLoaded = False,
     staticCache = [], staticLoaded = False, blocklistCache = [], blocklistLoaded = False,
     secretKey = key\<rparr>"

section \<open>Clock and database calls\<close>

definition time_now :: "(store, instant) comp" where
  "time_now s =
     (case readings (s_env s) of
        [] \<Rightarrow> (Inr (clock (s_env s)), s)
      | t # ts \<Rightarrow> (Inr t, s\<lparr>s_env := (s_env s)\<lparr>clock := t, readings := ts\<rparr>\<rparr>))"

definition db_call :: "store \<Rightarrow> bool \<times> store" where
  \<comment> \<open>does this call to the driver fail?\<close>
  "db_call s =
     (case faults (s_env s) of
        [] \<Rightarrow> (False, s)
      | f # fs \<Rightarrow> (f, s\<lparr>s_env := (s_env s)\<lparr>faults := fs\<rparr>\<rparr>))"

definition exec_db :: "(db \<Rightarrow> error + ('a \<times> db)) \<Rightarrow> (store, 'a) comp" where
  "exec_db stmt s =
     (case db_call s of (failed, s') \<Rightarrow>
        if failed then (Inl ErrDB, s')
        else (case stmt (s_db s') of
                Inl e \<Rightarrow> (Inl e, s')
              | Inr (a, d) \<Rightarrow> (Inr a, s'\<lparr>s_db := d\<rparr>)))"

definition exec_stmt :: "(db \<Rightarrow> db) \<Rightarrow> (store, unit) comp" where
  "exec_stmt f = exec_db (\<lambda>d. Inr ((), f d))"

definition query_db :: "(db \<Rightarrow> 'a) \<Rightarrow> (store, 'a) comp" where
  \<comment> \<open>a query with the scan of its rows: an error of any of its steps is an error of the query\<close>
  "query_db q = exec_db (\<lambda>d. Inr (q d, d))"

definition query_row :: "(db \<Rightarrow> 'a option) \<Rightarrow> (store, 'a) comp" where
  \<comment> \<open>\<open>QueryRowContext(...).Scan(...)\<close>: \<open>sql.ErrNoRows\<close> when there is no row\<close>
  "query_row q = exec_db (\<lambda>d. case q d of None \<Rightarrow> Inl ErrNoRows | Some a \<Rightarrow> Inr (a, d))"

definition transaction :: "(store, 'a) comp \<Rightarrow> (store, 'a) comp" where
  \<comment> \<open>\<open>BeginTx\<close>, \<open>defer tx.Rollback()\<close>, the body, \<open>tx.Commit()\<close>\<close>
  "transaction body s =
     (case db_call s of (failed, s1) \<Rightarrow>
        if failed then (Inl ErrDB, s1)
        else (case body s1 of
                (Inl e, s2) \<Rightarrow> (Inl e, s2\<lparr>s_db := s_db s1\<rparr>)
              | (Inr a, s2) \<Rightarrow>
                  (case db_call s2 of (failed, s3) \<Rightarrow>
                     if failed then (Inl ErrDB, s3\<lparr>s_db := s_db s1\<rparr>) else (Inr a, s3))))"

definition audit_row_of :: "string \<Rightarrow> string \<Rightarrow> string \<Rightarrow> string \<Rightarrow> db \<Rightarrow> db" where
  "audit_row_of ts action target detail d =
     d\<lparr>t_audit := t_audit d @
        [\<lparr>au_id = next_rowid (map au_id (t_audit d)), au_ts = ts, au_action = action,
          au_target = target, au_detail = detail\<rparr>]\<rparr>"

definition Audit :: "string \<Rightarrow> string \<Rightarrow> string \<Rightarrow> (store, unit) comp" where
  "Audit action target detail =
     andThen time_now (\<lambda>now. exec_stmt (audit_row_of (fmt_time now) action target detail))"

section \<open>Lemmas\<close>

text \<open>An invariant of the tables and the caches does not look at the environment.\<close>

definition env_free :: "(store \<Rightarrow> bool) \<Rightarrow> bool" where
  "env_free I \<longleftrightarrow> (\<forall>s e. I (s\<lparr>s_env := e\<rparr>) = I s)"

lemma env_freeI: "(\<And>s e. I (s\<lparr>s_env := e\<rparr>) = I s) \<Longrightarrow> env_free I"
  by (simp add: env_free_def)

lemma env_free_conj: "env_free I \<Longrightarrow> env_free J \<Longrightarrow> env_free (\<lambda>s. I s \<and> J s)"
  by (simp add: env_free_def)

lemma db_call_state: "db_call s = (b, t) \<Longrightarrow> \<exists>e. t = s\<lparr>s_env := e\<rparr>"
  by (auto simp: db_call_def intro: exI [of _ "s_env s"] split: list.splits)

lemma time_now_state: "time_now s = (r, t) \<Longrightarrow> \<exists>e a. t = s\<lparr>s_env := e\<rparr> \<and> r = Inr a"
  by (auto simp: time_now_def intro: exI [of _ "s_env s"] split: list.splits)

text \<open>The two outcomes of a call to the database, and of a transaction.\<close>

lemma exec_db_cases:
  assumes "exec_db stmt s = (r, t)"
  obtains (okay) a d e where "stmt (s_db s) = Inr (a, d)" "r = Inr a" "t = s\<lparr>s_db := d, s_env := e\<rparr>"
  | (failed) e x where "r = Inl x" "t = s\<lparr>s_env := e\<rparr>"
proof -
  obtain b u where c: "db_call s = (b, u)"
    by fastforce
  then obtain e where u: "u = s\<lparr>s_env := e\<rparr>"
    using db_call_state by blast
  show ?thesis
  proof (cases "b \<or> (\<exists>x. stmt (s_db s) = Inl x)")
    case True
    with assms c have "t = s\<lparr>s_env := e\<rparr>" and "\<exists>x. r = Inl x"
      by (auto simp: exec_db_def u split: if_splits)
    then show ?thesis
      using failed by blast
  next
    case False
    then obtain a d where "stmt (s_db s) = Inr (a, d)"
      by (cases "stmt (s_db s)") auto
    with False assms c show ?thesis
      by (intro okay [of a d e]) (simp_all add: exec_db_def u, cases s, simp)
  qed
qed

lemma exec_stmt_cases:
  assumes "exec_stmt f s = (r, t)"
  obtains (okay) e where "r = Inr ()" "t = s\<lparr>s_db := f (s_db s), s_env := e\<rparr>"
  | (failed) e x where "r = Inl x" "t = s\<lparr>s_env := e\<rparr>"
  using assms unfolding exec_stmt_def by (cases rule: exec_db_cases) auto

lemma query_db_cases:
  assumes "query_db q s = (r, t)"
  obtains (okay) e where "r = Inr (q (s_db s))" "t = s\<lparr>s_env := e\<rparr>"
  | (failed) e x where "r = Inl x" "t = s\<lparr>s_env := e\<rparr>"
  using assms unfolding query_db_def by (cases rule: exec_db_cases) auto

lemma query_row_cases:
  assumes "query_row q s = (r, t)"
  obtains (okay) a e where "q (s_db s) = Some a" "r = Inr a" "t = s\<lparr>s_env := e\<rparr>"
  | (failed) e x where "r = Inl x" "t = s\<lparr>s_env := e\<rparr>"
  using assms unfolding query_row_def
  by (cases rule: exec_db_cases) (auto split: option.splits)

lemma keeps_time_now [keeps_intro]: "env_free I \<Longrightarrow> keeps I time_now"
proof (rule keepsI)
  fix s assume I: "env_free I" "I s"
  obtain e a where "time_now s = (Inr a, s\<lparr>s_env := e\<rparr>)"
    using time_now_state [of s "fst (time_now s)" "snd (time_now s)"] by (cases "time_now s") auto
  with I show "I (snd (time_now s))"
    by (simp add: env_free_def)
qed

lemma keeps_exec_db:
  assumes "env_free I" and "\<And>s a d. I s \<Longrightarrow> stmt (s_db s) = Inr (a, d) \<Longrightarrow> I (s\<lparr>s_db := d\<rparr>)"
  shows "keeps I (exec_db stmt)"
proof (rule keepsI)
  fix s assume "I s"
  obtain r t where "exec_db stmt s = (r, t)"
    by fastforce
  then show "I (snd (exec_db stmt s))"
  proof (cases rule: exec_db_cases)
    case (okay a d e)
    from assms(2) [OF \<open>I s\<close> okay(1)] assms(1) have "I (s\<lparr>s_db := d\<rparr>\<lparr>s_env := e\<rparr>)"
      by (simp add: env_free_def)
    with okay \<open>exec_db stmt s = (r, t)\<close> show ?thesis
      by simp
  next
    case (failed e x)
    with \<open>I s\<close> assms(1) \<open>exec_db stmt s = (r, t)\<close> show ?thesis
      by (simp add: env_free_def)
  qed
qed

lemma keeps_exec_stmt:
  "env_free I \<Longrightarrow> (\<And>s. I s \<Longrightarrow> I (s\<lparr>s_db := f (s_db s)\<rparr>)) \<Longrightarrow> keeps I (exec_stmt f)"
  unfolding exec_stmt_def by (rule keeps_exec_db) auto

lemma keeps_query_db [keeps_intro]: "env_free I \<Longrightarrow> keeps I (query_db q)"
  unfolding query_db_def by (rule keeps_exec_db) auto

lemma keeps_query_row [keeps_intro]: "env_free I \<Longrightarrow> keeps I (query_row q)"
  unfolding query_row_def by (rule keeps_exec_db) (auto split: option.splits)

text \<open>A statement followed by what makes its cache valid again.\<close>

lemma keeps_exec_then_modify:
  assumes "env_free I" and "\<And>s. I s \<Longrightarrow> I (g (s\<lparr>s_db := f (s_db s)\<rparr>))"
    and "\<And>s e. g (s\<lparr>s_env := e\<rparr>) = (g s)\<lparr>s_env := e\<rparr>"
  shows "keeps I (andThen (exec_stmt f) (\<lambda>_. modify g))"
proof (rule keepsI)
  fix s assume "I s"
  obtain r t where x: "exec_stmt f s = (r, t)"
    by fastforce
  then show "I (snd (andThen (exec_stmt f) (\<lambda>_. modify g) s))"
  proof (cases rule: exec_stmt_cases)
    case (okay e)
    have "t = s\<lparr>s_db := f (s_db s)\<rparr>\<lparr>s_env := e\<rparr>"
      using okay by simp
    then have "g t = (g (s\<lparr>s_db := f (s_db s)\<rparr>))\<lparr>s_env := e\<rparr>"
      by (simp only: assms(3))
    with assms(1,2) \<open>I s\<close> x okay(1) show ?thesis
      by (simp add: andThen_def modify_def env_free_def)
  next
    case (failed e y)
    with \<open>I s\<close> assms(1) x show ?thesis
      by (simp add: andThen_def env_free_def)
  qed
qed

lemma keeps_Audit:
  "env_free I \<Longrightarrow> (\<And>s ts. I s \<Longrightarrow> I (s\<lparr>s_db := audit_row_of ts action target detail (s_db s)\<rparr>)) \<Longrightarrow>
   keeps I (Audit action target detail)"
  unfolding Audit_def by (intro keeps_intro keeps_exec_stmt) auto


lemma time_now_cases:
  assumes "time_now s = (r, t)"
  obtains e now where "r = Inr now" "t = s\<lparr>s_env := e\<rparr>" "clock e = now"
proof (cases "readings (s_env s)")
  case Nil
  with assms have "r = Inr (clock (s_env s))" and "t = s\<lparr>s_env := s_env s\<rparr>"
    by (auto simp: time_now_def)
  then show ?thesis
    by (rule that) (rule refl)
next
  case (Cons x xs)
  with assms have "r = Inr x" and "t = s\<lparr>s_env := (s_env s)\<lparr>clock := x, readings := xs\<rparr>\<rparr>"
    by (auto simp: time_now_def)
  then show ?thesis
    by (rule that) simp
qed

text \<open>\<open>Audit\<close> changes the audit table and the environment only.\<close>

lemma env_self: "s = s\<lparr>s_env := s_env s\<rparr>" for s :: store
  by simp

lemma ex_env_self [simp]: "\<exists>e. s = s\<lparr>s_env := e\<rparr>" for s :: store
  using env_self by blast

lemma Audit_state: "Audit action target detail s = (r, t) \<Longrightarrow>
    \<exists>e rows. t = s\<lparr>s_db := (s_db s)\<lparr>t_audit := rows\<rparr>, s_env := e\<rparr>"
proof -
  assume a: "Audit action target detail s = (r, t)"
  obtain r1 t1 where tn: "time_now s = (r1, t1)"
    by fastforce
  then obtain e1 now where t1: "r1 = Inr now" "t1 = s\<lparr>s_env := e1\<rparr>"
    by (cases rule: time_now_cases)
  have "exec_stmt (audit_row_of (fmt_time now) action target detail) t1 = (r, t)"
    using a unfolding Audit_def by (simp add: andThen_def tn t1)
  then show ?thesis
  proof (cases rule: exec_stmt_cases)
    case (okay e)
    then have "t = s\<lparr>s_db := (s_db s)\<lparr>t_audit := t_audit (s_db t)\<rparr>, s_env := e\<rparr>"
      by (simp add: t1 audit_row_of_def)
    then show ?thesis
      by blast
  next
    case (failed e x)
    then have "t = s\<lparr>s_db := (s_db s)\<lparr>t_audit := t_audit (s_db s)\<rparr>, s_env := e\<rparr>"
      by (simp add: t1)
    then show ?thesis
      by blast
  qed
qed

lemma ignoring_Audit_cases:
  assumes "ignoring (Audit action target detail) s = (r, t)"
  obtains e rows where "r = Inr ()" "t = s\<lparr>s_db := (s_db s)\<lparr>t_audit := rows\<rparr>, s_env := e\<rparr>"
proof -
  from assms have r: "r = Inr ()" and "Audit action target detail s = (fst (Audit action target detail s), t)"
    by (auto simp: ignoring_def)
  from Audit_state [OF this(2)] r that show ?thesis
    by blast
qed

section \<open>Transactions\<close>

text \<open>
  A transaction that returns an error leaves every table as it was; one that returns a value has
  run its body, and nothing but the environment changes after it.
\<close>

lemma transaction_cases:
  assumes "transaction body s = (r, t)"
  obtains (okay) a e u e' where "r = Inr a" "body (s\<lparr>s_env := e\<rparr>) = (Inr a, u)" "t = u\<lparr>s_env := e'\<rparr>"
  | (failed) x e u e' r' where "r = Inl x" "body (s\<lparr>s_env := e\<rparr>) = (r', u)"
      "t = u\<lparr>s_db := s_db s, s_env := e'\<rparr>"
  | (not_begun) x e where "r = Inl x" "t = s\<lparr>s_env := e\<rparr>"
proof -
  obtain b s1 where c1: "db_call s = (b, s1)"
    by fastforce
  then obtain e where s1: "s1 = s\<lparr>s_env := e\<rparr>"
    using db_call_state by blast
  show ?thesis
  proof (cases b)
    case True
    with assms c1 s1 show ?thesis
      by (intro not_begun [of ErrDB e]) (simp_all add: transaction_def)
  next
    case False
    obtain r' u where body: "body s1 = (r', u)"
      by fastforce
    show ?thesis
    proof (cases r')
      case (Inl x)
      with assms c1 s1 False body have "r = Inl x" and t: "t = u\<lparr>s_db := s_db s\<rparr>"
        by (simp_all add: transaction_def)
      moreover have "t = u\<lparr>s_db := s_db s, s_env := s_env u\<rparr>"
        using t env_self [of t] by simp
      ultimately show ?thesis
        using failed body s1 by blast
    next
      case (Inr a)
      obtain b2 s3 where c2: "db_call u = (b2, s3)"
        by fastforce
      then obtain e' where s3: "s3 = u\<lparr>s_env := e'\<rparr>"
        using db_call_state by blast
      show ?thesis
      proof (cases b2)
        case True
        have "s3\<lparr>s_db := s_db s\<rparr> = u\<lparr>s_db := s_db s, s_env := e'\<rparr>"
          by (cases u) (simp add: s3)
        with assms c1 s1 False body Inr c2 True show ?thesis
          by (intro failed [of ErrDB e r' u e']) (simp_all add: transaction_def)
      next
        case False2: False
        with assms c1 s1 False body Inr c2 s3 show ?thesis
          by (intro okay [of a e u e']) (simp_all add: transaction_def)
      qed
    qed
  qed
qed

lemma transaction_error_db: "transaction body s = (Inl x, t) \<Longrightarrow> s_db t = s_db s"
  by (erule transaction_cases) simp_all

text \<open>
  What a transaction keeps: its body must keep the invariant, and the invariant must survive the
  rollback, which is the case when the body leaves the caches alone.
\<close>

lemma keeps_transaction:
  assumes "env_free I" and "keeps I body"
    and "\<And>s r u. I s \<Longrightarrow> body s = (r, u) \<Longrightarrow> I (u\<lparr>s_db := s_db s\<rparr>)"
  shows "keeps I (transaction body)"
proof (rule keepsI)
  fix s assume I: "I s"
  obtain r t where tr: "transaction body s = (r, t)"
    by fastforce
  then show "I (snd (transaction body s))"
  proof (cases rule: transaction_cases)
    case (okay a e u e')
    from I assms(1) have "I (s\<lparr>s_env := e\<rparr>)"
      by (simp add: env_free_def)
    with assms(2) have "I u"
      using okay(2) by (rule keepsD)
    with tr okay(3) assms(1) show ?thesis
      by (simp add: env_free_def)
  next
    case (failed x e u e' r')
    from I assms(1) have "I (s\<lparr>s_env := e\<rparr>)"
      by (simp add: env_free_def)
    from assms(3) [OF this failed(2)] have "I (u\<lparr>s_db := s_db s\<rparr>)"
      by simp
    with tr failed(3) assms(1) show ?thesis
      by (simp add: env_free_def)
  next
    case (not_begun x e)
    with I tr assms(1) show ?thesis
      by (simp add: env_free_def)
  qed
qed

text \<open>A loop of statements that returns no error has run all of them.\<close>

lemma forEach_exec_Inr:
  assumes "forEach xs (\<lambda>x. exec_stmt (f x)) s = (Inr u, t)"
  shows "\<exists>e. t = s\<lparr>s_db := fold f xs (s_db s), s_env := e\<rparr>"
  using assms
proof (induction xs arbitrary: s)
  case Nil
  then have "t = s\<lparr>s_db := s_db s, s_env := s_env s\<rparr>"
    by (simp add: ret_def)
  then show ?case
    unfolding fold_simps id_apply by blast
next
  case (Cons x xs)
  then obtain s1 where 1: "exec_stmt (f x) s = (Inr (), s1)" and 2: "forEach xs (\<lambda>x. exec_stmt (f x)) s1 = (Inr u, t)"
    by (auto elim!: andThen_InrE)
  from 1 obtain e where s1: "s1 = s\<lparr>s_db := f x (s_db s), s_env := e\<rparr>"
    by (rule exec_stmt_cases) auto
  from Cons.IH [OF 2] show ?case
    by (auto simp: s1)
qed

text \<open>An operation that touches nothing but the tables and the environment.\<close>

definition same_caches :: "store \<Rightarrow> store \<Rightarrow> bool" where
  "same_caches s t \<longleftrightarrow> t = s\<lparr>s_db := s_db t, s_env := s_env t\<rparr>"

definition db_only :: "(store, 'a) comp \<Rightarrow> bool" where
  "db_only m \<longleftrightarrow> (\<forall>s. same_caches s (snd (m s)))"

lemma same_caches_refl [simp]: "same_caches s s"
  by (simp add: same_caches_def)

lemma same_caches_update [simp]: "same_caches s (s\<lparr>s_db := d, s_env := e\<rparr>)" "same_caches s (s\<lparr>s_env := e\<rparr>)"
  by (simp_all add: same_caches_def)

lemma same_caches_put [simp]:
  "same_caches s (t\<lparr>s_db := d\<rparr>) = same_caches s t" "same_caches s (t\<lparr>s_env := e\<rparr>) = same_caches s t"
  "same_caches (s\<lparr>s_db := d\<rparr>) t = same_caches s t" "same_caches (s\<lparr>s_env := e\<rparr>) t = same_caches s t"
  by (cases s; cases t; auto simp: same_caches_def)+

lemma same_caches_trans: "same_caches s t \<Longrightarrow> same_caches t u \<Longrightarrow> same_caches s u"
  unfolding same_caches_def by (cases s, cases t, cases u) simp

lemma db_onlyI: "(\<And>s r t. m s = (r, t) \<Longrightarrow> same_caches s t) \<Longrightarrow> db_only m"
  by (metis db_only_def prod.collapse)

lemma db_onlyD: "db_only m \<Longrightarrow> m s = (r, t) \<Longrightarrow> same_caches s t"
  by (metis db_only_def snd_conv)

lemma db_only_ret [keeps_intro]: "db_only (ret a)"
  by (simp add: db_only_def ret_def)

lemma db_only_fail [keeps_intro]: "db_only (fail e)"
  by (simp add: db_only_def fail_def)

lemma db_only_exec_db [keeps_intro]: "db_only (exec_db stmt)"
  by (rule db_onlyI) (erule exec_db_cases; simp)

lemma db_only_stmts [keeps_intro]: "db_only (exec_stmt f)" "db_only (query_db q)" "db_only (query_row p)"
  by (simp_all add: exec_stmt_def query_db_def query_row_def db_only_exec_db)

lemma db_only_time_now [keeps_intro]: "db_only time_now"
  by (rule db_onlyI) (erule time_now_cases; simp)

lemma db_only_andThen [keeps_intro]:
  assumes "db_only m" and "\<And>a. db_only (k a)"
  shows "db_only (andThen m k)"
proof (rule db_onlyI)
  fix s r t assume t: "andThen m k s = (r, t)"
  obtain r1 s1 where m: "m s = (r1, s1)"
    by fastforce
  with assms(1) have "same_caches s s1"
    by (rule db_onlyD)
  then show "same_caches s t"
    using t m assms(2) by (cases r1) (auto simp: andThen_def intro: same_caches_trans dest: db_onlyD)
qed

lemma db_only_if [keeps_intro]: "db_only m \<Longrightarrow> db_only n \<Longrightarrow> db_only (if b then m else n)"
  by simp

lemma db_only_ignoring [keeps_intro]: "db_only m \<Longrightarrow> db_only (ignoring m)"
  by (simp add: db_only_def ignoring_def)

lemma db_only_forEach [keeps_intro]: "(\<And>x. db_only (f x)) \<Longrightarrow> db_only (forEach xs f)"
  by (induction xs) (auto intro: keeps_intro)

lemma db_only_Audit [keeps_intro]: "db_only (Audit a b c)"
  unfolding Audit_def by (intro keeps_intro)

text \<open>So a failed transaction over such a body changes the environment only.\<close>

lemma same_caches_rollback: "same_caches s u \<Longrightarrow> u\<lparr>s_db := s_db s\<rparr> = s\<lparr>s_env := s_env u\<rparr>"
  unfolding same_caches_def by (cases s, cases u) simp

lemma transaction_Inl:
  assumes "transaction body s = (Inl x, t)" and "db_only body"
  shows "\<exists>e. t = s\<lparr>s_env := e\<rparr>"
  using assms(1)
proof (cases rule: transaction_cases)
  case (failed y e u e' r')
  have "same_caches (s\<lparr>s_env := e\<rparr>) u"
    by (rule db_onlyD [OF assms(2) failed(2)])
  then have "u\<lparr>s_db := s_db s\<rparr> = s\<lparr>s_env := s_env u\<rparr>"
    by (auto dest: same_caches_rollback)
  then have "t = s\<lparr>s_env := s_env u\<rparr>\<lparr>s_env := e'\<rparr>"
    unfolding failed(3) by (simp only:)
  then show ?thesis
    by auto
qed auto

lemma transaction_Inr:
  assumes "transaction body s = (Inr a, t)"
  obtains e u e' where "body (s\<lparr>s_env := e\<rparr>) = (Inr a, u)" "t = u\<lparr>s_env := e'\<rparr>"
  using assms by (cases rule: transaction_cases) auto

lemma keeps_transaction_db_only:
  assumes "env_free I" and "keeps I body" and "db_only body"
  shows "keeps I (transaction body)"
proof (rule keeps_transaction [OF assms(1,2)])
  fix s r u assume "I s" and "body s = (r, u)"
  from same_caches_rollback [OF db_onlyD [OF assms(3) this(2)]] show "I (u\<lparr>s_db := s_db s\<rparr>)"
    using \<open>I s\<close> assms(1) by (simp add: env_free_def)
qed

section \<open>The reading of the clock that comes next\<close>

definition next_time :: "store \<Rightarrow> instant" where
  "next_time s = (case readings (s_env s) of [] \<Rightarrow> clock (s_env s) | t # _ \<Rightarrow> t)"

lemma time_now_next: "time_now s = (r, t) \<Longrightarrow> r = Inr (next_time s)"
  by (auto simp: time_now_def next_time_def split: list.splits)

lemma db_call_next: "db_call s = (b, t) \<Longrightarrow> next_time t = next_time s"
  by (auto simp: db_call_def next_time_def split: list.splits)

lemma next_time_db [simp]: "next_time (s\<lparr>s_db := d\<rparr>) = next_time s"
  by (simp add: next_time_def split: list.split)

lemma exec_db_next: "exec_db stmt s = (r, t) \<Longrightarrow> next_time t = next_time s"
  by (auto simp: exec_db_def dest!: db_call_next split: prod.splits if_splits sum.splits)

lemma query_row_next: "query_row q s = (r, t) \<Longrightarrow> next_time t = next_time s"
  unfolding query_row_def by (rule exec_db_next)

section \<open>With a database that answers\<close>

text \<open>\<open>works m\<close>: while no call to the driver fails, \<open>m\<close> returns a value.\<close>

definition works :: "(store, 'a) comp \<Rightarrow> bool" where
  "works m \<longleftrightarrow> (\<forall>s. faults (s_env s) = [] \<longrightarrow> (\<exists>a t. m s = (Inr a, t) \<and> faults (s_env t) = []))"

lemma worksE:
  assumes "works m" and "faults (s_env s) = []"
  obtains a t where "m s = (Inr a, t)" "faults (s_env t) = []"
  using assms by (auto simp: works_def)

definition unfailing :: "store \<Rightarrow> bool" where
  \<comment> \<open>no call is going to fail\<close>
  "unfailing s \<longleftrightarrow> faults (s_env s) = []"

lemma unfailing_time_now [keeps_intro]: "keeps unfailing time_now"
  by (auto simp: keeps_def unfailing_def time_now_def split: list.splits)

lemma unfailing_exec_db [keeps_intro]: "keeps unfailing (exec_db stmt)"
  by (auto simp: keeps_def unfailing_def exec_db_def db_call_def split: sum.splits)

lemma unfailing_stmts [keeps_intro]:
  "keeps unfailing (exec_stmt f)" "keeps unfailing (query_db q)" "keeps unfailing (query_row p)" "keeps unfailing (Audit x y z)"
  unfolding exec_stmt_def query_db_def query_row_def Audit_def by (intro keeps_intro)+

lemma works_ret [keeps_intro]: "works (ret a)"
  by (simp add: works_def ret_def)

lemma works_andThen [keeps_intro]:
  assumes "works m" and "\<And>a. works (k a)"
  shows "works (andThen m k)"
  unfolding works_def
proof (intro allI impI)
  fix s :: store
  assume "faults (s_env s) = []"
  with assms(1) obtain a s1 where 1: "m s = (Inr a, s1)" "faults (s_env s1) = []"
    by (rule worksE)
  from assms(2) 1(2) obtain b t where "k a s1 = (Inr b, t)" "faults (s_env t) = []"
    by (rule worksE)
  with 1 show "\<exists>a t. andThen m k s = (Inr a, t) \<and> faults (s_env t) = []"
    by (simp add: andThen_def)
qed

lemma works_exec_stmt [keeps_intro]: "works (exec_stmt f)"
  by (simp add: works_def exec_stmt_def exec_db_def db_call_def)

lemma works_exec_db: "(\<And>d. \<exists>a d'. stmt d = Inr (a, d')) \<Longrightarrow> works (exec_db stmt)"
proof -
  assume total: "\<And>d. \<exists>a d'. stmt d = Inr (a, d')"
  show "works (exec_db stmt)"
    unfolding works_def
  proof (intro allI impI)
    fix s :: store
    assume "faults (s_env s) = []"
    moreover from total obtain a d' where "stmt (s_db s) = Inr (a, d')"
      by blast
    ultimately show "\<exists>a t. exec_db stmt s = (Inr a, t) \<and> faults (s_env t) = []"
      by (simp add: exec_db_def db_call_def)
  qed
qed

lemma works_total_exec [keeps_intro]: "works (exec_db (\<lambda>d. Inr (f d, g d)))"
  by (rule works_exec_db) simp

lemma works_query_db [keeps_intro]: "works (query_db q)"
  unfolding query_db_def by (rule works_total_exec)

lemma works_time_now [keeps_intro]: "works time_now"
  by (simp add: works_def time_now_def split: list.split)

lemma works_if [keeps_intro]: "works m \<Longrightarrow> works n \<Longrightarrow> works (if b then m else n)"
  by simp

lemma works_ignoring [keeps_intro]: "works m \<Longrightarrow> works (ignoring m)"
  by (fastforce simp: works_def ignoring_def)

lemma works_forEach [keeps_intro]: "(\<And>x. works (f x)) \<Longrightarrow> works (forEach xs f)"
  by (induction xs) (auto intro: keeps_intro)

lemma works_Audit [keeps_intro]: "works (Audit a b c)"
  unfolding Audit_def by (intro keeps_intro)

lemma works_transaction [keeps_intro]:
  assumes "works body"
  shows "works (transaction body)"
  unfolding works_def
proof (intro allI impI)
  fix s :: store
  assume f: "faults (s_env s) = []"
  with assms obtain a t where "body s = (Inr a, t)" "faults (s_env t) = []"
    by (rule worksE)
  with f show "\<exists>a t. transaction body s = (Inr a, t) \<and> faults (s_env t) = []"
    by (simp add: transaction_def db_call_def)
qed

section \<open>A store to try the operations on\<close>

definition sample_store :: "db \<Rightarrow> store" where
  \<comment> \<open>a store just opened on the tables \<open>d\<close>, with a clock that stands still and no failing call\<close>
  "sample_store d = fresh_store d \<lparr>faults = [], clock = 0, readings = []\<rparr> ''''"

lemma sample_store_simps [simp]:
  "s_db (sample_store d) = d" "s_env (sample_store d) = \<lparr>faults = [], clock = 0, readings = []\<rparr>"
  "rulesLoaded (sample_store d) = False" "staticLoaded (sample_store d) = False"
  "blocklistLoaded (sample_store d) = False"
  by (simp_all add: sample_store_def fresh_store_def)

lemmas run_simps = Let_def andThen_def ret_def fail_def ignoring_def modify_def time_now_def db_call_def exec_db_def
  exec_stmt_def query_db_def query_row_def transaction_def Audit_def audit_row_of_def

end
