(* ===== verification/Store_Settings.thy ===== *)
theory Store_Settings
  imports Store_Base
begin

text \<open>
  The settings table and what is kept in it directly: \<open>setSetting\<close>, \<open>RetentionDays\<close>, \<open>Retention\<close>,
  \<open>SetRetention\<close>, and \<open>AuditEvents\<close>, of internal/store/store.go.
\<close>

section \<open>The settings table\<close>

definition settings_put :: "string \<times> string \<Rightarrow> (string \<times> string) list \<Rightarrow> (string \<times> string) list" where
  \<comment> \<open>\<open>INSERT INTO settings(key, value) ... ON CONFLICT(key) DO UPDATE SET value\<close>\<close>
  "settings_put kv rows = upsert (\<lambda>r. fst r = fst kv) (\<lambda>r. (fst r, snd kv)) kv rows"

definition setting :: "string \<Rightarrow> db \<Rightarrow> string option" where
  "setting key d = map_option snd (find (\<lambda>r. fst r = key) (t_settings d))"

definition setSetting :: "string \<Rightarrow> string \<Rightarrow> (store, unit) comp" where
  "setSetting key val = exec_stmt (\<lambda>d. d\<lparr>t_settings := settings_put (key, val) (t_settings d)\<rparr>)"

interpretation settings_table: keyed_upsert fst fst "\<lambda>n r. (fst r, snd n)" "\<lambda>n rows. n" settings_put
  by unfold_locales (simp_all add: settings_put_def)

lemma setting_put_same:
  "setting k (d\<lparr>t_settings := settings_put (k, v) (t_settings d)\<rparr>) = Some v"
  using settings_table.lookup_put_same [of "(k, v)" "t_settings d"]
  by (simp add: setting_def split: option.splits)

lemma setting_put_other:
  "k' \<noteq> k \<Longrightarrow> setting k' (d\<lparr>t_settings := settings_put (k, v) (t_settings d)\<rparr>) = setting k' d"
  using settings_table.lookup_put_other [of k' "(k, v)" "t_settings d"] by (simp add: setting_def)

text \<open>\<open>_ = s.db.QueryRowContext(...).Scan(&raw)\<close>: the empty string when it fails or finds no row.\<close>

definition read_setting :: "string \<Rightarrow> store \<Rightarrow> string \<times> store" where
  "read_setting key s =
     (case query_row (setting key) s of (Inr v, s') \<Rightarrow> (v, s') | (Inl _, s') \<Rightarrow> ('''', s'))"

section \<open>Retention\<close>

record RetentionSettings =
  RS_Days :: int
  RS_LastPurge :: string

definition clamp_days :: "string \<Rightarrow> int" where
  "clamp_days raw =
     (case atoi (trim_space raw) of
        None \<Rightarrow> 30
      | Some parsed \<Rightarrow> if parsed < 1 then 30 else if 3650 < parsed then 3650 else parsed)"

definition RetentionDays :: "store \<Rightarrow> int \<times> store" where
  "RetentionDays s = (case read_setting ''retention.days'' s of (raw, s') \<Rightarrow> (clamp_days raw, s'))"

definition Retention :: "(store, RetentionSettings) comp" where
  "Retention s =
     (case RetentionDays s of (days, s1) \<Rightarrow>
        case read_setting ''retention.last_purge'' s1 of (purge, s2) \<Rightarrow>
          (Inr \<lparr>RS_Days = days, RS_LastPurge = purge\<rparr>, s2))"

definition SetRetention :: "int \<Rightarrow> (store, RetentionSettings) comp" where
  "SetRetention days =
     (if days < 1 \<or> 3650 < days
      then fail (ErrMsg ''retention days must be between 1 and 3650'')
      else andThen (setSetting ''retention.days'' (itoa days)) (\<lambda>_.
           andThen (ignoring (Audit ''retention.update'' ''query_events'' (itoa days @ '' days''))) (\<lambda>_.
           Retention)))"

section \<open>The audit trail\<close>

definition clamp_limit :: "int \<Rightarrow> int \<Rightarrow> int \<Rightarrow> nat" where
  \<comment> \<open>\<open>if limit <= 0 || limit > most { limit = usual }\<close>\<close>
  "clamp_limit most usual limit = nat (if limit \<le> 0 \<or> most < limit then usual else limit)"

definition AuditEvents :: "int \<Rightarrow> (store, audit_row list) comp" where
  "AuditEvents limit =
     query_db (\<lambda>d. take (clamp_limit 1000 200 limit) (rev (sort_key au_id (t_audit d))))"

section \<open>What the operations do\<close>

lemma read_setting_cases:
  assumes "read_setting key s = (v, t)"
  obtains (found) e where "setting key (s_db s) = Some v" "t = s\<lparr>s_env := e\<rparr>"
  | (empty) e where "v = ''''" "t = s\<lparr>s_env := e\<rparr>"
proof -
  obtain r t' where q: "query_row (setting key) s = (r, t')"
    by fastforce
  then show ?thesis
  proof (cases rule: query_row_cases)
    case (okay a e)
    with q assms show ?thesis
      by (intro found [of e]) (auto simp: read_setting_def)
  next
    case (failed e x)
    with q assms show ?thesis
      by (intro empty [of e]) (auto simp: read_setting_def)
  qed
qed

lemma read_setting_working:
  "faults (s_env s) = [] \<Longrightarrow>
   read_setting key s = ((case setting key (s_db s) of None \<Rightarrow> '''' | Some v \<Rightarrow> v), s)"
  by (cases "setting key (s_db s)")
    (simp_all add: read_setting_def query_row_def exec_db_def db_call_def)

lemma trim_space_itoa: "trim_space (itoa i) = itoa i"
proof -
  have digits: "\<not> is_space c" if "c \<in> set (digits n)" for c n
    using digits_ok [of n] that by (auto simp: list_all_iff is_digit_def is_space_code Let_def)
  have "\<forall>c \<in> set (itoa i). \<not> is_space c"
    using digits by (auto simp: itoa_def is_space_def)
  then have "trimmed (itoa i)"
    by (cases "itoa i = []") (auto simp: trimmed_def)
  then show ?thesis
    by (rule trim_space_trimmed)
qed

lemma clamp_days_itoa: "1 \<le> days \<Longrightarrow> days \<le> 3650 \<Longrightarrow> clamp_days (itoa days) = days"
  by (simp add: clamp_days_def trim_space_itoa atoi_itoa int64_ok_def)

lemma clamp_days_Nil: "clamp_days '''' = 30"
  by (simp add: clamp_days_def trim_space_def)

text \<open>
  Whatever the settings table holds, and even when it cannot be read, the retention period is
  between 1 and 3650 days.
\<close>

lemma RetentionDays_bounds: "1 \<le> fst (RetentionDays s) \<and> fst (RetentionDays s) \<le> 3650"
  by (auto simp: RetentionDays_def clamp_days_def split: prod.splits option.splits)

text \<open>
  A period that \<open>SetRetention\<close> accepts is the period read back from the same database by every
  later \<open>RetentionDays\<close> whose query does not fail; a period out of range changes nothing.
\<close>

lemma SetRetention_reads_back:
  assumes "SetRetention days s = (r, t)"
  shows "case r of
      Inl e \<Rightarrow> s_db t = s_db s
    | Inr rs \<Rightarrow> 1 \<le> days \<and> days \<le> 3650 \<and> setting ''retention.days'' (s_db t) = Some (itoa days) \<and>
        (\<forall>u. s_db u = s_db t \<longrightarrow> faults (s_env u) = [] \<longrightarrow> RetentionDays u = (days, u)) \<and>
        (RS_Days rs = days \<or> RS_Days rs = 30)"
proof (cases "days < 1 \<or> 3650 < days")
  case True
  with assms have "r = Inl (ErrMsg ''retention days must be between 1 and 3650'')" "t = s"
    by (auto simp: SetRetention_def fail_def)
  then show ?thesis
    by simp
next
  case False
  obtain r1 s1 where 1: "setSetting ''retention.days'' (itoa days) s = (r1, s1)"
    by fastforce
  then show ?thesis
    unfolding setSetting_def
  proof (cases rule: exec_stmt_cases)
    case (okay e)
    obtain r2 s2 where 2: "ignoring (Audit ''retention.update'' ''query_events'' (itoa days @ '' days'')) s1 = (r2, s2)"
      by fastforce
    then obtain e2 rows where r2: "r2 = Inr ()" and s2: "s2 = s1\<lparr>s_db := (s_db s1)\<lparr>t_audit := rows\<rparr>, s_env := e2\<rparr>"
      by (rule ignoring_Audit_cases)
    have set2: "setting ''retention.days'' (s_db s2) = Some (itoa days)"
      using setting_put_same [where k = "''retention.days''" and d = "s_db s" and v = "itoa days"] by (simp add: s2 okay(2) setting_def)
    have "Retention s2 = (r, t)"
      using assms False 1 2 okay(1) r2 by (simp add: SetRetention_def andThen_def)
    then obtain raw s3 purge where 3: "read_setting ''retention.days'' s2 = (raw, s3)"
      and 4: "read_setting ''retention.last_purge'' s3 = (purge, t)"
      and r: "r = Inr \<lparr>RS_Days = clamp_days raw, RS_LastPurge = purge\<rparr>"
      by (auto simp: Retention_def RetentionDays_def split: prod.splits)
    from 3 have "s_db s3 = s_db s2" and days: "clamp_days raw = days \<or> clamp_days raw = 30"
      using set2 clamp_days_itoa [of days] False
      by (auto elim!: read_setting_cases simp: clamp_days_Nil)
    moreover from 4 have "s_db t = s_db s3"
      by (auto elim!: read_setting_cases)
    ultimately have set: "setting ''retention.days'' (s_db t) = Some (itoa days)"
      using set2 by simp
    have "RetentionDays u = (days, u)" if "s_db u = s_db t" "faults (s_env u) = []" for u
      using that set clamp_days_itoa [of days] False by (simp add: RetentionDays_def read_setting_working)
    then show ?thesis
      using False set days by (simp add: r)
  next
    case (failed e x)
    with assms 1 False show ?thesis
      by (auto simp: SetRetention_def andThen_def)
  qed
qed

section \<open>The properties at a concrete input\<close>

lemma SetRetention_reads_back_witness:
  "\<exists>rs t. SetRetention 90 (sample_store empty_db) = (Inr rs, t) \<and>
     setting ''retention.days'' (s_db t) = Some (itoa 90)"
proof -
  let ?m = "andThen (setSetting ''retention.days'' (itoa 90)) (\<lambda>_.
    ignoring (Audit ''retention.update'' ''query_events'' (itoa 90 @ '' days'')))"
  have "works ?m"
    unfolding setSetting_def by (intro keeps_intro)
  then obtain a u where "?m (sample_store empty_db) = (Inr a, u)"
    by (rule worksE [where s = "sample_store empty_db"]) simp
  then have "SetRetention 90 (sample_store empty_db) = Retention u"
    by (simp add: SetRetention_def andThen_assoc [symmetric]) (simp add: andThen_def)
  moreover obtain rs t where "Retention u = (Inr rs, t)"
    by (simp add: Retention_def case_prod_beta)
  ultimately have run: "SetRetention 90 (sample_store empty_db) = (Inr rs, t)"
    by simp
  from SetRetention_reads_back [OF run] run show ?thesis
    by simp
qed

end
