(* ===== verification/Go_Base64.thy ===== *)
theory Go_Base64
  imports Go_Strings
begin

text \<open>
  \<open>base64.StdEncoding\<close> and \<open>base64.RawURLEncoding\<close> of Go's encoding/base64, as far as the store uses
  them: encoding bytes, and decoding, which skips line ends, wants the padding and ignores the bits
  that padding leaves over.
\<close>

definition std_alphabet :: string where
  "std_alphabet = ''ABCDEFGHIJKLMNOPQRSTUVWXYZabcdefghijklmnopqrstuvwxyz0123456789+/''"

definition url_alphabet :: string where
  "url_alphabet = ''ABCDEFGHIJKLMNOPQRSTUVWXYZabcdefghijklmnopqrstuvwxyz0123456789-_''"

definition code_of :: "char \<Rightarrow> nat" where
  "code_of c = of_char c"

definition sextets :: "nat \<Rightarrow> nat \<Rightarrow> nat \<Rightarrow> nat list" where
  "sextets a b c = [a div 4, (a mod 4) * 16 + b div 16, (b mod 16) * 4 + c div 64, c mod 64]"

fun b64_encode :: "string \<Rightarrow> bool \<Rightarrow> string \<Rightarrow> string" where
  "b64_encode abc padded (a # b # c # rest) =
     map ((!) abc) (sextets (code_of a) (code_of b) (code_of c)) @ b64_encode abc padded rest"
| "b64_encode abc padded [a, b] =
     map ((!) abc) (take 3 (sextets (code_of a) (code_of b) 0)) @ (if padded then ''='' else '''')"
| "b64_encode abc padded [a] =
     map ((!) abc) (take 2 (sextets (code_of a) 0 0)) @ (if padded then ''=='' else '''')"
| "b64_encode abc padded [] = ''''"

definition EncodeToString :: "string \<Rightarrow> string" where
  "EncodeToString = b64_encode std_alphabet True"

definition RawURLEncode :: "string \<Rightarrow> string" where
  "RawURLEncode = b64_encode url_alphabet False"

definition sextet_of :: "char \<Rightarrow> nat option" where
  "sextet_of c = (let k = length (takeWhile (\<lambda>x. x \<noteq> c) std_alphabet) in if k < 64 then Some k else None)"

definition bytes_of :: "nat \<Rightarrow> nat \<Rightarrow> nat \<Rightarrow> nat \<Rightarrow> string" where
  "bytes_of i j k l = map char_of [i * 4 + j div 16, (j mod 16) * 16 + k div 4, (k mod 4) * 64 + l]"

fun b64_decode :: "string \<Rightarrow> string option" where
  "b64_decode [] = Some []"
| "b64_decode (a # b # c # d # rest) =
     (case (sextet_of a, sextet_of b) of
        (Some i, Some j) \<Rightarrow>
          (if rest = [] \<and> c = CHR ''='' \<and> d = CHR ''='' then Some (take 1 (bytes_of i j 0 0))
           else (case sextet_of c of
              None \<Rightarrow> None
            | Some k \<Rightarrow>
                (if rest = [] \<and> d = CHR ''='' then Some (take 2 (bytes_of i j k 0))
                 else (case (sextet_of d, b64_decode rest) of
                    (Some l, Some more) \<Rightarrow> Some (bytes_of i j k l @ more)
                  | _ \<Rightarrow> None))))
      | _ \<Rightarrow> None)"
| "b64_decode _ = None"

definition DecodeString :: "string \<Rightarrow> string option" where
  "DecodeString s = b64_decode (filter (\<lambda>c. c \<noteq> CHR 0x0A \<and> c \<noteq> CHR 0x0D) s)"

section \<open>Decoding what was encoded\<close>

lemma code_of_less [simp]: "code_of c < 256"
  by (simp add: code_of_def)

lemma char_of_code [simp]: "char_of (code_of c) = c"
  by (simp add: code_of_def)

lemma sextet_of_alphabet: "i < 64 \<Longrightarrow> sextet_of (std_alphabet ! i) = Some i"
proof -
  have "\<forall>i \<in> set [0..<64]. sextet_of (std_alphabet ! i) = Some i"
    by code_simp
  then show "i < 64 \<Longrightarrow> sextet_of (std_alphabet ! i) = Some i"
    by simp
qed

lemma alphabet_plain: "i < 64 \<Longrightarrow> std_alphabet ! i \<notin> {CHR ''='', CHR 0x0A, CHR 0x0D} \<and> \<not> is_space (std_alphabet ! i)"
proof -
  have "\<forall>i \<in> set [0..<64]. std_alphabet ! i \<noteq> CHR ''='' \<and> std_alphabet ! i \<noteq> CHR 0x0A \<and>
      std_alphabet ! i \<noteq> CHR 0x0D \<and> \<not> is_space (std_alphabet ! i)"
    by code_simp
  then show "i < 64 \<Longrightarrow> std_alphabet ! i \<notin> {CHR ''='', CHR 0x0A, CHR 0x0D} \<and> \<not> is_space (std_alphabet ! i)"
    by auto
qed

lemma sextets_less: "a < 256 \<Longrightarrow> b < 256 \<Longrightarrow> c < 256 \<Longrightarrow> \<forall>i \<in> set (sextets a b c). i < 64"
  unfolding sextets_def by auto

lemma sextets_bytes:
  assumes "a < 256" "b < 256" "c < 256"
  shows "bytes_of (a div 4) ((a mod 4) * 16 + b div 16) ((b mod 16) * 4 + c div 64) (c mod 64) = map char_of [a, b, c]"
proof -
  have small: "b div 16 < 16" "c div 64 < 4"
    using assms by simp_all
  then have "a div 4 * 4 + ((a mod 4) * 16 + b div 16) div 16 = a"
    by (simp add: div_mult_mod_eq)
  moreover have "((a mod 4) * 16 + b div 16) mod 16 * 16 + ((b mod 16) * 4 + c div 64) div 4 = b"
    using small by (simp add: mod_mult_self3 div_mult_mod_eq)
  moreover have "((b mod 16) * 4 + c div 64) mod 4 * 64 + c mod 64 = c"
    using small by (simp add: div_mult_mod_eq)
  ultimately show ?thesis
    by (simp add: bytes_of_def)
qed

lemma encode_chars: "\<forall>c \<in> set (EncodeToString s). c \<noteq> CHR 0x0A \<and> c \<noteq> CHR 0x0D \<and> \<not> is_space c"
proof -
  have "\<forall>c \<in> set (b64_encode std_alphabet True s). c \<noteq> CHR 0x0A \<and> c \<noteq> CHR 0x0D \<and> \<not> is_space c"
  proof (induction "std_alphabet" True s rule: b64_encode.induct)
    case (1 a b c rest)
    have "\<forall>i \<in> set (sextets (code_of a) (code_of b) (code_of c)). i < 64"
      by (intro sextets_less) auto
    with 1 show ?case
      using alphabet_plain by auto
  next
    case (2 a b)
    have "\<forall>i \<in> set (sextets (code_of a) (code_of b) 0). i < 64"
      by (intro sextets_less) auto
    then show ?case
      using alphabet_plain by (auto simp: sextets_def is_space_def)
  next
    case (3 a)
    have "\<forall>i \<in> set (sextets (code_of a) 0 0). i < 64"
      by (intro sextets_less) auto
    then show ?case
      using alphabet_plain by (auto simp: sextets_def is_space_def)
  qed simp
  then show ?thesis
    by (simp add: EncodeToString_def)
qed

lemma b64_roundtrip: "b64_decode (b64_encode std_alphabet True s) = Some s"
proof (induction "std_alphabet" True s rule: b64_encode.induct)
  case (1 a b c rest)
  let ?i = "code_of a div 4" and ?j = "(code_of a mod 4) * 16 + code_of b div 16"
    and ?k = "(code_of b mod 16) * 4 + code_of c div 64" and ?l = "code_of c mod 64"
  have "?i < 64" "?j < 64" "?k < 64" "?l < 64"
    using sextets_less [of "code_of a" "code_of b" "code_of c"] by (auto simp: sextets_def)
  with 1 show ?case
    using alphabet_plain [of ?k] alphabet_plain [of ?l] sextets_bytes [of "code_of a" "code_of b" "code_of c"]
    by (simp add: sextets_def sextet_of_alphabet)
next
  case (2 a b)
  let ?i = "code_of a div 4" and ?j = "(code_of a mod 4) * 16 + code_of b div 16" and ?k = "(code_of b mod 16) * 4"
  have "?i < 64" "?j < 64" "?k < 64"
    using sextets_less [of "code_of a" "code_of b" 0] by (auto simp: sextets_def)
  then show ?case
    using alphabet_plain [of ?k] sextets_bytes [of "code_of a" "code_of b" 0]
    by (simp add: sextets_def sextet_of_alphabet)
next
  case (3 a)
  let ?i = "code_of a div 4" and ?j = "(code_of a mod 4) * 16"
  have "?i < 64" "?j < 64"
    using sextets_less [of "code_of a" 0 0] by (auto simp: sextets_def)
  then show ?case
    using sextets_bytes [of "code_of a" 0 0] by (simp add: sextets_def sextet_of_alphabet)
qed simp

lemma DecodeString_encode: "DecodeString (EncodeToString s) = Some s"
proof -
  have "filter (\<lambda>c. c \<noteq> CHR 0x0A \<and> c \<noteq> CHR 0x0D) (EncodeToString s) = EncodeToString s"
    using encode_chars by (auto simp: filter_id_conv)
  then show ?thesis
    by (simp add: DecodeString_def EncodeToString_def b64_roundtrip)
qed

end
