(* ===== verification/Store_Secrets.thy ===== *)
theory Store_Secrets
  imports Store_Base Go_Base64
begin

text \<open>
  Secrets at rest: \<open>loadSecretKey\<close>, \<open>encryptSecret\<close> and \<open>decryptSecret\<close> of internal/store/store.go.
  AES-GCM of the Go library is the parameter \<open>cipher\<close>: \<open>Seal key nonce plain\<close> is the ciphertext with its
  tag, \<open>Unseal key nonce sealed\<close> the plaintext or \<open>None\<close> when the tag does not match. The random bytes
  that \<open>rand.Read\<close> yields are an argument of each operation that draws them.
\<close>

record cipher =
  Seal :: "string \<Rightarrow> string \<Rightarrow> string \<Rightarrow> string"
  Unseal :: "string \<Rightarrow> string \<Rightarrow> string \<Rightarrow> string option"

definition cipher_ok :: "cipher \<Rightarrow> bool" where
  \<comment> \<open>what crypto/cipher documents: \<open>Open\<close> undoes \<open>Seal\<close> under the same key and nonce\<close>
  "cipher_ok c \<longleftrightarrow> (\<forall>key nonce plain. Unseal c key nonce (Seal c key nonce plain) = Some plain)"

definition nonce_size :: nat where
  "nonce_size = 12"

definition aes_key :: "string \<Rightarrow> bool" where
  \<comment> \<open>\<open>aes.NewCipher\<close> takes keys of 16, 24 or 32 bytes\<close>
  "aes_key key \<longleftrightarrow> length key = 16 \<or> length key = 24 \<or> length key = 32"

definition encryptSecret :: "cipher \<Rightarrow> string \<Rightarrow> string \<Rightarrow> string \<Rightarrow> error + string" where
  "encryptSecret c key nonce val =
     (let val = trim_space val
      in if val = '''' then Inr ''''
         else if \<not> aes_key key then Inl (ErrMsg ''crypto/aes: invalid key size'')
         else Inr (''enc:v1:'' @ EncodeToString (nonce @ Seal c key nonce val)))"

definition decryptSecret :: "cipher \<Rightarrow> string \<Rightarrow> string \<Rightarrow> string" where
  "decryptSecret c key val =
     (let val = trim_space val
      in if val = '''' then ''''
         else if \<not> has_prefix val ''enc:v1:'' then val
         else (case DecodeString (trim_prefix val ''enc:v1:'') of
             None \<Rightarrow> ''''
           | Some sealed \<Rightarrow>
               if \<not> aes_key key \<or> length sealed < nonce_size then ''''
               else (case Unseal c key (take nonce_size sealed) (drop nonce_size sealed) of
                   None \<Rightarrow> '''' | Some plain \<Rightarrow> plain)))"

text \<open>
  The key file: its content, or \<open>None\<close> when it cannot be read. \<open>loadSecretKey\<close> returns the key and what
  it has written, if anything; \<open>mkdir\<close> and \<open>writes\<close> say whether the directory can be made and the file
  written.
\<close>

definition loadSecretKey :: "bool \<Rightarrow> string option \<Rightarrow> string \<Rightarrow> bool \<Rightarrow> error + string \<times> string option" where
  "loadSecretKey mkdir content random writes =
     (if \<not> mkdir then Inl ErrDB
      else (case content of
          Some text \<Rightarrow>
            (case DecodeString (trim_space text) of
               Some decoded \<Rightarrow> if length decoded = 32 then Inr (decoded, None)
                                else Inl (ErrMsg ''invalid TM-DNS secret key file'')
             | None \<Rightarrow> Inl (ErrMsg ''invalid TM-DNS secret key file''))
        | None \<Rightarrow>
            if writes then Inr (random, Some (EncodeToString random @ [CHR 0x0A])) else Inl ErrDB))"

section \<open>Reading back\<close>

lemma trimmed_no_space: "\<forall>c \<in> set s. \<not> is_space c \<Longrightarrow> trim_space s = s"
  by (metis hd_in_set last_in_set trim_space_trimmed trimmed_def)

lemma trim_space_line: "\<forall>c \<in> set s. \<not> is_space c \<Longrightarrow> trim_space (s @ [CHR 0x0A]) = s"
proof -
  assume s: "\<forall>c \<in> set s. \<not> is_space c"
  have "trim_space (s @ [CHR 0x0A]) = trim_space s"
  proof (cases "s = []")
    case True
    then show ?thesis
      by (simp add: trim_space_def is_space_def)
  next
    case False
    with s have "dropWhile is_space (s @ [CHR 0x0A]) = s @ [CHR 0x0A]" "dropWhile is_space s = s"
      by (cases s; simp)+
    then show ?thesis
      by (simp add: trim_space_def is_space_def)
  qed
  with s show ?thesis
    by (simp add: trimmed_no_space)
qed

lemma encode_no_space: "\<forall>c \<in> set (EncodeToString s). \<not> is_space c"
  using encode_chars by blast

lemma has_prefix_app [simp]: "has_prefix (p @ s) p" "trim_prefix (p @ s) p = s"
  by (simp_all add: has_prefix_def trim_prefix_def)

lemma decrypt_encrypted:
  assumes "cipher_ok c" and "length nonce = nonce_size" and "encryptSecret c key nonce val = Inr enc"
  shows "decryptSecret c key enc = trim_space val"
proof (cases "trim_space val = ''''")
  case True
  with assms(3) show ?thesis
    by (simp add: encryptSecret_def decryptSecret_def trim_space_def)
next
  case False
  with assms(3) have key: "aes_key key" and enc: "enc = ''enc:v1:'' @ EncodeToString (nonce @ Seal c key nonce (trim_space val))"
    by (auto simp: encryptSecret_def Let_def split: if_splits)
  have "\<forall>c \<in> set enc. \<not> is_space c"
    unfolding enc set_append using encode_no_space by (auto simp: is_space_def)
  then have "trim_space enc = enc"
    by (rule trimmed_no_space)
  moreover have "enc \<noteq> ''''"
    by (simp add: enc)
  moreover have "has_prefix enc ''enc:v1:''" "trim_prefix enc ''enc:v1:'' = EncodeToString (nonce @ Seal c key nonce (trim_space val))"
    unfolding enc by (rule has_prefix_app)+
  ultimately show ?thesis
    using assms(1,2) key by (simp add: decryptSecret_def Let_def DecodeString_encode cipher_ok_def)
qed

text \<open>
  C35. A secret comes back: what \<open>encryptSecret\<close> stores, \<open>decryptSecret\<close> turns back into the trimmed
  secret under the same key, and the key that \<open>loadSecretKey\<close> writes on the first start is the key it
  reads on every later one.
\<close>

theorem secrets_survive_restart:
  assumes "cipher_ok c" and "length nonce = nonce_size" and "length random = 32"
    and "loadSecretKey True None random True = Inr (key, Some keyfile)"
    and "encryptSecret c key nonce val = Inr enc"
  shows "\<exists>key'. loadSecretKey True (Some keyfile) random' writes' = Inr (key', None) \<and>
    decryptSecret c key' enc = trim_space val"
proof -
  from assms(4) have "key = random" and keyfile: "keyfile = EncodeToString random @ [CHR 0x0A]"
    by (auto simp: loadSecretKey_def)
  have "trim_space keyfile = EncodeToString random"
    unfolding keyfile by (rule trim_space_line) (rule encode_no_space)
  then have "loadSecretKey True (Some keyfile) random' writes' = Inr (key, None)"
    using assms(3) by (simp add: loadSecretKey_def DecodeString_encode \<open>key = random\<close>)
  with decrypt_encrypted [OF assms(1,2,5)] show ?thesis
    by blast
qed

text \<open>A cipher to try the operations on: a tag of one byte that is the length of the key.\<close>

definition toy_cipher :: cipher where
  "toy_cipher = \<lparr>Seal = (\<lambda>key nonce plain. char_of (length key) # plain),
     Unseal = (\<lambda>key nonce sealed. case sealed of t # plain \<Rightarrow> if t = char_of (length key) then Some plain else None | [] \<Rightarrow> None)\<rparr>"

lemma toy_cipher_ok: "cipher_ok toy_cipher"
  by (simp add: cipher_ok_def toy_cipher_def)

lemma secrets_survive_restart_witness:
  "\<exists>keyfile enc key'. loadSecretKey True None (replicate 32 CHR ''k'') True = Inr (replicate 32 CHR ''k'', Some keyfile) \<and>
     encryptSecret toy_cipher (replicate 32 CHR ''k'') (replicate 12 CHR ''n'') '' token '' = Inr enc \<and>
     loadSecretKey True (Some keyfile) '''' False = Inr (key', None) \<and> decryptSecret toy_cipher key' enc = ''token''"
proof -
  have t: "trim_space '' token '' = ''token''"
    by code_simp
  have 1: "loadSecretKey True None (replicate 32 CHR ''k'') True =
      Inr (replicate 32 CHR ''k'', Some (EncodeToString (replicate 32 CHR ''k'') @ [CHR 0x0A]))"
    by (simp add: loadSecretKey_def)
  obtain enc where 2: "encryptSecret toy_cipher (replicate 32 CHR ''k'') (replicate 12 CHR ''n'') '' token '' = Inr enc"
    by (simp add: encryptSecret_def t aes_key_def)
  have n: "length (replicate 12 CHR ''n'') = nonce_size" and r: "length (replicate 32 CHR ''k'') = 32"
    by (simp_all add: nonce_size_def)
  from secrets_survive_restart [OF toy_cipher_ok n r 1 2] 1 2 t show ?thesis
    by metis
qed

end
