(* ===== verification/Identity.thy ===== *)
theory Identity
  imports Names Go_Net
begin

text \<open>
  What internal/store/store.go reads out of host names, MAC addresses and the output of \<open>arp\<close> and
  \<open>dns-sd\<close>: \<open>cleanHostname\<close>, \<open>normalizeMAC\<close>, \<open>vendorFromMAC\<close>, \<open>parseARPOutput\<close> with the pattern
  \<open>arpMACRE\<close>, \<open>reversePTRName\<close>, \<open>parseDNSSDPTR\<close> and \<open>firstString\<close>.
\<close>

definition cleanHostname :: "string \<Rightarrow> string" where
  "cleanHostname value =
     (let value = trim_suffix (trim_space value) ''.''
      in if value = '''' \<or> value = ''?'' \<or> equal_fold value ''unknown'' then '''' else to_lower value)"

definition pad_octet :: "string \<Rightarrow> string" where
  "pad_octet part = (if length part = 1 then CHR ''0'' # part else part)"

definition normalizeMAC :: "string \<Rightarrow> string" where
  "normalizeMAC value =
     (let value = trim_space (to_lower value)
      in if value = '''' then ''''
         else (let parts = split_on value (CHR '':'')
               in if length parts \<noteq> 6 then ''''
                  else if list_ex (\<lambda>part. length (pad_octet part) \<noteq> 2) parts then ''''
                  else join (map pad_octet parts) '':''))"

definition vendorFromMAC :: "string \<Rightarrow> string" where
  "vendorFromMAC mac =
     (let prefix = to_upper (remove_byte (normalizeMAC mac) (CHR '':''))
      in if length prefix < 6 then ''''
         else (let p = take 6 prefix
               in if p = ''00163E'' then ''Xensource''
                  else if p = ''001C42'' then ''Parallels''
                  else if p = ''005056'' then ''VMware''
                  else if p = ''00E04C'' then ''Realtek''
                  else if p \<in> {''D011E5'', ''3C22FB'', ''F0D1A9'', ''A8A159'', ''ACDE48''} then ''Apple''
                  else if p \<in> {''60F81D'', ''68D79A'', ''70A741'', ''7483C2'', ''B4FBE4'', ''D021F9'', ''E063DA''}
                  then ''Ubiquiti''
                  else ''''))"

section \<open>The output of arp and dns-sd\<close>

text \<open>
  \<open>(?i)\b([0-9a-f]{1,2}(?::[0-9a-f]{1,2}){5})\b\<close>: each field is the run of hexadecimal digits up to
  the next colon, so that the match at a position is unique; the first position that matches wins.
\<close>

definition word_char :: "char \<Rightarrow> bool" where
  "word_char c = (let n = of_char c :: nat in
     48 \<le> n \<and> n \<le> 57 \<or> 65 \<le> n \<and> n \<le> 90 \<or> 97 \<le> n \<and> n \<le> 122 \<or> n = 95)"

fun mac_at :: "nat \<Rightarrow> string \<Rightarrow> string option" where
  \<comment> \<open>\<open>n\<close> more fields follow the one at the head\<close>
  "mac_at n s =
     (let h = hex_prefix s; rest = drop (length h) s
      in if h = [] \<or> 2 < length h then None
         else (case n of
                 0 \<Rightarrow> if rest \<noteq> [] \<and> word_char (hd rest) then None else Some h
               | Suc m \<Rightarrow>
                   if has_prefix rest '':''
                   then map_option (\<lambda>t. h @ '':'' @ t) (mac_at m (drop 1 rest))
                   else None))"

declare mac_at.simps [simp del]

fun find_mac :: "bool \<Rightarrow> string \<Rightarrow> string option" where
  \<comment> \<open>\<open>w\<close>: the byte before is a word character, so that no word starts here\<close>
  "find_mac w [] = None"
| "find_mac w (c # s) =
     (case (if w then None else mac_at 5 (c # s)) of
        Some m \<Rightarrow> Some m
      | None \<Rightarrow> find_mac (word_char c) s)"

definition arpMACRE :: "string \<Rightarrow> string option" where
  "arpMACRE line = find_mac False line"

fun arp_lines :: "string list \<Rightarrow> string \<Rightarrow> string \<Rightarrow> string \<times> string" where
  "arp_lines [] sourceIP hostname = (hostname, '''')"
| "arp_lines (line # rest) sourceIP hostname =
     (if sourceIP \<noteq> '''' \<and> \<not> contains line sourceIP then arp_lines rest sourceIP hostname
      else (let mac = (case arpMACRE line of None \<Rightarrow> '''' | Some m \<Rightarrow> normalizeMAC m);
                fs = fields line;
                hostname = (if fs \<noteq> [] \<and> hd fs \<noteq> ''?'' \<and> hd fs \<noteq> sourceIP then cleanHostname (hd fs) else hostname)
            in if mac \<noteq> '''' then (hostname, mac) else arp_lines rest sourceIP hostname))"

definition parseARPOutput :: "string \<Rightarrow> string \<Rightarrow> string \<times> string" where
  "parseARPOutput output sourceIP = arp_lines (split_on output (CHR 0x0A)) sourceIP ''''"

definition reversePTRName :: "string \<Rightarrow> string" where
  "reversePTRName sourceIP =
     (let ip = ParseIP sourceIP
      in if ip = [] then ''''
         else (case To4 ip of
                 [a, b, c, d] \<Rightarrow> digits (unat d) @ ''.'' @ digits (unat c) @ ''.'' @ digits (unat b) @ ''.'' @
                   digits (unat a) @ ''.in-addr.arpa.''
               | _ \<Rightarrow> ''''))"

fun dnssd_lines :: "string list \<Rightarrow> string" where
  "dnssd_lines [] = ''''"
| "dnssd_lines (line # rest) =
     (case find (\<lambda>f. has_suffix (to_lower f) ''.local.'') (rev (fields line)) of
        Some f \<Rightarrow> cleanHostname f
      | None \<Rightarrow> dnssd_lines rest)"

definition parseDNSSDPTR :: "string \<Rightarrow> string" where
  "parseDNSSDPTR output = dnssd_lines (split_on output (CHR 0x0A))"

text \<open>
  A decoded JSON value, as far as \<open>firstString\<close> tells them apart; a number comes with the text that
  \<open>%.0f\<close> gives it.
\<close>

datatype json_value = JNull | JString string | JNumber string | JOther

fun firstString :: "(string \<rightharpoonup> json_value) \<Rightarrow> string list \<Rightarrow> string" where
  "firstString raw [] = ''''"
| "firstString raw (key # keys) =
     (case raw key of
        None \<Rightarrow> firstString raw keys
      | Some JNull \<Rightarrow> firstString raw keys
      | Some (JString typed) \<Rightarrow> if trim_space typed \<noteq> '''' then trim_space typed else firstString raw keys
      | Some (JNumber text) \<Rightarrow> text
      | Some JOther \<Rightarrow> firstString raw keys)"

section \<open>Normal forms\<close>

lemma split_by_append:
  "\<forall>x \<in> set w. \<not> p x \<Longrightarrow> p c \<Longrightarrow> split_by p (w @ c # s) = w # split_by p s"
  by (induction w) auto

lemma split_by_word: "\<forall>x \<in> set w. \<not> p x \<Longrightarrow> split_by p w = [w]"
  by (induction w) auto

lemma split_on_join:
  assumes "ws \<noteq> []" and "\<forall>w \<in> set ws. c \<notin> set w"
  shows "split_on (join ws [c]) c = ws"
  using assms
proof (induction ws "[c]" rule: join.induct)
  case (2 w)
  then have "\<forall>x \<in> set w. \<not> x = c"
    by auto
  then show ?case
    by (simp only: split_on_def join.simps split_by_word [of w "\<lambda>x. x = c"])
next
  case (3 w v vs)
  have "join (w # v # vs) [c] = w @ c # join (v # vs) [c]"
    by simp
  moreover have "\<forall>x \<in> set w. \<not> x = c"
    using 3(3) by auto
  ultimately show ?case
    using 3 by (simp only: split_on_def) (simp add: split_by_append)
qed simp

lemma split_by_parts: "\<forall>w \<in> set (split_by p s). \<forall>x \<in> set w. \<not> p x \<and> x \<in> set s"
proof (induction s)
  case (Cons a s)
  then show ?case
    by (cases "split_by p s") auto
qed simp

lemma split_on_parts: "w \<in> set (split_on s c) \<Longrightarrow> x \<in> set w \<Longrightarrow> x \<noteq> c \<and> x \<in> set s"
  using split_by_parts [of "\<lambda>x. x = c" s] by (simp add: split_on_def)

lemma join_Cons: "join (w # ws) sep = (if ws = [] then w else w @ sep @ join ws sep)"
  by (cases ws) auto

lemma join_split_on: "join (split_on s c) [c] = s"
proof -
  have "join (split_by (\<lambda>x. x = c) s) [c] = s"
  proof (induction s)
    case (Cons x s)
    then show ?case
      using split_by_nonempty [of "\<lambda>x. x = c" s]
      by (cases "split_by (\<lambda>x. x = c) s") (auto simp: join_Cons split: if_splits)
  qed simp
  then show ?thesis
    by (simp add: split_on_def)
qed

lemma join_nonempty: "ws \<noteq> [] \<Longrightarrow> last ws \<noteq> [] \<Longrightarrow> join ws sep \<noteq> []"
proof (induction ws)
  case (Cons w ws)
  then show ?case
    by (cases "ws = []") (auto simp: join_Cons)
qed simp

lemma hd_join: "ws \<noteq> [] \<Longrightarrow> hd ws \<noteq> [] \<Longrightarrow> hd (join ws sep) = hd (hd ws)"
  by (cases ws) (auto simp: join_Cons)

lemma last_join: "ws \<noteq> [] \<Longrightarrow> last ws \<noteq> [] \<Longrightarrow> last (join ws sep) = last (last ws)"
proof (induction ws)
  case (Cons w ws)
  then show ?case
    by (cases "ws = []") (auto simp: join_Cons join_nonempty)
qed simp

definition mac_form :: "string \<Rightarrow> bool" where
  "mac_form m \<longleftrightarrow> (\<exists>ps. length ps = 6 \<and> m = join ps '':'' \<and> trimmed m \<and>
     (\<forall>p \<in> set ps. length p = 2 \<and> CHR '':'' \<notin> set p \<and> to_lower p = p))"

lemma to_lower_part: "to_lower s = s \<Longrightarrow> w \<in> set (split_on s c) \<Longrightarrow> to_lower w = w"
proof -
  assume s: "to_lower s = s" and w: "w \<in> set (split_on s c)"
  have "lower_char x = x" if "x \<in> set w" for x
  proof -
    from split_on_parts [OF w that] have "x \<in> set (to_lower s)"
      using s by simp
    then show ?thesis
      by (auto simp: to_lower_def)
  qed
  then show ?thesis
    by (simp add: to_lower_def map_idI)
qed

lemma pad_octet_facts:
  "length (pad_octet p) = 2 \<Longrightarrow> p \<noteq> [] \<and> last (pad_octet p) = last p"
  by (auto simp: pad_octet_def split: if_splits)

lemma hd_pad_octet: "p \<noteq> [] \<Longrightarrow> \<not> is_space (hd p) \<Longrightarrow> \<not> is_space (hd (pad_octet p))"
  by (simp add: pad_octet_def is_space_def)

lemma pad_octet_lower: "to_lower p = p \<Longrightarrow> to_lower (pad_octet p) = pad_octet p"
  by (simp add: pad_octet_def to_lower_def lower_char_def)

lemma normalizeMAC_form: "normalizeMAC v = '''' \<or> mac_form (normalizeMAC v)"
proof (cases "normalizeMAC v = ''''")
  case False
  define val where "val = trim_space (to_lower v)"
  define parts where "parts = split_on val (CHR '':'')"
  from False have len: "length parts = 6" and two: "\<forall>p \<in> set parts. length (pad_octet p) = 2"
    and m: "normalizeMAC v = join (map pad_octet parts) '':''" and ne: "val \<noteq> []"
    by (auto simp: normalizeMAC_def Let_def val_def parts_def list_ex_iff split: if_splits)
  have val: "val = join parts '':''" and low: "to_lower val = val" and tr: "trimmed val"
    by (simp_all add: parts_def join_split_on val_def trim_space_to_lower trimmed_trim_space)
  from len have "parts \<noteq> []"
    by auto
  with two have hd_part: "hd parts \<noteq> []" and last_part: "last parts \<noteq> []"
    using pad_octet_facts by (metis hd_in_set, metis last_in_set)
  have "\<not> is_space (hd (hd parts))" and lastp: "\<not> is_space (last (last parts))"
    using tr ne val hd_join [OF \<open>parts \<noteq> []\<close> hd_part] last_join [OF \<open>parts \<noteq> []\<close> last_part]
    by (auto simp: trimmed_def)
  then have "\<not> is_space (hd (pad_octet (hd parts)))" and "\<not> is_space (last (pad_octet (last parts)))"
    using hd_part two pad_octet_facts \<open>parts \<noteq> []\<close> by (auto simp: hd_pad_octet)
  moreover have "pad_octet (hd parts) \<noteq> []" and "pad_octet (last parts) \<noteq> []"
    using hd_part last_part by (auto simp: pad_octet_def)
  ultimately have "trimmed (normalizeMAC v)"
    using \<open>parts \<noteq> []\<close> unfolding m trimmed_def
    by (simp add: hd_join last_join hd_map last_map)
  moreover have "length p = 2 \<and> CHR '':'' \<notin> set p \<and> to_lower p = p" if "p \<in> set (map pad_octet parts)" for p
  proof -
    from that obtain q where q: "q \<in> set parts" "p = pad_octet q"
      by auto
    then have "CHR '':'' \<notin> set q" and "to_lower q = q"
      using split_on_parts [of q val] to_lower_part [OF low] by (auto simp: parts_def)
    then show ?thesis
      using q two by (auto simp: pad_octet_lower) (auto simp: pad_octet_def split: if_splits)
  qed
  ultimately have "mac_form (normalizeMAC v)"
    using len m unfolding mac_form_def by (metis length_map)
  then show ?thesis ..
qed simp

lemma mac_form_fixed:
  assumes "mac_form m"
  shows "normalizeMAC m = m"
proof -
  obtain ps where ps: "length ps = 6" "m = join ps '':''" "trimmed m"
    and each: "\<forall>p \<in> set ps. length p = 2 \<and> CHR '':'' \<notin> set p \<and> to_lower p = p"
    using assms by (auto simp: mac_form_def)
  have "to_lower (join ws '':'') = join ws '':''" if "\<forall>p \<in> set ws. to_lower p = p" for ws
    using that by (induction ws) (auto simp: join_Cons to_lower_def lower_char_def)
  with each ps(2) have "to_lower m = m"
    by blast
  with ps(3) have val: "trim_space (to_lower m) = m"
    by (simp add: trim_space_trimmed)
  have "ps \<noteq> []"
    using ps(1) by auto
  then have sp: "split_on m (CHR '':'') = ps"
    using each ps(2) by (simp add: split_on_join)
  have "m \<noteq> []"
    using each ps(1,2) \<open>ps \<noteq> []\<close> join_nonempty [of ps "'':''"] by (metis last_in_set list.size(3) zero_neq_numeral)
  moreover have "map pad_octet ps = ps"
    using each by (auto intro!: map_idI simp: pad_octet_def)
  moreover have "\<not> list_ex (\<lambda>p. length (pad_octet p) \<noteq> 2) ps"
    using each by (auto simp: list_ex_iff pad_octet_def)
  ultimately show ?thesis
    by (simp add: normalizeMAC_def val sp ps(1) Let_def) (simp add: ps(2))
qed


text \<open>
  An ARP line is taken for the asked address when it merely contains its text: the entry of
  192.168.1.10 answers a question about 192.168.1.1.
\<close>

lemma parseARPOutput_substring:
  "parseARPOutput ''? (192.168.1.10) at aa:bb:c:dd:ee:ff on en0'' ''192.168.1.1'' = ('''', ''aa:bb:0c:dd:ee:ff'')"
  by code_simp

end
