(* ===== verification/Store_HA.thy ===== *)
theory Store_HA
  imports Store_Settings Store_Secrets Identity Go_URL
begin

text \<open>
  High availability in internal/store/store.go: the settings of the pair, the requests of secondaries
  to join, the health of the peer and the guard of the import. The join requests are kept as JSON in
  one row of the settings table: encoding/json is the parameter \<open>request_codec\<close>. The cipher and the
  random bytes are parameters as in Store_Secrets.
\<close>

section \<open>Settings with a common prefix\<close>

definition settings_like :: "string \<Rightarrow> db \<Rightarrow> (string \<times> string) list" where
  \<comment> \<open>\<open>SELECT key, value FROM settings WHERE key LIKE 'prefix%'\<close>: LIKE ignores the case of ASCII letters\<close>
  "settings_like p d = filter (\<lambda>r. has_prefix (to_lower (fst r)) p) (t_settings d)"

definition value_in :: "(string \<times> string) list \<Rightarrow> string \<Rightarrow> string" where
  \<comment> \<open>\<open>values[key]\<close> of the map filled row by row; the empty string when there is none\<close>
  "value_in rows key = (case map_of (rev rows) key of None \<Rightarrow> '''' | Some v \<Rightarrow> v)"

definition put_settings :: "(string \<times> string) list \<Rightarrow> (store, unit) comp" where
  \<comment> \<open>\<open>for key, value := range pairs\<close>: Go walks the map in no fixed order, which for distinct keys only
      orders new rows\<close>
  "put_settings pairs = forEach pairs (\<lambda>kv. exec_stmt (\<lambda>d. d\<lparr>t_settings := settings_put kv (t_settings d)\<rparr>))"

definition settings_ok :: "db \<Rightarrow> bool" where
  \<comment> \<open>the primary key of the table\<close>
  "settings_ok d \<longleftrightarrow> distinct (map fst (t_settings d))"

section \<open>The pair\<close>

record HASettings =
  HA_Enabled :: bool
  HA_Role :: string
  HA_PeerName :: string
  HA_PeerURL :: string
  HA_PeerToken :: string
  HA_HasPeerToken :: bool
  HA_LastHeartbeat :: string
  HA_LastSync :: string
  HA_LastStatus :: string

definition ha_settings_of :: "cipher \<Rightarrow> string \<Rightarrow> (string \<times> string) list \<Rightarrow> HASettings" where
  "ha_settings_of c key rows =
     (let token = decryptSecret c key (value_in rows ''ha.peer_token'')
      in \<lparr>HA_Enabled = (value_in rows ''ha.enabled'' = ''true''),
          HA_Role = (if value_in rows ''ha.role'' \<noteq> '''' then value_in rows ''ha.role'' else ''primary''),
          HA_PeerName = value_in rows ''ha.peer_name'', HA_PeerURL = value_in rows ''ha.peer_url'',
          HA_PeerToken = token, HA_HasPeerToken = (token \<noteq> ''''),
          HA_LastHeartbeat = value_in rows ''ha.last_heartbeat'', HA_LastSync = value_in rows ''ha.last_sync'',
          HA_LastStatus = value_in rows ''ha.last_status''\<rparr>)"

definition get_HASettings :: "cipher \<Rightarrow> (store, HASettings) comp" where
  "get_HASettings c =
     andThen (query_db (settings_like ''ha.'')) (\<lambda>rows.
     andThen (gets secretKey) (\<lambda>key. ret (ha_settings_of c key rows)))"

definition full_url :: "string \<Rightarrow> bool" where
  \<comment> \<open>\<open>parsed, err := url.Parse(u); err != nil || parsed.Scheme == "" || parsed.Host == ""\<close>, negated\<close>
  "full_url u = (case url_Parse u of None \<Rightarrow> False | Some p \<Rightarrow> u_Scheme p \<noteq> '''' \<and> u_Host p \<noteq> '''')"

definition clean_ha_settings :: "HASettings \<Rightarrow> HASettings" where
  "clean_ha_settings h =
     (let role = to_lower (trim_space (HA_Role h))
      in h\<lparr>HA_Role := (if role = '''' then ''primary'' else role), HA_PeerName := trim_space (HA_PeerName h),
           HA_PeerURL := trim_right (trim_space (HA_PeerURL h)) ''/'', HA_PeerToken := trim_space (HA_PeerToken h)\<rparr>)"

definition ha_pairs :: "cipher \<Rightarrow> string \<Rightarrow> string \<Rightarrow> HASettings \<Rightarrow> error + (string \<times> string) list" where
  "ha_pairs c nonce key h =
     (let pairs = [(''ha.enabled'', bool_text (HA_Enabled h)), (''ha.role'', HA_Role h),
                   (''ha.peer_name'', HA_PeerName h), (''ha.peer_url'', HA_PeerURL h)]
      in if HA_PeerToken h = '''' then Inr pairs
         else (case encryptSecret c key nonce (HA_PeerToken h) of
             Inl e \<Rightarrow> Inl e
           | Inr enc \<Rightarrow> Inr (pairs @ [(''ha.peer_token'', enc)])))"

definition SaveHASettings :: "cipher \<Rightarrow> string \<Rightarrow> HASettings \<Rightarrow> (store, HASettings) comp" where
  "SaveHASettings c nonce settings =
     (let h = clean_ha_settings settings
      in if HA_Role h \<noteq> ''primary'' \<and> HA_Role h \<noteq> ''secondary'' then fail (ErrMsg ''role must be primary or secondary'')
         else if HA_PeerURL h \<noteq> '''' \<and> \<not> full_url (HA_PeerURL h)
         then fail (ErrMsg ''peer_url must be a full http:// or https:// URL'')
         else andThen (transaction (andThen (gets secretKey) (\<lambda>key.
                case ha_pairs c nonce key h of Inl e \<Rightarrow> fail e | Inr pairs \<Rightarrow> put_settings pairs))) (\<lambda>_.
              andThen (ignoring (Audit ''ha.settings'' (HA_PeerURL h)
                ((''enabled='' @ bool_text (HA_Enabled h)) @ '' role='' @ HA_Role h))) (\<lambda>_.
              andThen (get_HASettings c) (\<lambda>out. ret (out\<lparr>HA_PeerToken := ''''\<rparr>)))))"

definition ValidateHAImportAllowed :: "cipher \<Rightarrow> (store, unit) comp" where
  "ValidateHAImportAllowed c =
     andThen (get_HASettings c) (\<lambda>settings.
       if \<not> HA_Enabled settings then fail (ErrMsg ''secondary DNS sync is not enabled on this node'')
       else if HA_Role settings \<noteq> ''secondary'' then fail (ErrMsg ''this node is not configured to receive HA policy sync'')
       else ret ())"

record HAHealth =
  HH_Enabled :: bool
  HH_Role :: string
  HH_PeerName :: string
  HH_PeerURL :: string
  HH_Status :: string
  HH_LastHeartbeat :: string
  HH_LastSync :: string
  HH_HeartbeatAgeSeconds :: int
  HH_Stale :: bool
  HH_Configured :: bool

definition get_HAHealth :: "cipher \<Rightarrow> (store, HAHealth) comp" where
  "get_HAHealth c =
     andThen (get_HASettings c) (\<lambda>settings.
       let health = \<lparr>HH_Enabled = HA_Enabled settings, HH_Role = HA_Role settings, HH_PeerName = HA_PeerName settings,
             HH_PeerURL = HA_PeerURL settings,
             HH_Status = (if HA_LastStatus settings = '''' then ''not checked'' else HA_LastStatus settings),
             HH_LastHeartbeat = HA_LastHeartbeat settings, HH_LastSync = HA_LastSync settings,
             HH_HeartbeatAgeSeconds = 0, HH_Stale = False,
             HH_Configured = (HA_PeerURL settings \<noteq> '''' \<and> HA_HasPeerToken settings)\<rparr>
       in if HA_LastHeartbeat settings \<noteq> '''' then
            (case parse_time (HA_LastHeartbeat settings) of
               None \<Rightarrow> ret health
             | Some ts \<Rightarrow> andThen time_now (\<lambda>now.
                 let age = whole_seconds (time_since now ts)
                 in ret (health\<lparr>HH_HeartbeatAgeSeconds := age, HH_Stale := HA_Enabled settings \<and> 180 < age\<rparr>)))
          else ret (health\<lparr>HH_Stale := HA_Enabled settings\<rparr>))"

section \<open>Requests to join\<close>

record HAJoinRequest =
  JR_ID :: string
  JR_NodeName :: string
  JR_NodeURL :: string
  JR_NodeIP :: string
  JR_NodeMAC :: string
  JR_NodeHostname :: string
  JR_NodeRole :: string
  JR_NodeVersion :: string
  JR_RequestedAt :: string
  JR_Status :: string
  JR_RequesterToken :: string
  JR_HasToken :: bool

record HAJoinRequestInput =
  JI_NodeName :: string
  JI_NodeURL :: string
  JI_NodeIP :: string
  JI_NodeMAC :: string
  JI_NodeHostname :: string
  JI_NodeRole :: string
  JI_NodeVersion :: string
  JI_RequesterToken :: string

record request_codec =
  Marshal :: "HAJoinRequest list \<Rightarrow> string"
  Unmarshal :: "string \<Rightarrow> HAJoinRequest list option"

definition codec_ok :: "request_codec \<Rightarrow> bool" where
  \<comment> \<open>encoding/json: what is marshalled unmarshals to the same requests, and is not blank\<close>
  "codec_ok j \<longleftrightarrow> (\<forall>rs. Unmarshal j (Marshal j rs) = Some rs \<and> trim_space (Marshal j rs) \<noteq> '''')"

definition haJoinRequestsRaw :: "request_codec \<Rightarrow> (store, HAJoinRequest list) comp" where
  \<comment> \<open>an error of the query leaves \<open>raw\<close> empty, and an empty \<open>raw\<close> is tested before the error\<close>
  "haJoinRequestsRaw j s =
     (case query_row (setting ''ha.join_requests'') s of
        (Inl _, s) \<Rightarrow> (Inr [], s)
      | (Inr raw, s) \<Rightarrow>
          if trim_space raw = '''' then (Inr [], s)
          else (case Unmarshal j raw of
              None \<Rightarrow> (Inl (ErrMsg ''invalid JSON''), s)
            | Some requests \<Rightarrow> (Inr requests, s)))"

definition saveHAJoinRequests :: "request_codec \<Rightarrow> HAJoinRequest list \<Rightarrow> (store, unit) comp" where
  "saveHAJoinRequests j requests = setSetting ''ha.join_requests'' (Marshal j requests)"

definition shown :: "HAJoinRequest \<Rightarrow> HAJoinRequest" where
  \<comment> \<open>the copy that leaves the store\<close>
  "shown r = r\<lparr>JR_RequesterToken := '''', JR_HasToken := True\<rparr>"

definition HAJoinRequests :: "request_codec \<Rightarrow> (store, HAJoinRequest list) comp" where
  "HAJoinRequests j = andThen (haJoinRequestsRaw j) (\<lambda>requests. ret (map shown requests))"

definition clean_join_input :: "HAJoinRequestInput \<Rightarrow> HAJoinRequestInput" where
  "clean_join_input i =
     (let name = trim_space (JI_NodeName i); role = to_lower (trim_space (JI_NodeRole i))
      in \<lparr>JI_NodeName = (if name = '''' then ''TM-DNS Secondary'' else name),
          JI_NodeURL = trim_right (trim_space (JI_NodeURL i)) ''/'', JI_NodeIP = trim_space (JI_NodeIP i),
          JI_NodeMAC = normalizeMAC (JI_NodeMAC i), JI_NodeHostname = cleanHostname (JI_NodeHostname i),
          JI_NodeRole = (if role = '''' then ''secondary'' else role),
          JI_NodeVersion = trim_space (JI_NodeVersion i), JI_RequesterToken = trim_space (JI_RequesterToken i)\<rparr>)"

definition join_input_error :: "HAJoinRequestInput \<Rightarrow> error option" where
  "join_input_error i =
     (if JI_NodeRole i \<noteq> ''secondary'' then Some (ErrMsg ''join requests must come from a secondary node'')
      else if JI_NodeURL i = '''' then Some (ErrMsg ''node_url is required'')
      else if \<not> full_url (JI_NodeURL i) then Some (ErrMsg ''node_url must be a full http:// or https:// URL'')
      else if JI_RequesterToken i = '''' then Some (ErrMsg ''requester admin token is required'')
      else None)"

fun replace_pending :: "HAJoinRequest \<Rightarrow> HAJoinRequest list \<Rightarrow> (HAJoinRequest \<times> HAJoinRequest list) option" where
  \<comment> \<open>the first pending request of the same node is overwritten and keeps its id\<close>
  "replace_pending request [] = None"
| "replace_pending request (r # rs) =
     (if JR_NodeURL r = JR_NodeURL request \<and> JR_Status r = ''pending''
      then (let request = request\<lparr>JR_ID := JR_ID r\<rparr> in Some (request, request # rs))
      else map_option (\<lambda>(q, rs). (q, r # rs)) (replace_pending request rs))"

definition SaveHAJoinRequest ::
  "cipher \<Rightarrow> request_codec \<Rightarrow> string \<Rightarrow> string \<Rightarrow> HAJoinRequestInput \<Rightarrow> (store, HAJoinRequest) comp" where
  \<comment> \<open>\<open>rid\<close> is what \<open>randomID\<close> returns\<close>
  "SaveHAJoinRequest c j nonce rid input =
     (let i = clean_join_input input
      in case join_input_error i of
           Some e \<Rightarrow> fail e
         | None \<Rightarrow>
             andThen (haJoinRequestsRaw j) (\<lambda>requests.
             andThen time_now (\<lambda>now.
             andThen (gets secretKey) (\<lambda>key.
             case encryptSecret c key nonce (JI_RequesterToken i) of
               Inl e \<Rightarrow> fail e
             | Inr encrypted \<Rightarrow>
                 let request = \<lparr>JR_ID = rid, JR_NodeName = JI_NodeName i, JR_NodeURL = JI_NodeURL i,
                       JR_NodeIP = JI_NodeIP i, JR_NodeMAC = JI_NodeMAC i, JR_NodeHostname = JI_NodeHostname i,
                       JR_NodeRole = JI_NodeRole i, JR_NodeVersion = JI_NodeVersion i,
                       JR_RequestedAt = fmt_time now, JR_Status = ''pending'', JR_RequesterToken = encrypted,
                       JR_HasToken = False\<rparr>;
                     (request, requests) = (case replace_pending request requests of
                         Some x \<Rightarrow> x | None \<Rightarrow> (request, requests @ [request]))
                 in andThen (saveHAJoinRequests j requests) (\<lambda>_.
                    andThen (ignoring (Audit ''ha.join.request'' (JI_NodeURL i) (JI_NodeName i))) (\<lambda>_.
                    ret (shown request)))))))"

definition HAJoinRequestForAccept :: "cipher \<Rightarrow> request_codec \<Rightarrow> string \<Rightarrow> (store, HAJoinRequest) comp" where
  "HAJoinRequestForAccept c j rid =
     andThen (haJoinRequestsRaw j) (\<lambda>requests.
       case find (\<lambda>r. JR_ID r = trim_space rid) requests of
         None \<Rightarrow> fail (ErrMsg ''join request not found'')
       | Some r \<Rightarrow>
           if JR_Status r \<noteq> ''pending'' then fail (ErrMsg ''join request is not pending'')
           else andThen (gets secretKey) (\<lambda>key.
             let token = decryptSecret c key (JR_RequesterToken r)
             in if token = '''' then fail (ErrMsg ''join request token is unavailable'')
                else ret (r\<lparr>JR_RequesterToken := token, JR_HasToken := True\<rparr>)))"

fun accept_first :: "string \<Rightarrow> HAJoinRequest list \<Rightarrow> HAJoinRequest list" where
  "accept_first rid [] = []"
| "accept_first rid (r # rs) = (if JR_ID r = rid then r\<lparr>JR_Status := ''accepted''\<rparr> # rs else r # accept_first rid rs)"

definition MarkHAJoinRequestAccepted :: "request_codec \<Rightarrow> string \<Rightarrow> (store, HAJoinRequest) comp" where
  "MarkHAJoinRequestAccepted j rid =
     andThen (haJoinRequestsRaw j) (\<lambda>requests.
       case find (\<lambda>r. JR_ID r = trim_space rid) requests of
         None \<Rightarrow> fail (ErrMsg ''join request not found'')
       | Some r \<Rightarrow>
           if JR_Status r \<noteq> ''pending'' then fail (ErrMsg ''join request is not pending'')
           else andThen (saveHAJoinRequests j (accept_first (trim_space rid) requests)) (\<lambda>_.
                andThen (ignoring (Audit ''ha.join.accept'' (JR_NodeURL r) (JR_NodeName r))) (\<lambda>_.
                ret (shown (r\<lparr>JR_Status := ''accepted''\<rparr>)))))"

definition AcceptHAJoinRequest :: "cipher \<Rightarrow> request_codec \<Rightarrow> string \<Rightarrow> string \<Rightarrow> (store, HAJoinRequest) comp" where
  "AcceptHAJoinRequest c j nonce rid =
     andThen (HAJoinRequestForAccept c j rid) (\<lambda>request.
     andThen (SaveHASettings c nonce \<lparr>HA_Enabled = True, HA_Role = ''primary'', HA_PeerName = JR_NodeName request,
         HA_PeerURL = JR_NodeURL request, HA_PeerToken = JR_RequesterToken request, HA_HasPeerToken = False,
         HA_LastHeartbeat = '''', HA_LastSync = '''', HA_LastStatus = ''''\<rparr>) (\<lambda>_.
     MarkHAJoinRequestAccepted j rid))"

section \<open>The heartbeat\<close>

text \<open>
  What \<open>GET peer/api/ha/heartbeat\<close> with a token comes to: the network and the peer are a parameter of
  this type, a function of the URL and the token.
\<close>

datatype heartbeat_reply = BadURL error | NoAnswer string | BadStatus string | BadBody | Beat string string

record HAStatus =
  HS_Status :: string
  HS_PeerURL :: string
  HS_PeerVersion :: string
  HS_PeerRole :: string
  HS_Error :: string
  HS_CheckedAt :: string

definition expected_role :: "string \<Rightarrow> string" where
  "expected_role role = (if role = ''secondary'' then ''primary'' else ''secondary'')"

definition note_status :: "string \<Rightarrow> HAStatus \<Rightarrow> (store, HAStatus) comp" where
  "note_status text status = andThen (ignoring (setSetting ''ha.last_status'' text)) (\<lambda>_. ret status)"

definition note_error :: "HAStatus \<Rightarrow> string \<Rightarrow> (store, HAStatus) comp" where
  "note_error status m = note_status m (status\<lparr>HS_Status := ''error'', HS_Error := m\<rparr>)"

definition TestHAPeer :: "cipher \<Rightarrow> (string \<Rightarrow> string \<Rightarrow> heartbeat_reply) \<Rightarrow> (store, HAStatus) comp" where
  "TestHAPeer c beat =
     andThen (get_HASettings c) (\<lambda>settings.
     andThen time_now (\<lambda>now.
       let status = \<lparr>HS_Status = ''disabled'', HS_PeerURL = HA_PeerURL settings, HS_PeerVersion = '''', HS_PeerRole = '''',
             HS_Error = '''', HS_CheckedAt = fmt_time now\<rparr>
       in if \<not> HA_Enabled settings then note_status ''disabled'' status
          else if HA_PeerURL settings = '''' then note_error status ''peer URL is required''
          else if HA_PeerToken settings = '''' then note_error status ''peer token is required''
          else (case beat (HA_PeerURL settings @ ''/api/ha/heartbeat'') (HA_PeerToken settings) of
              BadURL e \<Rightarrow> fail e
            | NoAnswer m \<Rightarrow> note_error status m
            | BadStatus m \<Rightarrow> note_error status m
            | BadBody \<Rightarrow> note_error status ''invalid heartbeat response''
            | Beat version peer \<Rightarrow>
                if peer \<noteq> expected_role (HA_Role settings)
                then note_error status ((''peer role is '' @ peer) @ ('', expected '' @ expected_role (HA_Role settings)))
                else andThen (ignoring (setSetting ''ha.last_heartbeat'' (HS_CheckedAt status))) (\<lambda>_.
                     note_status ''ok'' (status\<lparr>HS_Status := ''ok'', HS_PeerVersion := version, HS_PeerRole := peer\<rparr>)))))"

definition runHeartbeat :: "cipher \<Rightarrow> (string \<Rightarrow> string \<Rightarrow> heartbeat_reply) \<Rightarrow> store \<Rightarrow> store" where
  \<comment> \<open>one tick of the worker: its results are only logged\<close>
  "runHeartbeat c beat s =
     snd (andThen (get_HASettings c) (\<lambda>settings.
       if \<not> HA_Enabled settings \<or> HA_PeerURL settings = '''' then ret ()
       else ignoring (TestHAPeer c beat)) s)"

section \<open>What the settings of the pair are\<close>

definition setting_text :: "string \<Rightarrow> db \<Rightarrow> string" where
  "setting_text key d = (case setting key d of None \<Rightarrow> '''' | Some v \<Rightarrow> v)"

lemma map_of_rev_distinct: "distinct (map fst xs) \<Longrightarrow> map_of (rev xs) = map_of xs"
  by (metis distinct_rev map_of_eqI map_of_inject_set rev_map set_rev)

lemma find_key_map_of: "map_option snd (find (\<lambda>r. fst r = k) xs) = map_of xs k"
  by (induction xs) auto

lemma value_in_setting:
  assumes "settings_ok d" and "has_prefix (to_lower key) p"
  shows "value_in (settings_like p d) key = setting_text key d"
proof -
  have "distinct (map fst (settings_like p d))"
    using assms(1) unfolding settings_ok_def settings_like_def by (simp add: distinct_map_filter)
  then have "map_of (rev (settings_like p d)) key = map_of (settings_like p d) key"
    by (simp add: map_of_rev_distinct)
  also have "map_of (filter (\<lambda>r. has_prefix (to_lower (fst r)) p) rows) key = map_of rows key" for rows :: "(string \<times> string) list"
    using assms(2) by (induction rows) auto
  then have "map_of (settings_like p d) key = map_of (t_settings d) key"
    by (simp add: settings_like_def)
  finally show ?thesis
    by (simp add: value_in_def setting_text_def setting_def find_key_map_of)
qed

definition ha_settings_in :: "cipher \<Rightarrow> string \<Rightarrow> db \<Rightarrow> HASettings" where
  "ha_settings_in c key d =
     (let token = decryptSecret c key (setting_text ''ha.peer_token'' d)
      in \<lparr>HA_Enabled = (setting_text ''ha.enabled'' d = ''true''),
          HA_Role = (if setting_text ''ha.role'' d \<noteq> '''' then setting_text ''ha.role'' d else ''primary''),
          HA_PeerName = setting_text ''ha.peer_name'' d, HA_PeerURL = setting_text ''ha.peer_url'' d,
          HA_PeerToken = token, HA_HasPeerToken = (token \<noteq> ''''),
          HA_LastHeartbeat = setting_text ''ha.last_heartbeat'' d, HA_LastSync = setting_text ''ha.last_sync'' d,
          HA_LastStatus = setting_text ''ha.last_status'' d\<rparr>)"

lemma ha_keys:
  "has_prefix (to_lower ''ha.enabled'') ''ha.''" "has_prefix (to_lower ''ha.role'') ''ha.''"
  "has_prefix (to_lower ''ha.peer_name'') ''ha.''" "has_prefix (to_lower ''ha.peer_url'') ''ha.''"
  "has_prefix (to_lower ''ha.peer_token'') ''ha.''" "has_prefix (to_lower ''ha.last_heartbeat'') ''ha.''"
  "has_prefix (to_lower ''ha.last_sync'') ''ha.''" "has_prefix (to_lower ''ha.last_status'') ''ha.''"
  by code_simp+

lemma ha_settings_of_in: "settings_ok d \<Longrightarrow> ha_settings_of c key (settings_like ''ha.'' d) = ha_settings_in c key d"
  by (simp add: ha_settings_of_def ha_settings_in_def value_in_setting ha_keys)

lemma HASettings_cases:
  assumes "get_HASettings c s = (r, t)"
  obtains (okay) e where "r = Inr (ha_settings_of c (secretKey s) (settings_like ''ha.'' (s_db s)))" "t = s\<lparr>s_env := e\<rparr>"
  | (failed) e x where "r = Inl x" "t = s\<lparr>s_env := e\<rparr>"
proof -
  obtain r1 s1 where q: "query_db (settings_like ''ha.'') s = (r1, s1)"
    by fastforce
  then show ?thesis
  proof (cases rule: query_db_cases)
    case (okay e)
    with assms q show ?thesis
      by (intro that(1) [of e]) (auto simp: get_HASettings_def andThen_def gets_def ret_def)
  next
    case (failed e x)
    with assms q show ?thesis
      by (intro that(2) [of x e]) (auto simp: get_HASettings_def andThen_def)
  qed
qed

lemma HASettings_working:
  "faults (s_env s) = [] \<Longrightarrow> settings_ok (s_db s) \<Longrightarrow>
   get_HASettings c s = (Inr (ha_settings_in c (secretKey s) (s_db s)), s)"
  by (simp add: get_HASettings_def gets_def run_simps ha_settings_of_in)

lemma works_gets [keeps_intro]: "works (gets f)"
  by (simp add: works_def gets_def)

lemma db_only_gets [keeps_intro]: "db_only (gets f)"
  by (simp add: db_only_def gets_def)

lemma works_HASettings [keeps_intro]: "works (get_HASettings c)"
  unfolding get_HASettings_def by (intro keeps_intro)

lemma db_only_put_settings [keeps_intro]: "db_only (put_settings pairs)"
  unfolding put_settings_def by (intro keeps_intro)

lemma works_put_settings [keeps_intro]: "works (put_settings pairs)"
  unfolding put_settings_def by (intro keeps_intro)

text \<open>What a run of insertions leaves in the table.\<close>

definition put_all :: "(string \<times> string) list \<Rightarrow> db \<Rightarrow> db" where
  "put_all pairs d = d\<lparr>t_settings := fold settings_put pairs (t_settings d)\<rparr>"

lemma fold_put_settings: "fold (\<lambda>kv d. d\<lparr>t_settings := settings_put kv (t_settings d)\<rparr>) pairs d = put_all pairs d"
  by (induction pairs arbitrary: d) (simp_all add: put_all_def)

lemma setting_put_all:
  "distinct (map fst pairs) \<Longrightarrow>
   setting k (put_all pairs d) = (case map_of pairs k of Some v \<Rightarrow> Some v | None \<Rightarrow> setting k d)"
proof (induction pairs arbitrary: d)
  case Nil
  then show ?case
    by (simp add: put_all_def setting_def)
next
  case (Cons p ps)
  have "put_all (p # ps) d = put_all ps (d\<lparr>t_settings := settings_put p (t_settings d)\<rparr>)"
    by (simp add: put_all_def)
  moreover have "map_of ps k = None" if "k = fst p"
    using Cons.prems that by (simp add: map_of_eq_None_iff)
  ultimately show ?case
    using Cons.IH [of "d\<lparr>t_settings := settings_put p (t_settings d)\<rparr>"] Cons.prems
      setting_put_same [where k = "fst p" and d = d and v = "snd p"]
      setting_put_other [where k' = k and k = "fst p" and d = d and v = "snd p"]
    by (cases "k = fst p") (auto split: option.splits)
qed

lemma settings_ok_put_all: "settings_ok d \<Longrightarrow> settings_ok (put_all pairs d)"
proof (induction pairs arbitrary: d)
  case (Cons p ps)
  have "put_all (p # ps) d = put_all ps (d\<lparr>t_settings := settings_put p (t_settings d)\<rparr>)"
    by (simp add: put_all_def)
  moreover have "settings_ok (d\<lparr>t_settings := settings_put p (t_settings d)\<rparr>)"
    using Cons.prems settings_table.put_distinct by (simp add: settings_ok_def)
  ultimately show ?case
    using Cons.IH by simp
qed (simp add: put_all_def)

lemma bool_text_true: "(bool_text b = ''true'') = b"
  by (simp add: bool_text_def)

lemma decrypt_empty: "decryptSecret c key '''' = ''''"
  by (simp add: decryptSecret_def trim_space_def)

definition pairs_ok :: "cipher \<Rightarrow> string \<Rightarrow> HASettings \<Rightarrow> (string \<times> string) list \<Rightarrow> bool" where
  "pairs_ok c key h pairs \<longleftrightarrow> distinct (map fst pairs) \<and> map_of pairs ''ha.enabled'' = Some (bool_text (HA_Enabled h)) \<and>
     map_of pairs ''ha.role'' = Some (HA_Role h) \<and> map_of pairs ''ha.peer_name'' = Some (HA_PeerName h) \<and>
     map_of pairs ''ha.peer_url'' = Some (HA_PeerURL h) \<and>
     (\<forall>k. k \<notin> {''ha.enabled'', ''ha.role'', ''ha.peer_name'', ''ha.peer_url'', ''ha.peer_token''} \<longrightarrow> map_of pairs k = None) \<and>
     (if HA_PeerToken h = '''' then map_of pairs ''ha.peer_token'' = None
      else \<exists>enc. map_of pairs ''ha.peer_token'' = Some enc \<and> decryptSecret c key enc = trim_space (HA_PeerToken h))"

lemma ha_pairs_ok:
  assumes "ha_pairs c nonce key h = Inr pairs" and "cipher_ok c" and "length nonce = nonce_size"
  shows "pairs_ok c key h pairs"
proof (cases "HA_PeerToken h = ''''")
  case True
  with assms(1) show ?thesis
    by (auto simp: ha_pairs_def pairs_ok_def)
next
  case False
  with assms(1) obtain enc where "encryptSecret c key nonce (HA_PeerToken h) = Inr enc"
    and "pairs = [(''ha.enabled'', bool_text (HA_Enabled h)), (''ha.role'', HA_Role h),
      (''ha.peer_name'', HA_PeerName h), (''ha.peer_url'', HA_PeerURL h), (''ha.peer_token'', enc)]"
    by (auto simp: ha_pairs_def split: sum.splits)
  with False decrypt_encrypted [OF assms(2,3)] show ?thesis
    by (auto simp: pairs_ok_def)
qed

text \<open>The run of a \<open>SaveHASettings\<close> that returns no error.\<close>

lemma SaveHASettings_Inr:
  assumes "SaveHASettings c nonce h s = (Inr out, t)"
  obtains pairs rows e where "HA_Role (clean_ha_settings h) = ''primary'' \<or> HA_Role (clean_ha_settings h) = ''secondary''"
    and "HA_PeerURL (clean_ha_settings h) \<noteq> '''' \<Longrightarrow> full_url (HA_PeerURL (clean_ha_settings h))"
    and "ha_pairs c nonce (secretKey s) (clean_ha_settings h) = Inr pairs"
    and "t = s\<lparr>s_db := (put_all pairs (s_db s))\<lparr>t_audit := rows\<rparr>, s_env := e\<rparr>" and "HA_PeerToken out = ''''"
proof -
  let ?h = "clean_ha_settings h"
  let ?body = "andThen (gets secretKey) (\<lambda>key. case ha_pairs c nonce key ?h of Inl e \<Rightarrow> fail e | Inr pairs \<Rightarrow> put_settings pairs)"
  let ?audit = "ignoring (Audit ''ha.settings'' (HA_PeerURL ?h) ((''enabled='' @ bool_text (HA_Enabled ?h)) @ '' role='' @ HA_Role ?h))"
  from assms have role: "HA_Role ?h = ''primary'' \<or> HA_Role ?h = ''secondary''"
    and url: "HA_PeerURL ?h \<noteq> '''' \<Longrightarrow> full_url (HA_PeerURL ?h)"
    by (auto simp: SaveHASettings_def Let_def fail_def split: if_splits)
  have "SaveHASettings c nonce h s = andThen (transaction ?body) (\<lambda>_. andThen ?audit (\<lambda>_.
      andThen (get_HASettings c) (\<lambda>out. ret (out\<lparr>HA_PeerToken := ''''\<rparr>)))) s"
    using role url by (auto simp: SaveHASettings_def Let_def)
  with assms have "andThen (transaction ?body) (\<lambda>_. andThen ?audit (\<lambda>_.
      andThen (get_HASettings c) (\<lambda>out. ret (out\<lparr>HA_PeerToken := []\<rparr>)))) s = (Inr out, t)"
    by (simp only:)
  then obtain s1 where 1: "transaction ?body s = (Inr (), s1)"
    and rest: "andThen ?audit (\<lambda>_. andThen (get_HASettings c) (\<lambda>out. ret (out\<lparr>HA_PeerToken := ''''\<rparr>))) s1 = (Inr out, t)"
    by (rule then_InrE)
  from rest obtain s2 where 2: "?audit s1 = (Inr (), s2)"
    and 3: "andThen (get_HASettings c) (\<lambda>out. ret (out\<lparr>HA_PeerToken := ''''\<rparr>)) s2 = (Inr out, t)"
    by (rule then_InrE)
  from 1 obtain e u e' where body: "?body (s\<lparr>s_env := e\<rparr>) = (Inr (), u)" and s1: "s1 = u\<lparr>s_env := e'\<rparr>"
    by (rule transaction_Inr)
  obtain pairs where pairs: "ha_pairs c nonce (secretKey s) ?h = Inr pairs" and put: "put_settings pairs (s\<lparr>s_env := e\<rparr>) = (Inr (), u)"
    using body by (auto simp: andThen_def gets_def fail_def split: sum.splits)
  from forEach_exec_Inr [OF put [unfolded put_settings_def]]
  obtain e1 where u: "u = s\<lparr>s_db := put_all pairs (s_db s), s_env := e1\<rparr>"
    by (auto simp: fold_put_settings)
  from 2 obtain rows e2 where s2: "s2 = s1\<lparr>s_db := (s_db s1)\<lparr>t_audit := rows\<rparr>, s_env := e2\<rparr>"
    by (rule ignoring_Audit_cases) blast
  from 3 obtain a s3 where 4: "get_HASettings c s2 = (Inr a, s3)" and 5: "ret (a\<lparr>HA_PeerToken := []\<rparr>) s3 = (Inr out, t)"
    by (rule andThen_InrE)
  from 5 have "t = s3" and out: "HA_PeerToken out = []"
    by (auto simp: ret_def)
  with 4 obtain e3 where t: "t = s2\<lparr>s_env := e3\<rparr>"
    by (cases rule: HASettings_cases) auto
  show ?thesis
    by (rule that [of pairs e3 rows]) (use role url pairs out in \<open>simp_all add: t s2 s1 u\<close>)
qed

lemma setting_audit [simp]: "setting k (d\<lparr>t_audit := rows\<rparr>) = setting k d"
  by (simp add: setting_def)

lemma settings_ok_audit [simp]: "settings_ok (d\<lparr>t_audit := rows\<rparr>) = settings_ok d"
  by (simp add: settings_ok_def)

lemma SaveHASettings_effect:
  assumes run: "SaveHASettings c nonce h s = (Inr out, t)" and ok: "cipher_ok c" "length nonce = nonce_size" "settings_ok (s_db s)"
  shows "settings_ok (s_db t) \<and> secretKey t = secretKey s \<and>
    ha_settings_in c (secretKey s) (s_db t) =
      (let h = clean_ha_settings h; old = ha_settings_in c (secretKey s) (s_db s);
           token = (if HA_PeerToken h = '''' then HA_PeerToken old else HA_PeerToken h)
       in old\<lparr>HA_Enabled := HA_Enabled h, HA_Role := HA_Role h, HA_PeerName := HA_PeerName h, HA_PeerURL := HA_PeerURL h,
              HA_PeerToken := token, HA_HasPeerToken := (token \<noteq> '''')\<rparr>) \<and>
    (\<forall>k. k \<notin> {''ha.enabled'', ''ha.role'', ''ha.peer_name'', ''ha.peer_url'', ''ha.peer_token''} \<longrightarrow>
       setting k (s_db t) = setting k (s_db s))"
proof -
  let ?h = "clean_ha_settings h"
  obtain pairs rows e where role: "HA_Role ?h = ''primary'' \<or> HA_Role ?h = ''secondary''"
    and pairs: "ha_pairs c nonce (secretKey s) ?h = Inr pairs"
    and t: "t = s\<lparr>s_db := (put_all pairs (s_db s))\<lparr>t_audit := rows\<rparr>, s_env := e\<rparr>"
    using run by (rule SaveHASettings_Inr)
  from ha_pairs_ok [OF pairs ok(1,2)] have p: "pairs_ok c (secretKey s) ?h pairs" .
  then have get: "setting k (s_db t) = (case map_of pairs k of Some v \<Rightarrow> Some v | None \<Rightarrow> setting k (s_db s))" for k
    by (simp add: t setting_put_all pairs_ok_def)
  have token: "trim_space (HA_PeerToken ?h) = HA_PeerToken ?h"
    by (simp add: clean_ha_settings_def Let_def)
  have frame: "setting k (s_db t) = setting k (s_db s)"
    if "k \<notin> {''ha.enabled'', ''ha.role'', ''ha.peer_name'', ''ha.peer_url'', ''ha.peer_token''}" for k
    using p that by (simp add: get pairs_ok_def)
  moreover have "settings_ok (s_db t)"
    using ok(3) by (simp add: t settings_ok_put_all)
  moreover have "decryptSecret c (secretKey s) (setting_text ''ha.peer_token'' (s_db t)) =
      (if HA_PeerToken ?h = '''' then decryptSecret c (secretKey s) (setting_text ''ha.peer_token'' (s_db s)) else HA_PeerToken ?h)"
  proof (cases "HA_PeerToken ?h = ''''")
    case True
    with p have "map_of pairs ''ha.peer_token'' = None"
      by (simp add: pairs_ok_def)
    with True show ?thesis
      by (simp add: setting_text_def get)
  next
    case False
    with p obtain enc where "map_of pairs ''ha.peer_token'' = Some enc" "decryptSecret c (secretKey s) enc = trim_space (HA_PeerToken ?h)"
      unfolding pairs_ok_def by (simp only: if_False) blast
    with False token show ?thesis
      by (simp add: setting_text_def get)
  qed
  moreover have "setting_text k (s_db t) = setting_text k (s_db s)"
    if "k \<notin> {''ha.enabled'', ''ha.role'', ''ha.peer_name'', ''ha.peer_url'', ''ha.peer_token''}" for k
    unfolding setting_text_def using frame [OF that] by (simp only:)
  moreover have "setting_text ''ha.enabled'' (s_db t) = bool_text (HA_Enabled ?h)" "setting_text ''ha.role'' (s_db t) = HA_Role ?h"
    "setting_text ''ha.peer_name'' (s_db t) = HA_PeerName ?h" "setting_text ''ha.peer_url'' (s_db t) = HA_PeerURL ?h"
    using p by (simp_all add: setting_text_def get pairs_ok_def)
  moreover have "HA_Role ?h \<noteq> ''''"
    using role by auto
  moreover have "secretKey t = secretKey s"
    by (simp add: t)
  ultimately show ?thesis
    by (simp add: ha_settings_in_def Let_def bool_text_true)
qed

text \<open>
  C36. What \<open>SaveHASettings\<close> accepts is what every later \<open>HASettings\<close> reads: the cleaned fields, the token
  decrypted, the token that was stored before when the new one is empty, and the history of heartbeats
  and syncs as it was. The copy that is returned carries no token.
\<close>

theorem SaveHASettings_reads_back:
  assumes "SaveHASettings c nonce h s = (Inr out, t)" and "cipher_ok c" and "length nonce = nonce_size"
    and "settings_ok (s_db s)" and "s_db u = s_db t" and "secretKey u = secretKey s" and "faults (s_env u) = []"
  shows "get_HASettings c u =
      (Inr (let h = clean_ha_settings h; old = ha_settings_in c (secretKey s) (s_db s);
                token = (if HA_PeerToken h = '''' then HA_PeerToken old else HA_PeerToken h)
            in old\<lparr>HA_Enabled := HA_Enabled h, HA_Role := HA_Role h, HA_PeerName := HA_PeerName h,
                   HA_PeerURL := HA_PeerURL h, HA_PeerToken := token, HA_HasPeerToken := (token \<noteq> '''')\<rparr>), u) \<and>
    HA_PeerToken out = ''''"
proof -
  from SaveHASettings_effect [OF assms(1-4)] have "settings_ok (s_db u)" and
    "ha_settings_in c (secretKey u) (s_db u) = (let h = clean_ha_settings h; old = ha_settings_in c (secretKey s) (s_db s);
           token = (if HA_PeerToken h = '''' then HA_PeerToken old else HA_PeerToken h)
       in old\<lparr>HA_Enabled := HA_Enabled h, HA_Role := HA_Role h, HA_PeerName := HA_PeerName h, HA_PeerURL := HA_PeerURL h,
              HA_PeerToken := token, HA_HasPeerToken := (token \<noteq> '''')\<rparr>)"
    unfolding assms(5,6) by blast+
  with HASettings_working [OF assms(7)] have "get_HASettings c u = (Inr (let h = clean_ha_settings h; old = ha_settings_in c (secretKey s) (s_db s);
                token = (if HA_PeerToken h = '''' then HA_PeerToken old else HA_PeerToken h)
            in old\<lparr>HA_Enabled := HA_Enabled h, HA_Role := HA_Role h, HA_PeerName := HA_PeerName h,
                   HA_PeerURL := HA_PeerURL h, HA_PeerToken := token, HA_HasPeerToken := (token \<noteq> '''')\<rparr>), u)"
    by (simp only:)
  moreover have "HA_PeerToken out = ''''"
    using assms(1) by (rule SaveHASettings_Inr)
  ultimately show ?thesis ..
qed

section \<open>The life of a request to join\<close>

definition stored_requests :: "request_codec \<Rightarrow> db \<Rightarrow> HAJoinRequest list option" where
  \<comment> \<open>what the row of the settings table says, \<open>None\<close> when it is no JSON\<close>
  "stored_requests j d =
     (let raw = setting_text ''ha.join_requests'' d in if trim_space raw = '''' then Some [] else Unmarshal j raw)"

lemma haJoinRequestsRaw_cases:
  assumes "haJoinRequestsRaw j s = (r, t)"
  obtains (okay) rs e where "stored_requests j (s_db s) = Some rs" "r = Inr rs" "t = s\<lparr>s_env := e\<rparr>"
  | (lost) e where "r = Inr []" "t = s\<lparr>s_env := e\<rparr>"
  | (failed) e x where "r = Inl x" "t = s\<lparr>s_env := e\<rparr>"
proof -
  obtain r1 s1 where q: "query_row (setting ''ha.join_requests'') s = (r1, s1)"
    by fastforce
  then show ?thesis
  proof (cases rule: query_row_cases)
    case (okay raw e)
    then have raw: "setting_text ''ha.join_requests'' (s_db s) = raw"
      by (simp add: setting_text_def)
    show ?thesis
    proof (cases "trim_space raw = ''''")
      case True
      with assms q okay raw show ?thesis
        by (intro that(1) [of "[]" e]) (simp_all add: haJoinRequestsRaw_def stored_requests_def)
    next
      case False
      with assms q okay raw show ?thesis
        by (cases "Unmarshal j raw")
          (auto intro: that(1) that(3) simp: haJoinRequestsRaw_def stored_requests_def)
    qed
  next
    case (failed e x)
    with assms q show ?thesis
      by (intro that(2) [of e]) (simp_all add: haJoinRequestsRaw_def)
  qed
qed

lemma haJoinRequestsRaw_working:
  "faults (s_env s) = [] \<Longrightarrow> stored_requests j (s_db s) = Some rs \<Longrightarrow> haJoinRequestsRaw j s = (Inr rs, s)"
  by (auto simp: haJoinRequestsRaw_def stored_requests_def setting_text_def run_simps trim_space_def split: option.splits if_splits)

text \<open>A found request proves that the rows were read.\<close>

lemma haJoinRequestsRaw_found:
  assumes "haJoinRequestsRaw j s = (Inr rs, t)" and "find p rs = Some q"
  shows "stored_requests j (s_db s) = Some rs \<and> (\<exists>e. t = s\<lparr>s_env := e\<rparr>)"
  using assms(1) by (cases rule: haJoinRequestsRaw_cases) (use assms(2) in auto)

lemma stored_requests_saved:
  assumes "codec_ok j" and "saveHAJoinRequests j rs s = (Inr (), t)"
  shows "stored_requests j (s_db t) = Some rs \<and> same_caches s t \<and> t_settings (s_db t) = settings_put (''ha.join_requests'', Marshal j rs) (t_settings (s_db s))"
proof -
  from assms(2) obtain e where t: "t = s\<lparr>s_db := (s_db s)\<lparr>t_settings := settings_put (''ha.join_requests'', Marshal j rs) (t_settings (s_db s))\<rparr>, s_env := e\<rparr>"
    unfolding saveHAJoinRequests_def setSetting_def by (cases rule: exec_stmt_cases) auto
  then have "setting_text ''ha.join_requests'' (s_db t) = Marshal j rs"
    by (simp add: setting_text_def setting_put_same)
  with assms(1) t show ?thesis
    by (simp add: stored_requests_def codec_ok_def)
qed

lemma find_accept_first:
  "find (\<lambda>r. JR_ID r = k) rs = Some q \<Longrightarrow>
   find (\<lambda>r. JR_ID r = k) (accept_first k rs) = Some (q\<lparr>JR_Status := ''accepted''\<rparr>)"
  by (induction rs) auto

lemma find_accept_other:
  "k' \<noteq> k \<Longrightarrow> find (\<lambda>r. JR_ID r = k') (accept_first k rs) = find (\<lambda>r. JR_ID r = k') rs"
  by (induction rs) auto

lemma HAJoinRequestForAccept_Inr:
  assumes "HAJoinRequestForAccept c j rid s = (Inr request, t)"
  obtains rs q e where "stored_requests j (s_db s) = Some rs" "find (\<lambda>r. JR_ID r = trim_space rid) rs = Some q"
    "JR_Status q = ''pending''" "decryptSecret c (secretKey s) (JR_RequesterToken q) \<noteq> ''''"
    "request = q\<lparr>JR_RequesterToken := decryptSecret c (secretKey s) (JR_RequesterToken q), JR_HasToken := True\<rparr>"
    "t = s\<lparr>s_env := e\<rparr>"
proof -
  from assms obtain rs s1 where raw: "haJoinRequestsRaw j s = (Inr rs, s1)"
    and k: "(case find (\<lambda>r. JR_ID r = trim_space rid) rs of
         None \<Rightarrow> fail (ErrMsg ''join request not found'')
       | Some r \<Rightarrow>
           if JR_Status r \<noteq> ''pending'' then fail (ErrMsg ''join request is not pending'')
           else andThen (gets secretKey) (\<lambda>key.
             let token = decryptSecret c key (JR_RequesterToken r)
             in if token = '''' then fail (ErrMsg ''join request token is unavailable'')
                else ret (r\<lparr>JR_RequesterToken := token, JR_HasToken := True\<rparr>))) s1 = (Inr request, t)"
    unfolding HAJoinRequestForAccept_def by (rule andThen_InrE)
  from k obtain q where q: "find (\<lambda>r. JR_ID r = trim_space rid) rs = Some q"
    by (cases "find (\<lambda>r. JR_ID r = trim_space rid) rs") (auto simp: fail_def)
  from haJoinRequestsRaw_found [OF raw q] obtain e where st: "stored_requests j (s_db s) = Some rs" and s1: "s1 = s\<lparr>s_env := e\<rparr>"
    by blast
  with k q show ?thesis
    by (intro that [OF st q]) (auto simp: fail_def andThen_def gets_def ret_def Let_def split: if_splits)
qed

lemma MarkHAJoinRequestAccepted_Inr:
  assumes "MarkHAJoinRequestAccepted j rid s = (Inr out, t)" and "codec_ok j"
  obtains rs q where "stored_requests j (s_db s) = Some rs" "find (\<lambda>r. JR_ID r = trim_space rid) rs = Some q"
    "JR_Status q = ''pending''" "out = shown (q\<lparr>JR_Status := ''accepted''\<rparr>)" "same_caches s t"
    "stored_requests j (s_db t) = Some (accept_first (trim_space rid) rs)"
    "t_settings (s_db t) = settings_put (''ha.join_requests'', Marshal j (accept_first (trim_space rid) rs)) (t_settings (s_db s))"
proof -
  let ?find = "\<lambda>rs. find (\<lambda>r. JR_ID r = trim_space rid) rs"
  from assms(1) obtain rs s1 where raw: "haJoinRequestsRaw j s = (Inr rs, s1)"
    and k: "(case ?find rs of
         None \<Rightarrow> fail (ErrMsg ''join request not found'')
       | Some r \<Rightarrow>
           if JR_Status r \<noteq> ''pending'' then fail (ErrMsg ''join request is not pending'')
           else andThen (saveHAJoinRequests j (accept_first (trim_space rid) rs)) (\<lambda>_.
                andThen (ignoring (Audit ''ha.join.accept'' (JR_NodeURL r) (JR_NodeName r))) (\<lambda>_.
                ret (shown (r\<lparr>JR_Status := ''accepted''\<rparr>))))) s1 = (Inr out, t)"
    unfolding MarkHAJoinRequestAccepted_def by (rule andThen_InrE)
  from k obtain q where q: "?find rs = Some q"
    by (cases "?find rs") (auto simp: fail_def)
  from haJoinRequestsRaw_found [OF raw q] obtain e where st: "stored_requests j (s_db s) = Some rs" and s1: "s1 = s\<lparr>s_env := e\<rparr>"
    by blast
  from k q have pending: "JR_Status q = ''pending''"
    and k2: "andThen (saveHAJoinRequests j (accept_first (trim_space rid) rs)) (\<lambda>_.
                andThen (ignoring (Audit ''ha.join.accept'' (JR_NodeURL q) (JR_NodeName q))) (\<lambda>_.
                ret (shown (q\<lparr>JR_Status := ''accepted''\<rparr>)))) s1 = (Inr out, t)"
    by (auto simp: fail_def split: if_splits)
  from k2 obtain s2 where save: "saveHAJoinRequests j (accept_first (trim_space rid) rs) s1 = (Inr (), s2)"
    and k3: "andThen (ignoring (Audit ''ha.join.accept'' (JR_NodeURL q) (JR_NodeName q))) (\<lambda>_.
                ret (shown (q\<lparr>JR_Status := ''accepted''\<rparr>))) s2 = (Inr out, t)"
    by (rule then_InrE)
  from k3 obtain s3 where au: "ignoring (Audit ''ha.join.accept'' (JR_NodeURL q) (JR_NodeName q)) s2 = (Inr (), s3)"
    and "ret (shown (q\<lparr>JR_Status := ''accepted''\<rparr>)) s3 = (Inr out, t)"
    by (rule then_InrE)
  then have t: "t = s3" and out: "out = shown (q\<lparr>JR_Status := ''accepted''\<rparr>)"
    by (auto simp: ret_def)
  from au obtain e3 rows where s3: "s3 = s2\<lparr>s_db := (s_db s2)\<lparr>t_audit := rows\<rparr>, s_env := e3\<rparr>"
    by (rule ignoring_Audit_cases)
  from stored_requests_saved [OF assms(2) save]
  have "stored_requests j (s_db t) = Some (accept_first (trim_space rid) rs)" "same_caches s1 s2"
    "t_settings (s_db t) = settings_put (''ha.join_requests'', Marshal j (accept_first (trim_space rid) rs)) (t_settings (s_db s))"
    by (simp_all add: t s3 s1 stored_requests_def setting_text_def)
  moreover from calculation(2) have "same_caches s t"
    unfolding t s3 s1 by (metis same_caches_trans same_caches_update)
  ultimately show ?thesis
    using st q pending out by (intro that)
qed

lemma AcceptHAJoinRequest_fails:
  assumes "\<And>rs q. stored_requests j (s_db u) = Some rs \<Longrightarrow> find (\<lambda>r. JR_ID r = trim_space rid) rs = Some q \<Longrightarrow> JR_Status q \<noteq> ''pending''"
  shows "isl (fst (AcceptHAJoinRequest c j nonce rid u)) \<and> s_db (snd (AcceptHAJoinRequest c j nonce rid u)) = s_db u"
proof -
  obtain r v where run: "HAJoinRequestForAccept c j rid u = (r, v)"
    by fastforce
  have "db_only (haJoinRequestsRaw j)"
    by (rule db_onlyI) (erule haJoinRequestsRaw_cases; simp)
  obtain e where "r = Inl e"
    using assms run by (cases r) (auto elim: HAJoinRequestForAccept_Inr)
  moreover have "s_db v = s_db u"
    using run by (cases "haJoinRequestsRaw j u")
      (auto simp: HAJoinRequestForAccept_def andThen_def gets_def fail_def ret_def Let_def elim!: haJoinRequestsRaw_cases
        split: option.splits if_splits)
  ultimately show ?thesis
    using run by (simp add: AcceptHAJoinRequest_def andThen_def)
qed

lemma setting_text_put_other:
  "t_settings d' = settings_put (k, v) (t_settings d) \<Longrightarrow> k' \<noteq> k \<Longrightarrow> setting_text k' d' = setting_text k' d"
  using setting_put_other [where k = k and k' = k' and v = v and d = d] by (simp add: setting_text_def setting_def)

lemma ha_settings_put_other:
  "t_settings d' = settings_put (''ha.join_requests'', v) (t_settings d) \<Longrightarrow> ha_settings_in c key d' = ha_settings_in c key d"
  unfolding ha_settings_in_def by (simp add: setting_text_put_other)

text \<open>
  C37. Accepting a request to join pairs the nodes once. A successful \<open>AcceptHAJoinRequest\<close> found the
  request pending, left it accepted, and made this node the enabled primary of the requester's URL with
  the requester's token; the reply carries no token. Every later attempt to accept the same request, on
  the tables it left and under any pattern of database errors, is an error and changes no table.
\<close>

theorem join_accepted_once:
  assumes "AcceptHAJoinRequest c j nonce rid s = (Inr out, t)"
    and "codec_ok j" and "cipher_ok c" and "length nonce = nonce_size" and "settings_ok (s_db s)"
  shows "\<exists>rs q token. stored_requests j (s_db s) = Some rs \<and> find (\<lambda>r. JR_ID r = trim_space rid) rs = Some q \<and>
    JR_Status q = ''pending'' \<and> token = decryptSecret c (secretKey s) (JR_RequesterToken q) \<and> token \<noteq> '''' \<and>
    stored_requests j (s_db t) = Some (accept_first (trim_space rid) rs) \<and>
    HA_Enabled (ha_settings_in c (secretKey s) (s_db t)) \<and> HA_Role (ha_settings_in c (secretKey s) (s_db t)) = ''primary'' \<and>
    HA_PeerURL (ha_settings_in c (secretKey s) (s_db t)) = trim_right (trim_space (JR_NodeURL q)) ''/'' \<and>
    (trim_space token \<noteq> '''' \<longrightarrow> HA_PeerToken (ha_settings_in c (secretKey s) (s_db t)) = trim_space token) \<and>
    out = q\<lparr>JR_Status := ''accepted'', JR_RequesterToken := '''', JR_HasToken := True\<rparr> \<and>
    (\<forall>u nonce'. s_db u = s_db t \<longrightarrow>
       isl (fst (AcceptHAJoinRequest c j nonce' rid u)) \<and> s_db (snd (AcceptHAJoinRequest c j nonce' rid u)) = s_db u)"
proof -
  let ?find = "\<lambda>rs. find (\<lambda>r. JR_ID r = trim_space rid) rs"
  let ?pair = "\<lambda>request. \<lparr>HA_Enabled = True, HA_Role = ''primary'', HA_PeerName = JR_NodeName request,
         HA_PeerURL = JR_NodeURL request, HA_PeerToken = JR_RequesterToken request, HA_HasPeerToken = False,
         HA_LastHeartbeat = '''', HA_LastSync = '''', HA_LastStatus = ''''\<rparr>"
  from assms(1) obtain request s1 where 1: "HAJoinRequestForAccept c j rid s = (Inr request, s1)"
    and r1: "andThen (SaveHASettings c nonce (?pair request)) (\<lambda>_. MarkHAJoinRequestAccepted j rid) s1 = (Inr out, t)"
    unfolding AcceptHAJoinRequest_def by (rule andThen_InrE)
  from r1 obtain saved s2 where 2: "SaveHASettings c nonce (?pair request) s1 = (Inr saved, s2)"
    and 3: "MarkHAJoinRequestAccepted j rid s2 = (Inr out, t)"
    by (rule andThen_InrE)
  obtain rs q e where st: "stored_requests j (s_db s) = Some rs" and q: "?find rs = Some q" "JR_Status q = ''pending''"
    and tok: "decryptSecret c (secretKey s) (JR_RequesterToken q) \<noteq> ''''"
    and req: "request = q\<lparr>JR_RequesterToken := decryptSecret c (secretKey s) (JR_RequesterToken q), JR_HasToken := True\<rparr>"
    and s1: "s1 = s\<lparr>s_env := e\<rparr>"
    using 1 by (rule HAJoinRequestForAccept_Inr)
  have ok1: "settings_ok (s_db s1)"
    using assms(5) by (simp add: s1)
  note eff = SaveHASettings_effect [OF 2 assms(3,4) ok1]
  then have "setting ''ha.join_requests'' (s_db s2) = setting ''ha.join_requests'' (s_db s1)"
    by auto
  then have st2: "stored_requests j (s_db s2) = Some rs"
    using st by (simp add: stored_requests_def setting_text_def s1)
  from 3 assms(2) obtain rs' q' where "stored_requests j (s_db s2) = Some rs'" "?find rs' = Some q'"
    and out: "out = shown (q'\<lparr>JR_Status := ''accepted''\<rparr>)" and same: "same_caches s2 t"
    and st3: "stored_requests j (s_db t) = Some (accept_first (trim_space rid) rs')"
    and put: "t_settings (s_db t) = settings_put (''ha.join_requests'', Marshal j (accept_first (trim_space rid) rs')) (t_settings (s_db s2))"
    by (rule MarkHAJoinRequestAccepted_Inr)
  with st2 q have eqs: "rs' = rs" "q' = q"
    by auto
  have ha: "ha_settings_in c (secretKey s) (s_db t) = ha_settings_in c (secretKey s) (s_db s2)"
    using put by (rule ha_settings_put_other)
  have key: "secretKey s1 = secretKey s"
    by (simp add: s1)
  have "isl (fst (AcceptHAJoinRequest c j nonce' rid u)) \<and> s_db (snd (AcceptHAJoinRequest c j nonce' rid u)) = s_db u"
    if "s_db u = s_db t" for u nonce'
    using find_accept_first [OF q(1)] by (intro AcceptHAJoinRequest_fails) (auto simp: that st3 eqs)
  moreover have "trim_space ''primary'' = ''primary''" "to_lower ''primary'' = ''primary''"
    by code_simp+
  ultimately show ?thesis
    using st q tok st3 eff out by (auto simp: ha eqs key req clean_ha_settings_def shown_def Let_def)
qed

lemma replace_pending_set:
  "replace_pending request rs = Some (q, rs') \<Longrightarrow>
   \<exists>r \<in> set rs. JR_NodeURL r = JR_NodeURL request \<and> JR_Status r = ''pending'' \<and> q = request\<lparr>JR_ID := JR_ID r\<rparr> \<and>
     q \<in> set rs' \<and> set rs' \<subseteq> insert q (set rs) \<and> set rs \<subseteq> insert r (set rs')"
proof (induction rs arbitrary: rs')
  case (Cons r rs)
  show ?case
  proof (cases "JR_NodeURL r = JR_NodeURL request \<and> JR_Status r = ''pending''")
    case True
    with Cons.prems show ?thesis
      by (intro bexI [of _ r]) (auto simp: Let_def)
  next
    case False
    with Cons.prems obtain rs1 where "replace_pending request rs = Some (q, rs1)" and rs': "rs' = r # rs1"
      by (auto split: if_splits)
    from Cons.IH [OF this(1)] show ?thesis
      unfolding rs' by (auto 4 3)
  qed
qed simp

text \<open>The run of a \<open>SaveHAJoinRequest\<close> that returns no error: \<open>old\<close> is what it read.\<close>

lemma SaveHAJoinRequest_Inr:
  assumes run: "SaveHAJoinRequest c j nonce rid input s = (Inr out, t)"
    and ok: "codec_ok j" "cipher_ok c" "length nonce = nonce_size"
  obtains old e q rs where "haJoinRequestsRaw j s = (Inr old, s\<lparr>s_env := e\<rparr>)" "stored_requests j (s_db t) = Some rs"
    "q \<in> set rs" "out = shown q" "JR_Status q = ''pending''" "JR_NodeURL q = JI_NodeURL (clean_join_input input)"
    "decryptSecret c (secretKey s) (JR_RequesterToken q) = JI_RequesterToken (clean_join_input input)"
    "set rs \<subseteq> insert q (set old)"
    "\<And>r. r \<in> set old \<Longrightarrow> r \<notin> set rs \<Longrightarrow> JR_NodeURL r = JI_NodeURL (clean_join_input input) \<and> JR_Status r = ''pending''"
proof -
  let ?i = "clean_join_input input"
  define mk where "mk = (\<lambda>now encrypted. \<lparr>JR_ID = rid, JR_NodeName = JI_NodeName ?i, JR_NodeURL = JI_NodeURL ?i,
                       JR_NodeIP = JI_NodeIP ?i, JR_NodeMAC = JI_NodeMAC ?i, JR_NodeHostname = JI_NodeHostname ?i,
                       JR_NodeRole = JI_NodeRole ?i, JR_NodeVersion = JI_NodeVersion ?i,
                       JR_RequestedAt = fmt_time now, JR_Status = ''pending'', JR_RequesterToken = encrypted,
                       JR_HasToken = False\<rparr>)"
  define pick where "pick = (\<lambda>request old. case replace_pending request old of Some x \<Rightarrow> x | None \<Rightarrow> (request, old @ [request]))"
  define finish where "finish = (\<lambda>q rs. andThen (saveHAJoinRequests j rs) (\<lambda>_.
                    andThen (ignoring (Audit ''ha.join.request'' (JI_NodeURL ?i) (JI_NodeName ?i))) (\<lambda>_. ret (shown q))))"
  have "join_input_error ?i = None"
    using run by (auto simp: SaveHAJoinRequest_def Let_def fail_def split: option.splits)
  have "andThen (haJoinRequestsRaw j) (\<lambda>requests. andThen time_now (\<lambda>now. andThen (gets secretKey) (\<lambda>key.
      case encryptSecret c key nonce (JI_RequesterToken ?i) of Inl e \<Rightarrow> fail e
      | Inr encrypted \<Rightarrow> case pick (mk now encrypted) requests of (q, rs) \<Rightarrow> finish q rs))) s = (Inr out, t)"
    using run \<open>join_input_error ?i = None\<close> unfolding SaveHAJoinRequest_def Let_def mk_def pick_def finish_def by simp
  then obtain old s1 where raw: "haJoinRequestsRaw j s = (Inr old, s1)" and
    k1: "andThen time_now (\<lambda>now. andThen (gets secretKey) (\<lambda>key.
      case encryptSecret c key nonce (JI_RequesterToken ?i) of Inl e \<Rightarrow> fail e
      | Inr encrypted \<Rightarrow> case pick (mk now encrypted) old of (q, rs) \<Rightarrow> finish q rs)) s1 = (Inr out, t)"
    by (rule andThen_InrE)
  from raw obtain e where s1: "s1 = s\<lparr>s_env := e\<rparr>"
    by (cases rule: haJoinRequestsRaw_cases) auto
  from k1 obtain now s2 where tn: "time_now s1 = (Inr now, s2)" and
    k2: "andThen (gets secretKey) (\<lambda>key.
      case encryptSecret c key nonce (JI_RequesterToken ?i) of Inl e \<Rightarrow> fail e
      | Inr encrypted \<Rightarrow> case pick (mk now encrypted) old of (q, rs) \<Rightarrow> finish q rs) s2 = (Inr out, t)"
    by (rule andThen_InrE)
  from tn obtain e2 where s2: "s2 = s\<lparr>s_env := e2\<rparr>"
    by (cases rule: time_now_cases) (simp add: s1)
  from k2 obtain enc where enc: "encryptSecret c (secretKey s) nonce (JI_RequesterToken ?i) = Inr enc" and
    k3: "(case pick (mk now enc) old of (q, rs) \<Rightarrow> finish q rs) s2 = (Inr out, t)"
    by (auto simp: andThen_def gets_def fail_def s2 split: sum.splits)
  obtain q rs where p: "pick (mk now enc) old = (q, rs)"
    by fastforce
  have "finish q rs s2 = (Inr out, t)"
    using k3 by (simp add: p)
  then obtain s3 where save: "saveHAJoinRequests j rs s2 = (Inr (), s3)"
    and k4: "andThen (ignoring (Audit ''ha.join.request'' (JI_NodeURL ?i) (JI_NodeName ?i))) (\<lambda>_. ret (shown q)) s3 = (Inr out, t)"
    unfolding finish_def by (rule then_InrE)
  from k4 obtain s4 where au: "ignoring (Audit ''ha.join.request'' (JI_NodeURL ?i) (JI_NodeName ?i)) s3 = (Inr (), s4)"
    and "ret (shown q) s4 = (Inr out, t)"
    by (rule then_InrE)
  then have out: "out = shown q" and t: "t = s4"
    by (auto simp: ret_def)
  from au obtain e4 rows where "s4 = s3\<lparr>s_db := (s_db s3)\<lparr>t_audit := rows\<rparr>, s_env := e4\<rparr>"
    by (rule ignoring_Audit_cases)
  with stored_requests_saved [OF ok(1) save] have st: "stored_requests j (s_db t) = Some rs"
    by (simp add: t stored_requests_def setting_text_def)
  have q: "JR_Status q = ''pending'' \<and> JR_NodeURL q = JI_NodeURL ?i \<and> JR_RequesterToken q = enc \<and> q \<in> set rs \<and>
      set rs \<subseteq> insert q (set old) \<and> (\<forall>r \<in> set old. r \<notin> set rs \<longrightarrow> JR_NodeURL r = JI_NodeURL ?i \<and> JR_Status r = ''pending'')"
  proof (cases "replace_pending (mk now enc) old")
    case None
    with p show ?thesis
      by (auto simp: pick_def mk_def)
  next
    case (Some x)
    with p have "replace_pending (mk now enc) old = Some (q, rs)"
      by (simp add: pick_def)
    from replace_pending_set [OF this] obtain r where "JR_NodeURL r = JI_NodeURL ?i" "JR_Status r = ''pending''"
      "q = (mk now enc)\<lparr>JR_ID := JR_ID r\<rparr>" "q \<in> set rs" "set rs \<subseteq> insert q (set old)" "set old \<subseteq> insert r (set rs)"
      by (auto simp: mk_def)
    then show ?thesis
      by (auto simp: mk_def)
  qed
  moreover have "decryptSecret c (secretKey s) enc = JI_RequesterToken ?i"
    using decrypt_encrypted [OF ok(2,3) enc] by (simp add: clean_join_input_def Let_def)
  ultimately show ?thesis
    using raw st out by (intro that) (auto simp: s1)
qed

text \<open>
  A request to join is stored without disturbing the others. With a database that answers, a
  successful \<open>SaveHAJoinRequest\<close> leaves the request pending with its token recoverable under the key,
  removes no request but a pending one of the same node, which it replaces, and adds no other.
\<close>

lemma SaveHAJoinRequest_keeps_others:
  assumes "SaveHAJoinRequest c j nonce rid input s = (Inr out, t)"
    and "codec_ok j" and "cipher_ok c" and "length nonce = nonce_size"
    and "faults (s_env s) = []" and "stored_requests j (s_db s) = Some old"
  shows "\<exists>rs q. stored_requests j (s_db t) = Some rs \<and> q \<in> set rs \<and> out = shown q \<and> JR_Status q = ''pending'' \<and>
    decryptSecret c (secretKey s) (JR_RequesterToken q) = trim_space (JI_RequesterToken input) \<and>
    set rs \<subseteq> insert q (set old) \<and>
    (\<forall>r \<in> set old. r \<in> set rs \<or> JR_Status r = ''pending'' \<and> JR_NodeURL r = JR_NodeURL q)"
proof -
  from assms(1-4) obtain old' e q rs where raw: "haJoinRequestsRaw j s = (Inr old', s\<lparr>s_env := e\<rparr>)" and
    *: "stored_requests j (s_db t) = Some rs" "q \<in> set rs" "out = shown q" "JR_Status q = ''pending''"
    "JR_NodeURL q = JI_NodeURL (clean_join_input input)"
    "decryptSecret c (secretKey s) (JR_RequesterToken q) = JI_RequesterToken (clean_join_input input)"
    "set rs \<subseteq> insert q (set old')"
    "\<And>r. r \<in> set old' \<Longrightarrow> r \<notin> set rs \<Longrightarrow> JR_NodeURL r = JI_NodeURL (clean_join_input input) \<and> JR_Status r = ''pending''"
    by (rule SaveHAJoinRequest_Inr) blast
  have "old' = old"
    using raw haJoinRequestsRaw_working [OF assms(5,6)] by simp
  moreover have "JI_RequesterToken (clean_join_input input) = trim_space (JI_RequesterToken input)"
    by (simp add: clean_join_input_def Let_def)
  ultimately show ?thesis
    using * by auto
qed

text \<open>
  C38. A failed read loses every request to join. When the read of the requests fails, \<open>haJoinRequestsRaw\<close>
  reports none and no error, so a \<open>SaveHAJoinRequest\<close> that then succeeds leaves its own request as the
  only one, whatever was stored before.
\<close>

theorem join_requests_lost:
  assumes "SaveHAJoinRequest c j nonce rid input s = (Inr out, t)"
    and "codec_ok j" and "cipher_ok c" and "length nonce = nonce_size"
    and "faults (s_env s) = True # later"
  shows "haJoinRequestsRaw j s = (Inr [], s\<lparr>s_env := (s_env s)\<lparr>faults := later\<rparr>\<rparr>) \<and>
    (\<exists>rs q. stored_requests j (s_db t) = Some rs \<and> set rs = {q} \<and> out = shown q)"
proof -
  have "haJoinRequestsRaw j s = (Inr [], s\<lparr>s_env := (s_env s)\<lparr>faults := later\<rparr>\<rparr>)"
    using assms(5) by (simp add: haJoinRequestsRaw_def query_row_def exec_db_def db_call_def)
  moreover from assms(1-4) obtain old e q rs where "haJoinRequestsRaw j s = (Inr old, s\<lparr>s_env := e\<rparr>)"
    "stored_requests j (s_db t) = Some rs" "q \<in> set rs" "out = shown q" "set rs \<subseteq> insert q (set old)"
    by (rule SaveHAJoinRequest_Inr) blast
  ultimately show ?thesis
    by auto
qed

section \<open>With a database that answers\<close>

lemma encrypt_works: "aes_key key \<Longrightarrow> \<exists>enc. encryptSecret c key nonce v = Inr enc"
  by (simp add: encryptSecret_def Let_def)

lemma works_then: "m s = (Inr a, s1) \<Longrightarrow> faults (s_env s1) = [] \<Longrightarrow> works (k a) \<Longrightarrow>
    \<exists>b t. andThen m k s = (Inr b, t) \<and> faults (s_env t) = []"
  by (simp add: works_def andThen_def)

lemma works_saveHAJoinRequests [keeps_intro]: "works (saveHAJoinRequests j rs)"
  unfolding saveHAJoinRequests_def setSetting_def by (intro keeps_intro)

lemma SaveHASettings_works:
  assumes "HA_Role (clean_ha_settings h) \<in> {''primary'', ''secondary''}"
    and "HA_PeerURL (clean_ha_settings h) = '''' \<or> full_url (HA_PeerURL (clean_ha_settings h))"
    and "aes_key (secretKey s)" and "faults (s_env s) = []"
  shows "\<exists>out t. SaveHASettings c nonce h s = (Inr out, t) \<and> faults (s_env t) = []"
proof -
  let ?h = "clean_ha_settings h"
  let ?body = "andThen (gets secretKey) (\<lambda>key. case ha_pairs c nonce key ?h of Inl e \<Rightarrow> fail e | Inr pairs \<Rightarrow> put_settings pairs)"
  let ?rest = "andThen (ignoring (Audit ''ha.settings'' (HA_PeerURL ?h) ((''enabled='' @ bool_text (HA_Enabled ?h)) @ '' role='' @ HA_Role ?h)))
      (\<lambda>_. andThen (get_HASettings c) (\<lambda>out. ret (out\<lparr>HA_PeerToken := ''''\<rparr>)))"
  obtain pairs where "ha_pairs c nonce (secretKey s) ?h = Inr pairs"
    using encrypt_works [OF assms(3), of c nonce "HA_PeerToken ?h"]
    by (cases "HA_PeerToken ?h = ''''") (auto simp: ha_pairs_def Let_def)
  moreover have "works (put_settings pairs)"
    by (intro keeps_intro)
  ultimately obtain u where "?body s = (Inr (), u)" and "faults (s_env u) = []"
    using assms(4) by (auto simp: works_def andThen_def gets_def)
  then have "transaction ?body s = (Inr (), u)"
    using assms(4) by (simp add: transaction_def db_call_def)
  moreover have "works ?rest"
    by (intro keeps_intro)
  ultimately have "\<exists>out t. andThen (transaction ?body) (\<lambda>_. ?rest) s = (Inr out, t) \<and> faults (s_env t) = []"
    using \<open>faults (s_env u) = []\<close> by (intro works_then)
  moreover have "SaveHASettings c nonce h s = andThen (transaction ?body) (\<lambda>_. ?rest) s"
    using assms(1,2) by (auto simp: SaveHASettings_def Let_def)
  ultimately show ?thesis
    by simp
qed

lemma SaveHAJoinRequest_works:
  assumes "join_input_error (clean_join_input input) = None" and "haJoinRequestsRaw j s = (Inr old, s1)"
    and "aes_key (secretKey s1)" and "faults (s_env s1) = []"
  shows "\<exists>out t. SaveHAJoinRequest c j nonce rid input s = (Inr out, t) \<and> faults (s_env t) = []"
proof -
  let ?i = "clean_join_input input"
  obtain enc where enc: "encryptSecret c (secretKey s1) nonce (JI_RequesterToken ?i) = Inr enc"
    using encrypt_works [OF assms(3)] by blast
  from works_time_now assms(4) obtain now s2 where tn: "time_now s1 = (Inr now, s2)" and f2: "faults (s_env s2) = []"
    by (rule worksE)
  from tn have key: "secretKey s2 = secretKey s1"
    by (cases rule: time_now_cases) auto
  have works: "works (andThen (saveHAJoinRequests j rs) (\<lambda>_.
      andThen (ignoring (Audit ''ha.join.request'' (JI_NodeURL ?i) (JI_NodeName ?i))) (\<lambda>_. ret (shown q))))" for rs q
    by (intro keeps_intro)
  show ?thesis
    using assms(1,2,4) tn f2 key enc works
    by (simp add: SaveHAJoinRequest_def andThen_def [of "haJoinRequestsRaw j"] andThen_def [of time_now] andThen_def [of "gets secretKey"]
        gets_def Let_def works_def split: prod.split)
qed

lemma AcceptHAJoinRequest_works:
  assumes "stored_requests j (s_db s) = Some rs" and "find (\<lambda>r. JR_ID r = trim_space rid) rs = Some q"
    and "JR_Status q = ''pending''" and "decryptSecret c (secretKey s) (JR_RequesterToken q) \<noteq> ''''"
    and "full_url (trim_right (trim_space (JR_NodeURL q)) ''/'')" and "aes_key (secretKey s)"
    and "faults (s_env s) = []" and "settings_ok (s_db s)" and "cipher_ok c" and "length nonce = nonce_size"
  shows "\<exists>out t. AcceptHAJoinRequest c j nonce rid s = (Inr out, t)"
proof -
  let ?q = "q\<lparr>JR_RequesterToken := decryptSecret c (secretKey s) (JR_RequesterToken q), JR_HasToken := True\<rparr>"
  let ?pair = "\<lparr>HA_Enabled = True, HA_Role = ''primary'', HA_PeerName = JR_NodeName ?q,
         HA_PeerURL = JR_NodeURL ?q, HA_PeerToken = JR_RequesterToken ?q, HA_HasPeerToken = False,
         HA_LastHeartbeat = '''', HA_LastSync = '''', HA_LastStatus = ''''\<rparr>"
  have 1: "HAJoinRequestForAccept c j rid s = (Inr ?q, s)"
    using haJoinRequestsRaw_working [OF assms(7,1)] assms(2-4)
    by (simp add: HAJoinRequestForAccept_def andThen_def gets_def ret_def Let_def)
  have "trim_space ''primary'' = ''primary''" "to_lower ''primary'' = ''primary''"
    by code_simp+
  then have "\<exists>out t. SaveHASettings c nonce ?pair s = (Inr out, t) \<and> faults (s_env t) = []"
    using assms(5-7) by (intro SaveHASettings_works) (simp_all add: clean_ha_settings_def)
  then obtain saved s2 where 2: "SaveHASettings c nonce ?pair s = (Inr saved, s2)" and f: "faults (s_env s2) = []"
    by blast
  from SaveHASettings_effect [OF 2 assms(9,10,8)]
  have "setting ''ha.join_requests'' (s_db s2) = setting ''ha.join_requests'' (s_db s)"
    by auto
  with assms(1) have "stored_requests j (s_db s2) = Some rs"
    by (simp add: stored_requests_def setting_text_def)
  from haJoinRequestsRaw_working [OF f this] have raw: "haJoinRequestsRaw j s2 = (Inr rs, s2)" .
  have "works (andThen (saveHAJoinRequests j (accept_first (trim_space rid) rs)) (\<lambda>_.
                andThen (ignoring (Audit ''ha.join.accept'' (JR_NodeURL q) (JR_NodeName q))) (\<lambda>_.
                ret (shown (q\<lparr>JR_Status := ''accepted''\<rparr>)))))"
    by (intro keeps_intro)
  with f obtain out t where "MarkHAJoinRequestAccepted j rid s2 = (Inr out, t)"
    using assms(2,3) by (auto simp: MarkHAJoinRequestAccepted_def andThen_def [of "haJoinRequestsRaw j"] raw works_def)
  then have "AcceptHAJoinRequest c j nonce rid s = (Inr out, t)"
    by (simp only: AcceptHAJoinRequest_def andThen_def 1 2 prod.case sum.case)
  then show ?thesis
    by blast
qed

section \<open>The properties at a concrete input\<close>

text \<open>
  A codec to try the operations on: each field with its characters escaped and a comma after it, a
  request as one field of such fields.
\<close>

definition enc_field :: "string \<Rightarrow> string" where
  "enc_field s = concat (map (\<lambda>c. [CHR ''.'', c]) s) @ '',''"

fun dec_fields :: "string \<Rightarrow> string \<Rightarrow> string list option" where
  "dec_fields acc [] = Some []"
| "dec_fields acc [x] = (if x = CHR '','' then Some [rev acc] else None)"
| "dec_fields acc (x # c # s) =
     (if x = CHR '','' then map_option ((#) (rev acc)) (dec_fields [] (c # s)) else dec_fields (c # acc) s)"

definition request_fields :: "HAJoinRequest \<Rightarrow> string list" where
  "request_fields r = [JR_ID r, JR_NodeName r, JR_NodeURL r, JR_NodeIP r, JR_NodeMAC r, JR_NodeHostname r, JR_NodeRole r,
     JR_NodeVersion r, JR_RequestedAt r, JR_Status r, JR_RequesterToken r, bool_text (JR_HasToken r)]"

definition request_of_fields :: "string list \<Rightarrow> HAJoinRequest" where
  "request_of_fields f = \<lparr>JR_ID = f ! 0, JR_NodeName = f ! 1, JR_NodeURL = f ! 2, JR_NodeIP = f ! 3, JR_NodeMAC = f ! 4,
     JR_NodeHostname = f ! 5, JR_NodeRole = f ! 6, JR_NodeVersion = f ! 7, JR_RequestedAt = f ! 8, JR_Status = f ! 9,
     JR_RequesterToken = f ! 10, JR_HasToken = (f ! 11 = ''true'')\<rparr>"

definition toy_codec :: request_codec where
  "toy_codec = \<lparr>
     Marshal = (\<lambda>rs. CHR ''['' # concat (map (\<lambda>r. enc_field (concat (map enc_field (request_fields r)))) rs)),
     Unmarshal = (\<lambda>s. case dec_fields '''' (drop 1 s) of None \<Rightarrow> None
       | Some fs \<Rightarrow> Some (map (\<lambda>f. request_of_fields (case dec_fields '''' f of None \<Rightarrow> [] | Some g \<Rightarrow> g)) fs))\<rparr>"

lemma dec_comma: "dec_fields acc (CHR '','' # s) = map_option ((#) (rev acc)) (dec_fields [] s)"
  by (cases s) simp_all

lemma dec_enc_field: "dec_fields acc (enc_field f @ s) = map_option ((#) (rev acc @ f)) (dec_fields [] s)"
proof (induction f arbitrary: acc)
  case Nil
  then show ?case
    by (simp add: enc_field_def dec_comma)
next
  case (Cons c f)
  have "dec_fields acc (enc_field (c # f) @ s) = dec_fields (c # acc) (enc_field f @ s)"
    by (simp add: enc_field_def)
  with Cons show ?case
    by simp
qed

lemma dec_enc_fields: "dec_fields [] (concat (map (\<lambda>x. enc_field (g x)) xs)) = Some (map g xs)"
proof (induction xs)
  case (Cons x xs)
  then show ?case
    using dec_enc_field [of "[]" "g x" "concat (map (\<lambda>x. enc_field (g x)) xs)"] by simp
qed simp

lemma toy_codec_ok: "codec_ok toy_codec"
proof -
  have "request_of_fields (request_fields r) = r" for r
    by (cases r) (simp add: request_of_fields_def request_fields_def bool_text_true)
  moreover have "dec_fields [] (concat (map enc_field fs)) = Some fs" for fs
    using dec_enc_fields [of "\<lambda>x. x" fs] by simp
  moreover have "\<not> is_space CHR ''[''"
    by (simp add: is_space_def)
  then have "trim_space (CHR ''['' # s) \<noteq> ''''" for s
    by (simp add: trim_space_def dropWhile_eq_Nil_conv)
  ultimately show ?thesis
    by (simp add: codec_ok_def toy_codec_def dec_enc_fields o_def)
qed

definition keyed_store :: "db \<Rightarrow> store" where
  "keyed_store d = (sample_store d)\<lparr>secretKey := replicate 32 CHR ''k''\<rparr>"

lemma keyed_store_simps [simp]:
  "s_db (keyed_store d) = d" "s_env (keyed_store d) = \<lparr>faults = [], clock = 0, readings = []\<rparr>"
  "aes_key (secretKey (keyed_store d))"
  by (simp_all add: keyed_store_def aes_key_def)

definition sample_nonce :: string where
  "sample_nonce = replicate 12 CHR ''n''"

lemma sample_nonce_size: "length sample_nonce = nonce_size"
  by (simp add: sample_nonce_def nonce_size_def)

definition sample_input :: HAJoinRequestInput where
  "sample_input = \<lparr>JI_NodeName = '''', JI_NodeURL = ''http://10.0.0.1/'', JI_NodeIP = ''10.0.0.1'', JI_NodeMAC = '''',
     JI_NodeHostname = '''', JI_NodeRole = '''', JI_NodeVersion = '''', JI_RequesterToken = '' token ''\<rparr>"

lemma sample_scheme: "getScheme ''http://10.0.0.1'' = Some (''http'', ''//10.0.0.1'')"
proof -
  have chars: "alpha CHR ''h''" "alpha CHR ''t''" "alpha CHR ''p''" "\<not> alpha CHR '':''" "\<not> is_digit CHR '':''"
    by (simp_all add: alpha_def lower_char_def is_digit_def)
  then have "index_where (\<lambda>c. \<not> alpha c \<and> \<not> is_digit c \<and> c \<notin> set ''+-.'') ''http://10.0.0.1'' = Some 4"
    unfolding index_where.simps by simp
  with chars(1) show ?thesis
    unfolding getScheme_def by simp
qed

lemma sample_url_parts:
  "cut_at ''http://10.0.0.1'' CHR ''#'' = ''http://10.0.0.1''" "list_ex ctl_byte ''http://10.0.0.1'' = False"
  "cut_at ''//10.0.0.1'' CHR ''?'' = ''//10.0.0.1''" "cut_at ''10.0.0.1'' CHR ''/'' = ''10.0.0.1''"
  "parseAuthority ''10.0.0.1'' = Some ''10.0.0.1''" "to_lower ''http'' = ''http''"
  "has_prefix ''//10.0.0.1'' ''/''" "has_prefix ''//10.0.0.1'' ''//''" "has_prefix ''//10.0.0.1'' ''///'' = False"
  by code_simp+

lemma sample_url: "full_url ''http://10.0.0.1''"
  unfolding full_url_def url_Parse_def Let_def sample_url_parts sample_scheme option.case prod.case
  by (simp add: sample_url_parts)

lemma sample_input_ok: "join_input_error (clean_join_input sample_input) = None"
proof -
  have url: "trim_right (trim_space ''http://10.0.0.1/'') ''/'' = ''http://10.0.0.1''" and
    role: "to_lower (trim_space '''') = ''''" and token: "trim_space '' token '' = ''token''"
    by code_simp+
  then show ?thesis
    using sample_url by (simp add: join_input_error_def clean_join_input_def sample_input_def Let_def)
qed

lemma no_requests: "stored_requests j empty_db = Some []" "settings_ok empty_db"
  by (simp_all add: stored_requests_def setting_text_def setting_def settings_ok_def empty_db_def trim_space_def)

lemma sample_join:
  "\<exists>out t. SaveHAJoinRequest toy_cipher toy_codec sample_nonce ''id'' sample_input (keyed_store empty_db) = (Inr out, t)"
proof -
  have "haJoinRequestsRaw toy_codec (keyed_store empty_db) = (Inr [], keyed_store empty_db)"
    by (rule haJoinRequestsRaw_working) (simp_all add: no_requests)
  from SaveHAJoinRequest_works [OF sample_input_ok this, of toy_cipher sample_nonce "''id''"] show ?thesis
    by auto
qed

lemma SaveHAJoinRequest_keeps_others_witness:
  "\<exists>out t rs q. SaveHAJoinRequest toy_cipher toy_codec sample_nonce ''id'' sample_input (keyed_store empty_db) = (Inr out, t) \<and>
     stored_requests toy_codec (s_db t) = Some rs \<and> set rs = {q} \<and>
     decryptSecret toy_cipher (secretKey (keyed_store empty_db)) (JR_RequesterToken q) = ''token''"
proof -
  obtain out t where run: "SaveHAJoinRequest toy_cipher toy_codec sample_nonce ''id'' sample_input (keyed_store empty_db) = (Inr out, t)"
    using sample_join by blast
  have "faults (s_env (keyed_store empty_db)) = []" "stored_requests toy_codec (s_db (keyed_store empty_db)) = Some []"
    by (simp_all add: no_requests)
  from SaveHAJoinRequest_keeps_others [OF run toy_codec_ok toy_cipher_ok sample_nonce_size this]
  obtain rs q where "stored_requests toy_codec (s_db t) = Some rs" "set rs = {q}"
    "decryptSecret toy_cipher (secretKey (keyed_store empty_db)) (JR_RequesterToken q) = trim_space (JI_RequesterToken sample_input)"
    by auto
  moreover have "trim_space (JI_RequesterToken sample_input) = ''token''"
    by code_simp
  ultimately show ?thesis
    using run by auto
qed

lemma join_requests_lost_witness:
  "\<exists>out t rs q. SaveHAJoinRequest toy_cipher toy_codec sample_nonce ''id'' sample_input
       ((keyed_store empty_db)\<lparr>s_env := \<lparr>faults = [True], clock = 0, readings = []\<rparr>\<rparr>) = (Inr out, t) \<and>
     stored_requests toy_codec (s_db t) = Some rs \<and> set rs = {q}"
proof -
  let ?s = "(keyed_store empty_db)\<lparr>s_env := \<lparr>faults = [True], clock = 0, readings = []\<rparr>\<rparr>"
  have "haJoinRequestsRaw toy_codec ?s = (Inr [], keyed_store empty_db)"
    by (simp add: haJoinRequestsRaw_def query_row_def exec_db_def db_call_def)
  from SaveHAJoinRequest_works [OF sample_input_ok this, of toy_cipher sample_nonce "''id''"]
  obtain out t where run: "SaveHAJoinRequest toy_cipher toy_codec sample_nonce ''id'' sample_input ?s = (Inr out, t)"
    by auto
  have "faults (s_env ?s) = True # []"
    by simp
  from join_requests_lost [OF run toy_codec_ok toy_cipher_ok sample_nonce_size this] run show ?thesis
    by auto
qed

lemma join_accepted_once_witness:
  "\<exists>d out t u. settings_ok d \<and> AcceptHAJoinRequest toy_cipher toy_codec sample_nonce ''id'' (keyed_store d) = (Inr out, t) \<and>
     JR_Status out = ''accepted'' \<and> HA_Enabled (ha_settings_in toy_cipher (secretKey (keyed_store d)) (s_db t)) \<and>
     isl (fst (AcceptHAJoinRequest toy_cipher toy_codec sample_nonce ''id'' t))"
proof -
  define enc where "enc = ''enc:v1:'' @ EncodeToString (sample_nonce @ Seal toy_cipher (replicate 32 CHR ''k'') sample_nonce ''token'')"
  have token: "trim_space ''token'' = ''token''" and i: "trim_space ''id'' = ''id''" and
    url: "trim_right (trim_space ''http://10.0.0.1'') ''/'' = ''http://10.0.0.1''"
    by code_simp+
  have key: "aes_key (replicate 32 CHR ''k'')" "secretKey (keyed_store d) = replicate 32 CHR ''k''" for d
    by (simp_all add: aes_key_def keyed_store_def)
  have "encryptSecret toy_cipher (replicate 32 CHR ''k'') sample_nonce ''token'' = Inr enc"
    by (simp add: encryptSecret_def token key enc_def)
  from decrypt_encrypted [OF toy_cipher_ok sample_nonce_size this] token
  have dec: "decryptSecret toy_cipher (replicate 32 CHR ''k'') enc = ''token''"
    by simp
  define q where "q = \<lparr>JR_ID = ''id'', JR_NodeName = '''', JR_NodeURL = ''http://10.0.0.1'', JR_NodeIP = '''', JR_NodeMAC = '''',
     JR_NodeHostname = '''', JR_NodeRole = '''', JR_NodeVersion = '''', JR_RequestedAt = '''', JR_Status = ''pending'',
     JR_RequesterToken = enc, JR_HasToken = False\<rparr>"
  define d where "d = empty_db\<lparr>t_settings := [(''ha.join_requests'', Marshal toy_codec [q])]\<rparr>"
  have ok: "settings_ok d" and st: "stored_requests toy_codec (s_db (keyed_store d)) = Some [q]"
    using toy_codec_ok by (simp_all add: d_def settings_ok_def stored_requests_def setting_text_def setting_def codec_ok_def)
  have "\<exists>out t. AcceptHAJoinRequest toy_cipher toy_codec sample_nonce ''id'' (keyed_store d) = (Inr out, t)"
    by (rule AcceptHAJoinRequest_works [OF st, of _ q])
      (simp_all add: q_def i key dec url sample_url ok toy_cipher_ok sample_nonce_size)
  then obtain out t where run: "AcceptHAJoinRequest toy_cipher toy_codec sample_nonce ''id'' (keyed_store d) = (Inr out, t)"
    by blast
  have "settings_ok (s_db (keyed_store d))"
    using ok by simp
  from join_accepted_once [OF run toy_codec_ok toy_cipher_ok sample_nonce_size this] ok run show ?thesis
    by fastforce
qed

lemma SaveHASettings_reads_back_witness:
  "\<exists>out t. SaveHASettings toy_cipher sample_nonce \<lparr>HA_Enabled = True, HA_Role = '' Secondary '', HA_PeerName = '''',
       HA_PeerURL = ''http://10.0.0.1/'', HA_PeerToken = ''token'', HA_HasPeerToken = False, HA_LastHeartbeat = '''',
       HA_LastSync = '''', HA_LastStatus = ''''\<rparr> (keyed_store empty_db) = (Inr out, t) \<and> HA_PeerToken out = '''' \<and>
     map_sum id HA_PeerToken (fst (get_HASettings toy_cipher (t\<lparr>s_env := \<lparr>faults = [], clock = 0, readings = []\<rparr>\<rparr>))) = Inr ''token''"
proof -
  let ?h = "\<lparr>HA_Enabled = True, HA_Role = '' Secondary '', HA_PeerName = '''',
       HA_PeerURL = ''http://10.0.0.1/'', HA_PeerToken = ''token'', HA_HasPeerToken = False, HA_LastHeartbeat = '''',
       HA_LastSync = '''', HA_LastStatus = ''''\<rparr>"
  have clean: "to_lower (trim_space '' Secondary '') = ''secondary''" "trim_right (trim_space ''http://10.0.0.1/'') ''/'' = ''http://10.0.0.1''"
    "trim_space ''token'' = ''token''"
    by code_simp+
  have "\<exists>out t. SaveHASettings toy_cipher sample_nonce ?h (keyed_store empty_db) = (Inr out, t) \<and> faults (s_env t) = []"
    by (rule SaveHASettings_works) (simp_all add: clean_ha_settings_def clean sample_url)
  then obtain out t where run: "SaveHASettings toy_cipher sample_nonce ?h (keyed_store empty_db) = (Inr out, t)"
    by blast
  let ?u = "t\<lparr>s_env := \<lparr>faults = [], clock = 0, readings = []\<rparr>\<rparr>"
  have ok: "settings_ok (s_db (keyed_store empty_db))"
    by (simp add: no_requests)
  have "secretKey ?u = secretKey (keyed_store empty_db)"
    using SaveHASettings_effect [OF run toy_cipher_ok sample_nonce_size ok] by simp
  from SaveHASettings_reads_back [OF run toy_cipher_ok sample_nonce_size ok _ this] run show ?thesis
    by (simp add: clean_ha_settings_def clean Let_def)
qed

end
