(* ===== verification/Store_Static.thy ===== *)
theory Store_Static
  imports Store_Base
begin

text \<open>
  Static records: \<open>StaticRecords\<close>, \<open>UpsertStaticRecord\<close> and \<open>invalidateStaticCache\<close> of
  internal/store/store.go, the table behind them and the cache in front of it.
\<close>

definition select_static :: "db \<Rightarrow> static_row list" where
  \<comment> \<open>\<open>SELECT ... FROM static_records ORDER BY name, type\<close>\<close>
  "select_static d = sort_key (\<lambda>r. (sr_name r, sr_type r)) (t_static d)"

definition scan_static :: "static_row \<Rightarrow> StaticRecord" where
  "scan_static r = \<lparr>SR_ID = sr_id r, SR_Name = sr_name r, SR_Type = sr_type r,
     SR_Value = sr_value r, SR_TTL = sr_ttl r, SR_CreatedAt = parse_or_zero (sr_created_at r)\<rparr>"

definition static_view :: "store \<Rightarrow> StaticRecord list" where
  "static_view s = map scan_static (select_static (s_db s))"

definition StaticRecords :: "(store, StaticRecord list) comp" where
  "StaticRecords s =
     (if staticLoaded s then (Inr (staticCache s), s)
      else (case query_db (\<lambda>d. map scan_static (select_static d)) s of
              (Inl e, s') \<Rightarrow> (Inl e, s')
            | (Inr records, s') \<Rightarrow>
                (Inr records, s'\<lparr>staticCache := records, staticLoaded := True\<rparr>)))"

definition invalidateStaticCache :: "store \<Rightarrow> store" where
  "invalidateStaticCache s = s\<lparr>staticLoaded := False, staticCache := []\<rparr>"

text \<open>The statement \<open>INSERT INTO static_records ... ON CONFLICT(name, type) DO UPDATE SET value, ttl\<close>.\<close>

record static_args =
  sa_name :: string
  sa_type :: string
  sa_value :: string
  sa_ttl :: int
  sa_now :: string

definition static_key :: "static_row \<Rightarrow> string \<times> string" where
  "static_key r = (sr_name r, sr_type r)"

definition static_put :: "static_args \<Rightarrow> static_row list \<Rightarrow> static_row list" where
  "static_put n rows =
     upsert (\<lambda>r. sr_name r = sa_name n \<and> sr_type r = sa_type n)
       (\<lambda>r. r\<lparr>sr_value := sa_value n, sr_ttl := sa_ttl n\<rparr>)
       \<lparr>sr_id = next_rowid (map sr_id rows), sr_name = sa_name n, sr_type = sa_type n,
        sr_value = sa_value n, sr_ttl = sa_ttl n, sr_created_at = sa_now n\<rparr>
       rows"

definition UpsertStaticRecord :: "StaticRecord \<Rightarrow> (store, unit) comp" where
  "UpsertStaticRecord r =
     (let name = NormalizeName (SR_Name r);
          recordType = to_upper (trim_space (SR_Type r))
      in if name = '''' \<or> recordType = '''' \<or> trim_space (SR_Value r) = ''''
         then fail (ErrMsg ''name, type, and value are required'')
         else (let ttl = (if SR_TTL r \<le> 0 then 60 else SR_TTL r)
               in andThen time_now (\<lambda>now.
                  andThen (exec_stmt (\<lambda>d. d\<lparr>t_static := static_put
                     \<lparr>sa_name = name, sa_type = recordType, sa_value = trim_space (SR_Value r),
                      sa_ttl = ttl, sa_now = fmt_time now\<rparr> (t_static d)\<rparr>))
                  (\<lambda>_. modify invalidateStaticCache))))"

section \<open>The table\<close>

text \<open>What every row the program writes satisfies, and the two uniqueness constraints.\<close>

definition static_row_ok :: "static_row \<Rightarrow> bool" where
  "static_row_ok r \<longleftrightarrow> has_suffix (sr_name r) ''.'' \<and> to_lower (sr_name r) = sr_name r \<and>
     sr_type r \<noteq> '''' \<and> to_upper (sr_type r) = sr_type r \<and> sr_value r \<noteq> '''' \<and> 0 < sr_ttl r"

definition static_table_ok :: "static_row list \<Rightarrow> bool" where
  "static_table_ok rows \<longleftrightarrow> distinct (map sr_id rows) \<and> distinct (map static_key rows) \<and>
     (\<forall>r \<in> set rows. static_row_ok r)"

interpretation static_table: keyed_upsert_id static_key "\<lambda>n. (sa_name n, sa_type n)"
  "\<lambda>n r. r\<lparr>sr_value := sa_value n, sr_ttl := sa_ttl n\<rparr>"
  "\<lambda>n rows. \<lparr>sr_id = next_rowid (map sr_id rows), sr_name = sa_name n, sr_type = sa_type n,
      sr_value = sa_value n, sr_ttl = sa_ttl n, sr_created_at = sa_now n\<rparr>"
  static_put sr_id
  by unfold_locales (simp_all add: static_put_def static_key_def)

definition static_args_ok :: "static_args \<Rightarrow> bool" where
  "static_args_ok n \<longleftrightarrow> has_suffix (sa_name n) ''.'' \<and> to_lower (sa_name n) = sa_name n \<and>
     sa_type n \<noteq> '''' \<and> to_upper (sa_type n) = sa_type n \<and> sa_value n \<noteq> '''' \<and> 0 < sa_ttl n"

lemma static_put_ok:
  assumes "static_table_ok rows" and "static_args_ok n"
  shows "static_table_ok (static_put n rows)"
proof -
  from assms(1) have "distinct (map sr_id (static_put n rows))"
    by (simp add: static_table_ok_def static_table.put_rids_distinct)
  moreover from assms(1) have "distinct (map static_key (static_put n rows))"
    by (simp add: static_table_ok_def static_table.put_distinct)
  moreover have "static_row_ok r" if "r \<in> set (static_put n rows)" for r
    by (rule static_table.put_all [OF _ _ _ that])
      (use assms in \<open>auto simp: static_table_ok_def static_args_ok_def static_row_ok_def\<close>)
  ultimately show ?thesis
    by (simp add: static_table_ok_def)
qed

section \<open>The cache\<close>

definition static_coherent :: "store \<Rightarrow> bool" where
  "static_coherent = coherent staticLoaded staticCache static_view"

interpretation static_cache: cached_view static_view staticLoaded staticCache StaticRecords
proof unfold_locales
  fix s show "staticLoaded s \<Longrightarrow> StaticRecords s = (Inr (staticCache s), s)"
    by (simp add: StaticRecords_def)
next
  fix s t v assume "\<not> staticLoaded s" and "StaticRecords s = (Inr v, t)"
  then obtain s' where "query_db (\<lambda>d. map scan_static (select_static d)) s = (Inr v, s')"
    and "t = s'\<lparr>staticCache := v, staticLoaded := True\<rparr>"
    by (auto simp: StaticRecords_def split: prod.splits sum.splits)
  then show "v = static_view s \<and> static_view t = static_view s \<and> staticLoaded t \<and>
      staticCache t = static_view s"
    by (auto simp: static_view_def elim!: query_db_cases)
next
  fix s t e assume err: "StaticRecords s = (Inl e, t)"
  then have "\<not> staticLoaded s"
    by (auto simp: StaticRecords_def)
  with err have "query_db (\<lambda>d. map scan_static (select_static d)) s = (Inl e, t)"
    by (auto simp: StaticRecords_def split: prod.splits sum.splits)
  with \<open>\<not> staticLoaded s\<close>
  show "\<not> staticLoaded s \<and> \<not> staticLoaded t \<and> static_view t = static_view s"
    by (auto simp: static_view_def elim!: query_db_cases)
qed

end
