(* ===== verification/Store_Rules.thy ===== *)
theory Store_Rules
  imports Store_Base
begin

text \<open>
  Policy rules: \<open>Rules\<close>, \<open>Rule\<close>, \<open>AddRule\<close>, \<open>SetRuleEnabled\<close>, \<open>RecordRuleHit\<close>, \<open>MatchRule\<close>,
  \<open>scanRule\<close> and the rule cache of internal/store/store.go. The first enabled, unexpired rule in id
  order whose target covers the name decides.
\<close>

section \<open>Operations\<close>

definition parse_nullable :: "string option \<Rightarrow> instant option" where
  \<comment> \<open>\<open>if x.Valid && x.String != "" { t, _ := time.Parse(...); field = &t }\<close>\<close>
  "parse_nullable x =
     (case x of None \<Rightarrow> None | Some s \<Rightarrow> if s = '''' then None else Some (parse_or_zero s))"

definition scanRule :: "rule_row \<Rightarrow> Rule" where
  "scanRule r = \<lparr>R_ID = rr_id r, R_Scope = rr_scope r, R_Target = rr_target r, R_Action = rr_action r,
     R_Enabled = (rr_enabled r = 1), R_ExpiresAt = parse_nullable (rr_expires_at r),
     R_HitCount = rr_hit_count r, R_LastHitAt = parse_nullable (rr_last_hit_at r),
     R_Note = rr_note r, R_CreatedAt = parse_or_zero (rr_created_at r)\<rparr>"

definition select_rules :: "db \<Rightarrow> rule_row list" where
  \<comment> \<open>\<open>SELECT ... FROM rules ORDER BY enabled DESC, id ASC\<close>\<close>
  "select_rules d = sort_key (\<lambda>r. (- rr_enabled r, rr_id r)) (t_rules d)"

definition rules_view :: "store \<Rightarrow> Rule list" where
  "rules_view s = map scanRule (select_rules (s_db s))"

definition Rules :: "(store, Rule list) comp" where
  "Rules s =
     (if rulesLoaded s then (Inr (rulesCache s), s)
      else (case query_db (\<lambda>d. map scanRule (select_rules d)) s of
              (Inl e, s') \<Rightarrow> (Inl e, s')
            | (Inr rules, s') \<Rightarrow> (Inr rules, s'\<lparr>rulesCache := rules, rulesLoaded := True\<rparr>)))"

definition invalidateRuleCache :: "store \<Rightarrow> store" where
  "invalidateRuleCache s = s\<lparr>rulesLoaded := False, rulesCache := []\<rparr>"

definition find_rule :: "int \<Rightarrow> db \<Rightarrow> rule_row option" where
  "find_rule rid d = find (\<lambda>r. rr_id r = rid) (t_rules d)"

definition get_rule :: "int \<Rightarrow> (store, Rule) comp" where
  \<comment> \<open>the method \<open>Rule\<close>\<close>
  "get_rule rid = query_row (\<lambda>d. map_option scanRule (find_rule rid d))"

text \<open>
  \<open>INSERT INTO rules ... VALUES('global', target, action, 1, note, now) ON CONFLICT(scope, target,
  action) DO UPDATE SET enabled = 1, note = CASE WHEN excluded.note != '' ...\<close>.
\<close>

record rule_args =
  ra_target :: string
  ra_action :: string
  ra_note :: string
  ra_now :: string

definition rule_key :: "rule_row \<Rightarrow> string \<times> string \<times> string" where
  "rule_key r = (rr_scope r, rr_target r, rr_action r)"

definition rule_args_key :: "rule_args \<Rightarrow> string \<times> string \<times> string" where
  "rule_args_key n = (''global'', ra_target n, ra_action n)"

definition rule_fresh :: "rule_args \<Rightarrow> rule_row list \<Rightarrow> rule_row" where
  "rule_fresh n rows = \<lparr>rr_id = next_rowid (map rr_id rows), rr_scope = ''global'',
     rr_target = ra_target n, rr_action = ra_action n, rr_enabled = 1, rr_expires_at = None,
     rr_hit_count = 0, rr_last_hit_at = None, rr_note = ra_note n, rr_created_at = ra_now n\<rparr>"

definition rule_merge :: "rule_args \<Rightarrow> rule_row \<Rightarrow> rule_row" where
  "rule_merge n r = r\<lparr>rr_enabled := 1, rr_note := (if ra_note n \<noteq> '''' then ra_note n else rr_note r)\<rparr>"

definition rule_put :: "rule_args \<Rightarrow> rule_row list \<Rightarrow> rule_row list" where
  "rule_put n rows = upsert (\<lambda>r. rule_key r = rule_args_key n) (rule_merge n) (rule_fresh n rows) rows"

definition AddRule :: "string \<Rightarrow> string \<Rightarrow> string \<Rightarrow> (store, Rule) comp" where
  "AddRule target action note =
     (let target = NormalizeName target;
          action = to_lower (trim_space action)
      in if target = '''' then fail (ErrMsg ''target is required'')
         else if action \<noteq> ''block'' \<and> action \<noteq> ''allow''
         then fail (ErrMsg ''action must be block or allow'')
         else
           andThen time_now (\<lambda>now.
           andThen (exec_stmt (\<lambda>d. d\<lparr>t_rules := rule_put
             \<lparr>ra_target = target, ra_action = action, ra_note = note, ra_now = fmt_time now\<rparr>
             (t_rules d)\<rparr>)) (\<lambda>_.
           andThen (modify invalidateRuleCache) (\<lambda>_.
           andThen (query_row (\<lambda>d. map_option rr_id
             (find (\<lambda>r. rule_key r = (''global'', target, action)) (t_rules d)))) (\<lambda>rid.
           andThen (ignoring (Audit ''rule.create'' target action)) (\<lambda>_.
           get_rule rid))))))"

definition SetRuleEnabled :: "int \<Rightarrow> bool \<Rightarrow> (store, Rule) comp" where
  "SetRuleEnabled rid enabled =
     (let value = (if enabled then 1 else 0)
      in andThen (exec_db (\<lambda>d. Inr (length (filter (\<lambda>r. rr_id r = rid) (t_rules d)),
           d\<lparr>t_rules := update_where (\<lambda>r. rr_id r = rid) (\<lambda>r. r\<lparr>rr_enabled := value\<rparr>) (t_rules d)\<rparr>)))
         (\<lambda>affected.
          if affected = 0 then fail ErrNoRows
          else andThen (modify invalidateRuleCache) (\<lambda>_.
               andThen (ignoring (Audit ''rule.enabled'' (itoa rid) (bool_text enabled))) (\<lambda>_.
               get_rule rid))))"

definition RecordRuleHit :: "int \<Rightarrow> (store, unit) comp" where
  \<comment> \<open>its error is logged and dropped\<close>
  "RecordRuleHit rid =
     ignoring (andThen time_now (\<lambda>now.
       andThen (exec_stmt (\<lambda>d. d\<lparr>t_rules := update_where (\<lambda>r. rr_id r = rid)
         (\<lambda>r. r\<lparr>rr_hit_count := rr_hit_count r + 1, rr_last_hit_at := Some (fmt_time now)\<rparr>)
         (t_rules d)\<rparr>)) (\<lambda>_. modify invalidateRuleCache)))"

text \<open>The loop of \<open>MatchRule\<close>.\<close>

fun match_rules :: "instant \<Rightarrow> string \<Rightarrow> Rule list \<Rightarrow> Rule option" where
  "match_rules now qname [] = None"
| "match_rules now qname (rule # rules) =
     (if \<not> R_Enabled rule then match_rules now qname rules
      else if (case R_ExpiresAt rule of None \<Rightarrow> False | Some exp \<Rightarrow> exp < now)
      then match_rules now qname rules
      else if qname = R_Target rule \<or> has_suffix qname (''.'' @ R_Target rule) then Some rule
      else match_rules now qname rules)"

definition MatchRule :: "string \<Rightarrow> (store, Rule option) comp" where
  "MatchRule qname =
     (let qname = NormalizeName qname
      in andThen Rules (\<lambda>rules. andThen time_now (\<lambda>now. ret (match_rules now qname rules))))"

section \<open>The table\<close>

definition rule_row_ok :: "rule_row \<Rightarrow> bool" where
  "rule_row_ok r \<longleftrightarrow> rr_scope r = ''global'' \<and> rr_action r \<in> {''block'', ''allow''} \<and>
     has_suffix (rr_target r) ''.'' \<and> to_lower (rr_target r) = rr_target r \<and>
     rr_enabled r \<in> {0, 1} \<and> 0 \<le> rr_hit_count r"

definition rules_table_ok :: "rule_row list \<Rightarrow> bool" where
  "rules_table_ok rows \<longleftrightarrow> distinct (map rr_id rows) \<and> distinct (map rule_key rows) \<and>
     (\<forall>r \<in> set rows. rule_row_ok r)"

interpretation rules_table: keyed_upsert_id rule_key rule_args_key rule_merge rule_fresh rule_put rr_id
  by unfold_locales (simp_all add: rule_put_def rule_key_def rule_args_key_def rule_fresh_def rule_merge_def)

definition rule_args_ok :: "rule_args \<Rightarrow> bool" where
  "rule_args_ok n \<longleftrightarrow> ra_action n \<in> {''block'', ''allow''} \<and> has_suffix (ra_target n) ''.'' \<and>
     to_lower (ra_target n) = ra_target n"

lemma rule_put_ok:
  assumes "rules_table_ok rows" and "rule_args_ok n"
  shows "rules_table_ok (rule_put n rows)"
proof -
  from assms(1) have "distinct (map rr_id (rule_put n rows))"
    by (simp add: rules_table_ok_def rules_table.put_rids_distinct)
  moreover from assms(1) have "distinct (map rule_key (rule_put n rows))"
    by (simp add: rules_table_ok_def rules_table.put_distinct)
  moreover have "rule_row_ok r" if "r \<in> set (rule_put n rows)" for r
    by (rule rules_table.put_all [OF _ _ _ that])
      (use assms in \<open>auto simp: rules_table_ok_def rule_args_ok_def rule_row_ok_def rule_fresh_def rule_merge_def\<close>)
  ultimately show ?thesis
    by (simp add: rules_table_ok_def)
qed

text \<open>A row update that keeps the id, the key and the row condition.\<close>

lemma rules_update_ok:
  assumes "rules_table_ok rows" and "\<And>r. rr_id (f r) = rr_id r" and "\<And>r. rule_key (f r) = rule_key r"
    and "\<And>r. rule_row_ok r \<Longrightarrow> rule_row_ok (f r)"
  shows "rules_table_ok (update_where P f rows)"
proof -
  from assms(1) have "distinct (map rr_id (update_where P f rows))"
    and "distinct (map rule_key (update_where P f rows))"
    by (simp_all only: rules_table_ok_def map_update_where [of rr_id, OF assms(2)]
        map_update_where [of rule_key, OF assms(3)])
  moreover have "\<forall>r \<in> set (update_where P f rows). rule_row_ok r"
    using assms(1,4) by (auto simp: rules_table_ok_def set_update_where)
  ultimately show ?thesis
    by (simp add: rules_table_ok_def)
qed

section \<open>The cache\<close>

definition rules_coherent :: "store \<Rightarrow> bool" where
  "rules_coherent = coherent rulesLoaded rulesCache rules_view"

interpretation rules_cache: cached_view rules_view rulesLoaded rulesCache Rules
proof unfold_locales
  fix s show "rulesLoaded s \<Longrightarrow> Rules s = (Inr (rulesCache s), s)"
    by (simp add: Rules_def)
next
  fix s t v assume "\<not> rulesLoaded s" and "Rules s = (Inr v, t)"
  then obtain s' where "query_db (\<lambda>d. map scanRule (select_rules d)) s = (Inr v, s')"
    and "t = s'\<lparr>rulesCache := v, rulesLoaded := True\<rparr>"
    by (auto simp: Rules_def split: prod.splits sum.splits)
  then show "v = rules_view s \<and> rules_view t = rules_view s \<and> rulesLoaded t \<and> rulesCache t = rules_view s"
    by (auto simp: rules_view_def elim!: query_db_cases)
next
  fix s t e assume err: "Rules s = (Inl e, t)"
  then have "\<not> rulesLoaded s"
    by (auto simp: Rules_def)
  with err have "query_db (\<lambda>d. map scanRule (select_rules d)) s = (Inl e, t)"
    by (auto simp: Rules_def split: prod.splits sum.splits)
  with \<open>\<not> rulesLoaded s\<close> show "\<not> rulesLoaded s \<and> \<not> rulesLoaded t \<and> rules_view t = rules_view s"
    by (auto simp: rules_view_def elim!: query_db_cases)
qed

section \<open>First match in id order\<close>

text \<open>When a table row decides a name at an instant.\<close>

definition row_applies :: "instant \<Rightarrow> string \<Rightarrow> rule_row \<Rightarrow> bool" where
  "row_applies now qname r \<longleftrightarrow> rr_enabled r = 1 \<and>
     (case parse_nullable (rr_expires_at r) of None \<Rightarrow> True | Some exp \<Rightarrow> now \<le> exp) \<and>
     covers (rr_target r) qname"

lemma match_rules_find:
  "match_rules now qname (map scanRule rows) = map_option scanRule (find (row_applies now qname) rows)"
  by (induction rows) (auto simp: row_applies_def scanRule_def covers_def split: option.splits)

lemma find_sorted_least:
  assumes "sorted (map f xs)" and "find P xs = Some x" and "y \<in> set xs" and "P y"
  shows "f x \<le> f y"
  using assms
proof (induction xs)
  case (Cons z zs)
  then show ?case
    by (cases "P z") auto
qed simp

lemma find_select_rules:
  assumes "\<forall>r \<in> set (t_rules d). rr_enabled r \<in> {0, 1}"
    and "find (row_applies now q) (select_rules d) = Some r"
  shows "r \<in> set (t_rules d)" "row_applies now q r"
    and "r' \<in> set (t_rules d) \<Longrightarrow> row_applies now q r' \<Longrightarrow> rr_id r \<le> rr_id r'"
proof -
  from find_Some_mem [OF assms(2)] show "r \<in> set (t_rules d)" and app: "row_applies now q r"
    by (auto simp: select_rules_def)
  assume r': "r' \<in> set (t_rules d)" "row_applies now q r'"
  have "sorted (map (\<lambda>r. (- rr_enabled r, rr_id r)) (select_rules d))"
    by (simp add: select_rules_def)
  from find_sorted_least [OF this assms(2)] r'
  have "(- rr_enabled r, rr_id r) \<le> (- rr_enabled r', rr_id r')"
    by (simp add: select_rules_def)
  with app r'(2) show "rr_id r \<le> rr_id r'"
    by (simp add: row_applies_def)
qed

section \<open>What the operations do\<close>

text \<open>The state after an \<open>AddRule\<close> that returned a rule.\<close>

lemma AddRule_InrD:
  assumes "AddRule target action note s = (Inr r, t)"
  shows "NormalizeName target \<noteq> ''''" "to_lower (trim_space action) \<in> {''block'', ''allow''}"
    "\<exists>now rows e. t = s\<lparr>s_db := (s_db s)\<lparr>t_rules := rule_put \<lparr>ra_target = NormalizeName target,
         ra_action = to_lower (trim_space action), ra_note = note, ra_now = fmt_time now\<rparr> (t_rules (s_db s)),
         t_audit := rows\<rparr>, s_env := e, rulesCache := [], rulesLoaded := False\<rparr>"
    "\<exists>row row'. find (\<lambda>r. rule_key r = (''global'', NormalizeName target, to_lower (trim_space action)))
        (t_rules (s_db t)) = Some row \<and> find_rule (rr_id row) (s_db t) = Some row' \<and> r = scanRule row'"
proof -
  let ?tgt = "NormalizeName target" and ?act = "to_lower (trim_space action)"
  from assms show c1: "?tgt \<noteq> ''''" and c2: "?act \<in> {''block'', ''allow''}"
    by (auto simp: AddRule_def Let_def fail_def split: if_splits)
  from assms c1 c2 obtain r1 s1 r2 s2 rid s4 s5 where
    1: "time_now s = (Inr r1, s1)"
    and 2: "exec_stmt (\<lambda>d. d\<lparr>t_rules := rule_put \<lparr>ra_target = ?tgt, ra_action = ?act,
          ra_note = note, ra_now = fmt_time r1\<rparr> (t_rules d)\<rparr>) s1 = (Inr r2, s2)"
    and 3: "query_row (\<lambda>d. map_option rr_id (find (\<lambda>r. rule_key r = (''global'', ?tgt, ?act)) (t_rules d)))
          (invalidateRuleCache s2) = (Inr rid, s4)"
    and 4: "ignoring (Audit ''rule.create'' ?tgt ?act) s4 = (Inr (), s5)"
    and 5: "get_rule rid s5 = (Inr r, t)"
    by (auto simp: AddRule_def Let_def modify_def ignoring_def andThen_def
        split: if_splits prod.splits sum.splits)
  from 1 obtain e1 where s1: "s1 = s\<lparr>s_env := e1\<rparr>"
    by (rule time_now_cases) auto
  from 2 obtain e2 where s2: "s2 = s1\<lparr>s_db := (s_db s1)\<lparr>t_rules := rule_put \<lparr>ra_target = ?tgt,
      ra_action = ?act, ra_note = note, ra_now = fmt_time r1\<rparr> (t_rules (s_db s1))\<rparr>, s_env := e2\<rparr>"
    by (rule exec_stmt_cases) auto
  from 3 obtain e3 row where s4: "s4 = (invalidateRuleCache s2)\<lparr>s_env := e3\<rparr>"
    and row: "find (\<lambda>r. rule_key r = (''global'', ?tgt, ?act)) (t_rules (s_db s2)) = Some row" "rr_id row = rid"
    by (rule query_row_cases) (auto simp: invalidateRuleCache_def)
  from 4 obtain e4 rows where s5: "s5 = s4\<lparr>s_db := (s_db s4)\<lparr>t_audit := rows\<rparr>, s_env := e4\<rparr>"
    by (rule ignoring_Audit_cases) auto
  from 5 obtain e5 row' where t: "t = s5\<lparr>s_env := e5\<rparr>"
    and row': "find_rule rid (s_db s5) = Some row'" "r = scanRule row'"
    unfolding get_rule_def by (rule query_row_cases) auto
  have t': "t = s\<lparr>s_db := (s_db s)\<lparr>t_rules := rule_put \<lparr>ra_target = ?tgt,
         ra_action = ?act, ra_note = note, ra_now = fmt_time r1\<rparr> (t_rules (s_db s)),
         t_audit := rows\<rparr>, s_env := e5, rulesCache := [], rulesLoaded := False\<rparr>"
    by (simp add: t s5 s4 s2 s1 invalidateRuleCache_def)
  then show "\<exists>now rows e. t = s\<lparr>s_db := (s_db s)\<lparr>t_rules := rule_put \<lparr>ra_target = ?tgt,
         ra_action = ?act, ra_note = note, ra_now = fmt_time now\<rparr> (t_rules (s_db s)),
         t_audit := rows\<rparr>, s_env := e, rulesCache := [], rulesLoaded := False\<rparr>"
    by blast
  have "t_rules (s_db t) = t_rules (s_db s2)" and "find_rule rid (s_db t) = find_rule rid (s_db s5)"
    by (simp_all add: t s5 s4 invalidateRuleCache_def find_rule_def)
  with row row' show "\<exists>row row'. find (\<lambda>r. rule_key r = (''global'', ?tgt, ?act)) (t_rules (s_db t)) = Some row \<and>
      find_rule (rr_id row) (s_db t) = Some row' \<and> r = scanRule row'"
    by auto
qed

lemma find_distinct_same:
  "distinct (map f xs) \<Longrightarrow> x \<in> set xs \<Longrightarrow> find (\<lambda>y. f y = f x) xs = Some x"
  by (induction xs) auto

lemma AddRule_effect:
  assumes "AddRule target action note s = (Inr r, t)" and "rules_table_ok (t_rules (s_db s))"
    and key: "key = (''global'', NormalizeName target, to_lower (trim_space action))"
  shows "R_Scope r = ''global'' \<and> R_Target r = NormalizeName target \<and>
    R_Action r = to_lower (trim_space action) \<and> R_Enabled r \<and>
    map_option scanRule (find (\<lambda>x. rule_key x = key) (t_rules (s_db t))) = Some r \<and>
    R_Note r = (if note \<noteq> '''' then note
      else (case find (\<lambda>x. rule_key x = key) (t_rules (s_db s)) of None \<Rightarrow> '''' | Some x \<Rightarrow> rr_note x)) \<and>
    (\<forall>k. k \<noteq> key \<longrightarrow> find (\<lambda>x. rule_key x = k) (t_rules (s_db t)) = find (\<lambda>x. rule_key x = k) (t_rules (s_db s))) \<and>
    rules_table_ok (t_rules (s_db t))"
proof -
  note d = AddRule_InrD [OF assms(1)]
  obtain now where rows: "t_rules (s_db t) = rule_put \<lparr>ra_target = NormalizeName target,
         ra_action = to_lower (trim_space action), ra_note = note, ra_now = fmt_time now\<rparr> (t_rules (s_db s))"
    using d(3) by auto
  define n where "n = \<lparr>ra_target = NormalizeName target, ra_action = to_lower (trim_space action),
     ra_note = note, ra_now = fmt_time now\<rparr>"
  have n: "rule_args_key n = key" and note_n: "ra_note n = note"
    by (simp_all add: n_def rule_args_key_def key)
  have rows: "t_rules (s_db t) = rule_put n (t_rules (s_db s))"
    by (simp add: rows n_def)
  have "rule_args_ok n"
    using d(1,2) by (simp add: n_def rule_args_ok_def NormalizeName_final_dot NormalizeName_lower)
  with assms(2) have ok: "rules_table_ok (t_rules (s_db t))"
    by (simp add: rows rule_put_ok)
  obtain row row' where row: "find (\<lambda>x. rule_key x = key) (t_rules (s_db t)) = Some row"
    and row': "find_rule (rr_id row) (s_db t) = Some row'" and r: "r = scanRule row'"
    using d(4) by (auto simp: key)
  from row have mem: "row \<in> set (t_rules (s_db t))" and k: "rule_key row = key"
    by (auto dest: find_Some_mem)
  from ok mem have "find_rule (rr_id row) (s_db t) = Some row"
    by (simp add: find_rule_def rules_table_ok_def find_distinct_same)
  with row' have row': "row' = row"
    by simp
  have val: "row = (case find (\<lambda>x. rule_key x = key) (t_rules (s_db s)) of
      None \<Rightarrow> rule_fresh n (t_rules (s_db s)) | Some x \<Rightarrow> rule_merge n x)"
    using row rules_table.lookup_put_same [of n "t_rules (s_db s)"] by (simp add: n rows)
  then have "rr_enabled row = 1" and "rr_note row = (if note \<noteq> '''' then note
      else (case find (\<lambda>x. rule_key x = key) (t_rules (s_db s)) of None \<Rightarrow> '''' | Some x \<Rightarrow> rr_note x))"
    by (simp_all add: rule_fresh_def rule_merge_def note_n split: option.splits)
  moreover have "\<forall>k. k \<noteq> key \<longrightarrow> find (\<lambda>x. rule_key x = k) (t_rules (s_db t)) =
      find (\<lambda>x. rule_key x = k) (t_rules (s_db s))"
    using rules_table.lookup_put_other [of _ n] by (simp add: n rows)
  ultimately show ?thesis
    using row k ok by (simp add: r row' scanRule_def rule_key_def key)
qed

text \<open>
  \<open>AddRule\<close> that returns a rule: the rule is global, enabled, has the normalised target and
  action, keeps the old note when the new one is empty, and is what the table now holds for its key;
  no other key of the table is touched, and ids and keys stay unique.
\<close>

lemma AddRule_reads_back:
  assumes "AddRule target action note s = (Inr r, t)" and "rules_table_ok (t_rules (s_db s))"
    and key: "key = (''global'', NormalizeName target, to_lower (trim_space action))"
  shows "R_Scope r = ''global'' \<and> R_Target r = NormalizeName target \<and>
    R_Action r = to_lower (trim_space action) \<and> R_Enabled r \<and>
    map_option scanRule (find (\<lambda>x. rule_key x = key) (t_rules (s_db t))) = Some r \<and>
    R_Note r = (if note \<noteq> '''' then note
      else (case find (\<lambda>x. rule_key x = key) (t_rules (s_db s)) of None \<Rightarrow> '''' | Some x \<Rightarrow> rr_note x)) \<and>
    (\<forall>k. k \<noteq> key \<longrightarrow> find (\<lambda>x. rule_key x = k) (t_rules (s_db t)) = find (\<lambda>x. rule_key x = k) (t_rules (s_db s))) \<and>
    rules_table_ok (t_rules (s_db t))"
  using assms by (rule AddRule_effect)

lemma MatchRule_first:
  assumes "MatchRule qname s = (Inr m, t)" and "rules_coherent s"
    and "rules_table_ok (t_rules (s_db s))"
  shows "case m of
      None \<Rightarrow> \<forall>r \<in> set (t_rules (s_db s)). \<not> row_applies (clock (s_env t)) (NormalizeName qname) r
    | Some rule \<Rightarrow> \<exists>r \<in> set (t_rules (s_db s)). rule = scanRule r \<and>
        row_applies (clock (s_env t)) (NormalizeName qname) r \<and>
        (\<forall>r' \<in> set (t_rules (s_db s)). row_applies (clock (s_env t)) (NormalizeName qname) r' \<longrightarrow> rr_id r \<le> rr_id r')"
proof -
  from assms(1) obtain rules s1 now where r: "Rules s = (Inr rules, s1)"
    and n: "time_now s1 = (Inr now, t)" and m: "m = match_rules now (NormalizeName qname) rules"
    by (auto simp: MatchRule_def Let_def ret_def elim!: andThen_InrE)
  from n have now: "clock (s_env t) = now"
    by (rule time_now_cases) auto
  have "rules = rules_view s"
    using rules_cache.read_correct r assms(2) by (auto simp: rules_coherent_def)
  then have m: "m = map_option scanRule (find (row_applies now (NormalizeName qname)) (select_rules (s_db s)))"
    by (simp add: m rules_view_def match_rules_find)
  have en: "\<forall>r \<in> set (t_rules (s_db s)). rr_enabled r \<in> {0, 1}"
    using assms(3) by (simp add: rules_table_ok_def rule_row_ok_def)
  show ?thesis
  proof (cases "find (row_applies now (NormalizeName qname)) (select_rules (s_db s))")
    case None
    then have "\<forall>r \<in> set (t_rules (s_db s)). \<not> row_applies now (NormalizeName qname) r"
      by (simp add: find_None_iff select_rules_def)
    then show ?thesis
      by (simp add: m None now)
  next
    case (Some r)
    note f = find_select_rules [OF en Some]
    from f(1,2) f(3) show ?thesis
      unfolding m Some now by (auto intro!: bexI [of _ r])
  qed
qed

text \<open>
  C19. With the cache coherent, \<open>MatchRule\<close> answers from the table: the rule it returns is the row of
  smallest id among those that are enabled, unexpired at the instant it read the clock and cover the
  normalised name; when it returns no rule, no row applies.
\<close>

theorem MatchRule_decides:
  assumes "MatchRule qname s = (Inr m, t)" and "rules_coherent s"
    and "rules_table_ok (t_rules (s_db s))"
  shows "case m of
      None \<Rightarrow> \<forall>r \<in> set (t_rules (s_db s)). \<not> row_applies (clock (s_env t)) (NormalizeName qname) r
    | Some rule \<Rightarrow> \<exists>r \<in> set (t_rules (s_db s)). rule = scanRule r \<and>
        row_applies (clock (s_env t)) (NormalizeName qname) r \<and>
        (\<forall>r' \<in> set (t_rules (s_db s)). row_applies (clock (s_env t)) (NormalizeName qname) r' \<longrightarrow> rr_id r \<le> rr_id r')"
  using assms by (rule MatchRule_first)

text \<open>The state after a \<open>SetRuleEnabled\<close> that returned a rule.\<close>

lemma SetRuleEnabled_InrD:
  assumes "SetRuleEnabled rid enabled s = (Inr r, t)"
  shows "\<exists>rows e. t = s\<lparr>s_db := (s_db s)\<lparr>t_rules := update_where (\<lambda>r. rr_id r = rid)
         (\<lambda>r. r\<lparr>rr_enabled := (if enabled then 1 else 0)\<rparr>) (t_rules (s_db s)),
         t_audit := rows\<rparr>, s_env := e, rulesCache := [], rulesLoaded := False\<rparr>"
    "\<exists>row. find_rule rid (s_db t) = Some row \<and> r = scanRule row"
proof -
  let ?f = "\<lambda>r. r\<lparr>rr_enabled := (if enabled then 1 else 0)\<rparr>"
  from assms obtain n s1 s2 where
    1: "exec_db (\<lambda>d. Inr (length (filter (\<lambda>r. rr_id r = rid) (t_rules d)),
           d\<lparr>t_rules := update_where (\<lambda>r. rr_id r = rid) ?f (t_rules d)\<rparr>)) s = (Inr n, s1)"
    and 2: "ignoring (Audit ''rule.enabled'' (itoa rid) (bool_text enabled)) (invalidateRuleCache s1) = (Inr (), s2)"
    and 3: "get_rule rid s2 = (Inr r, t)"
    by (auto simp: SetRuleEnabled_def Let_def modify_def ignoring_def andThen_def fail_def
        split: if_splits prod.splits sum.splits)
  from 1 obtain e1 where s1: "s1 = s\<lparr>s_db := (s_db s)\<lparr>t_rules := update_where (\<lambda>r. rr_id r = rid) ?f
      (t_rules (s_db s))\<rparr>, s_env := e1\<rparr>"
    by (rule exec_db_cases) auto
  from 2 obtain e2 rows where s2: "s2 = (invalidateRuleCache s1)\<lparr>s_db := (s_db (invalidateRuleCache s1))\<lparr>t_audit := rows\<rparr>, s_env := e2\<rparr>"
    by (rule ignoring_Audit_cases) auto
  from 3 obtain e3 row where t: "t = s2\<lparr>s_env := e3\<rparr>"
    and row: "find_rule rid (s_db s2) = Some row" "r = scanRule row"
    unfolding get_rule_def by (rule query_row_cases) auto
  show "\<exists>rows e. t = s\<lparr>s_db := (s_db s)\<lparr>t_rules := update_where (\<lambda>r. rr_id r = rid) ?f (t_rules (s_db s)),
         t_audit := rows\<rparr>, s_env := e, rulesCache := [], rulesLoaded := False\<rparr>"
    by (intro exI [of _ rows] exI [of _ e3]) (simp add: t s2 s1 invalidateRuleCache_def)
  from row t show "\<exists>row. find_rule rid (s_db t) = Some row \<and> r = scanRule row"
    by simp
qed

lemma match_rules_mem: "match_rules now q rules = Some r \<Longrightarrow> r \<in> set rules \<and> R_Enabled r"
  by (induction rules) (auto split: if_splits option.splits)

text \<open>
  \<open>SetRuleEnabled\<close> that returns a rule sets exactly that rule's flag and nothing else of the
  policy: the returned rule has the id and the flag asked for, every other row is as it was, and the
  next \<open>MatchRule\<close>, which reads the table again, never returns a rule just disabled.
\<close>

lemma SetRuleEnabled_takes_effect:
  assumes "SetRuleEnabled rid enabled s = (Inr r, t)"
  shows "R_ID r = rid \<and> R_Enabled r = enabled \<and>
    filter (\<lambda>x. rr_id x \<noteq> rid) (t_rules (s_db t)) = filter (\<lambda>x. rr_id x \<noteq> rid) (t_rules (s_db s)) \<and>
    (\<not> enabled \<longrightarrow> (\<forall>qname m u. MatchRule qname t = (Inr (Some m), u) \<longrightarrow> R_ID m \<noteq> rid))"
proof -
  let ?f = "\<lambda>r. r\<lparr>rr_enabled := (if enabled then 1 else 0)\<rparr>"
  from SetRuleEnabled_InrD(1) [OF assms] have
    rows: "t_rules (s_db t) = update_where (\<lambda>r. rr_id r = rid) ?f (t_rules (s_db s))"
    and unl: "\<not> rulesLoaded t"
    by auto
  obtain row where row: "find_rule rid (s_db t) = Some row" "r = scanRule row"
    using SetRuleEnabled_InrD(2) [OF assms] by blast
  then have "row \<in> set (t_rules (s_db t))" and rid: "rr_id row = rid"
    by (auto simp: find_rule_def dest: find_Some_mem)
  then obtain x where x: "row = (if rr_id x = rid then ?f x else x)"
    unfolding rows set_update_where by blast
  have "rr_enabled row = (if enabled then 1 else 0)"
    using rid unfolding x by (cases "rr_id x = rid") simp_all
  moreover have "filter (\<lambda>x. rr_id x \<noteq> rid) (t_rules (s_db t)) = filter (\<lambda>x. rr_id x \<noteq> rid) (t_rules (s_db s))"
    unfolding rows by (rule filter_update_where_other) simp
  moreover have "R_ID m \<noteq> rid" if "\<not> enabled" and m: "MatchRule qname t = (Inr (Some m), u)" for qname m u
  proof -
    from m obtain rules s1 now where r: "Rules t = (Inr rules, s1)"
      and "match_rules now (NormalizeName qname) rules = Some m"
      by (auto simp: MatchRule_def Let_def ret_def elim!: andThen_InrE)
    then have "m \<in> set rules" and en: "R_Enabled m"
      by (auto dest: match_rules_mem)
    moreover from r unl have "rules = rules_view t"
      using rules_cache.read_fill by blast
    ultimately obtain x where "x \<in> set (t_rules (s_db t))" and "m = scanRule x"
      by (auto simp: rules_view_def select_rules_def)
    moreover from this obtain y where "x = (if rr_id y = rid then ?f y else y)"
      unfolding rows set_update_where by blast
    ultimately show ?thesis
      using en \<open>\<not> enabled\<close> by (cases "rr_id y = rid") (simp_all add: scanRule_def)
  qed
  ultimately show ?thesis
    using row(2) rid by (simp add: scanRule_def)
qed

section \<open>The properties at a concrete input\<close>

lemma AddRule_reads_back_witness:
  "\<exists>r t. AddRule ''Ads.com'' ''Block '' '''' (sample_store empty_db) = (Inr r, t) \<and>
     R_Target r = ''ads.com.'' \<and> R_Action r = ''block'' \<and> R_Enabled r"
proof -
  have n: "NormalizeName ''Ads.com'' = ''ads.com.''" and a: "to_lower (trim_space ''Block '') = ''block''"
    by code_simp+
  obtain r t where run: "AddRule ''Ads.com'' ''Block '' '''' (sample_store empty_db) = (Inr r, t)"
    by (simp add: AddRule_def n a run_simps invalidateRuleCache_def rule_put_def upsert_def empty_db_def
        rule_fresh_def rule_key_def get_rule_def find_rule_def)
  moreover have "rules_table_ok (t_rules (s_db (sample_store empty_db)))"
    by (simp add: rules_table_ok_def empty_db_def)
  ultimately show ?thesis
    using AddRule_reads_back [OF run _ refl] n a by auto
qed

definition sample_rule :: "int \<Rightarrow> string \<Rightarrow> string \<Rightarrow> rule_row" where
  "sample_rule i target action = \<lparr>rr_id = i, rr_scope = ''global'', rr_target = target, rr_action = action,
     rr_enabled = 1, rr_expires_at = None, rr_hit_count = 0, rr_last_hit_at = None, rr_note = '''',
     rr_created_at = ''''\<rparr>"

definition sample_rules_db :: db where
  "sample_rules_db = empty_db\<lparr>t_rules := [sample_rule 1 ''ok.ads.com.'' ''allow'', sample_rule 2 ''ads.com.'' ''block'']\<rparr>"

lemma sample_rules_ok: "rules_table_ok (t_rules sample_rules_db)"
  by (simp add: rules_table_ok_def sample_rules_db_def sample_rule_def rule_key_def rule_row_ok_def) code_simp

lemma sample_rules_run:
  "\<exists>t. MatchRule ''x.ok.ads.com'' (sample_store sample_rules_db) =
     (Inr (Some (scanRule (sample_rule 1 ''ok.ads.com.'' ''allow''))), t)"
proof -
  have n: "NormalizeName ''x.ok.ads.com'' = ''x.ok.ads.com.''" and h: "has_suffix ''x.ok.ads.com.'' ''.ok.ads.com.''"
    by code_simp+
  show ?thesis
    by (simp add: MatchRule_def n h run_simps Rules_def select_rules_def sample_rules_db_def sample_rule_def
        scanRule_def parse_nullable_def)
qed

lemma MatchRule_decides_witness:
  "\<exists>t. MatchRule ''x.ok.ads.com'' (sample_store sample_rules_db) =
     (Inr (Some (scanRule (sample_rule 1 ''ok.ads.com.'' ''allow''))), t) \<and>
     (\<exists>r \<in> set (t_rules sample_rules_db). row_applies (clock (s_env t)) ''x.ok.ads.com.'' r)"
proof -
  have n: "NormalizeName ''x.ok.ads.com'' = ''x.ok.ads.com.''"
    by code_simp
  obtain t where run: "MatchRule ''x.ok.ads.com'' (sample_store sample_rules_db) =
     (Inr (Some (scanRule (sample_rule 1 ''ok.ads.com.'' ''allow''))), t)"
    using sample_rules_run by blast
  have "rules_coherent (sample_store sample_rules_db)"
    by (simp add: rules_coherent_def coherent_def)
  from MatchRule_decides [OF run this] sample_rules_ok run show ?thesis
    by (auto simp: n)
qed

lemma SetRuleEnabled_takes_effect_witness:
  "\<exists>r t. SetRuleEnabled 1 False (sample_store sample_rules_db) = (Inr r, t) \<and> \<not> R_Enabled r \<and> R_ID r = 1"
proof -
  obtain r t where run: "SetRuleEnabled 1 False (sample_store sample_rules_db) = (Inr r, t)"
    by (simp add: SetRuleEnabled_def run_simps invalidateRuleCache_def sample_rules_db_def sample_rule_def
        empty_db_def update_where_def get_rule_def find_rule_def)
  from SetRuleEnabled_takes_effect [OF this] run show ?thesis
    by auto
qed

end
