(* ===== verification/Blocklist_Parser.thy ===== *)
theory Blocklist_Parser
  imports Names Go_Net
begin

text \<open>
  \<open>parseBlocklistDomains\<close> and \<open>inferBlocklistFormat\<close> of internal/store/store.go: which domain a line
  of a downloaded list names, the pattern \<open>domainTokenRE\<close>, and the scanner that cuts the body into
  lines of at most 1 MiB.
\<close>

section \<open>The pattern\<close>

text \<open>
  \<open>(?i)^([a-z0-9_*.-]+\.)+[a-z]{2,}\.?$\<close>, read twice: as the language the pattern denotes, and as
  the test that is evaluated.
\<close>

definition token_char :: "char \<Rightarrow> bool" where
  \<comment> \<open>\<open>[a-z0-9_*.-]\<close> without regard to case\<close>
  "token_char c = (let n = of_char (lower_char c) :: nat in
     97 \<le> n \<and> n \<le> 122 \<or> 48 \<le> n \<and> n \<le> 57 \<or> c \<in> {CHR ''_'', CHR ''*'', CHR ''.'', CHR ''-''})"

definition letter :: "char \<Rightarrow> bool" where
  "letter c = (let n = of_char (lower_char c) :: nat in 97 \<le> n \<and> n \<le> 122)"

inductive label_groups :: "string \<Rightarrow> bool" where
  \<comment> \<open>\<open>([a-z0-9_*.-]+\.)+\<close>\<close>
  one: "g \<noteq> [] \<Longrightarrow> list_all token_char g \<Longrightarrow> label_groups (g @ ''.'')"
| more: "label_groups p \<Longrightarrow> g \<noteq> [] \<Longrightarrow> list_all token_char g \<Longrightarrow> label_groups (p @ g @ ''.'')"

definition token_language :: "string \<Rightarrow> bool" where
  "token_language s \<longleftrightarrow> (\<exists>p l. label_groups p \<and> list_all letter l \<and> 2 \<le> length l \<and>
     (s = p @ l \<or> s = p @ l @ ''.''))"

definition domainTokenRE :: "string \<Rightarrow> bool" where
  "domainTokenRE s =
     (let r = rev (trim_suffix s ''.'');
          l = takeWhile letter r;
          p = dropWhile letter r
      in 2 \<le> length l \<and> 2 \<le> length p \<and> hd p = CHR ''.'' \<and> list_all token_char p)"

section \<open>A line\<close>

definition skip_line :: "string \<Rightarrow> bool" where
  "skip_line line \<longleftrightarrow>
     line = '''' \<or> has_prefix line ''#'' \<or> has_prefix line ''!'' \<or> has_prefix line ''[''"

definition cut_adguard :: "string \<Rightarrow> string" where
  "cut_adguard line =
     (if has_prefix line ''||'' then
        (let line = trim_prefix line ''||''
         in case index_any line ''^/$'' of None \<Rightarrow> line | Some idx \<Rightarrow> take idx line)
      else line)"

definition cut_hosts :: "string \<Rightarrow> string option" where
  \<comment> \<open>\<open>None\<close>: \<open>fields[0]\<close> of a line without fields is out of range, a run-time panic\<close>
  "cut_hosts line =
     (if contains line '' '' \<or> contains line [CHR 0x09] then
        (let fs = fields line
         in if 2 \<le> length fs \<and> (ParseIP (fs ! 0) \<noteq> [] \<or> fs ! 0 = ''0.0.0.0'' \<or> fs ! 0 = ''::'')
            then Some (fs ! 1)
            else (case fs of [] \<Rightarrow> None | f # _ \<Rightarrow> Some f))
      else Some line)"

definition cut_path :: "string \<Rightarrow> string" where
  "cut_path line =
     (let line = trim_prefix line ''address=/''
      in case index_sub line ''/'' of
           None \<Rightarrow> line
         | Some idx \<Rightarrow> if 0 < idx \<and> contains (drop (idx + 1) line) ''.'' then take idx line else line)"

definition cut_wildcard :: "string \<Rightarrow> string" where
  "cut_wildcard line = trim_space (trim_prefix (trim_prefix line ''*.'') ''.'')"

datatype line_result = Skipped | Domain string | Panicked

definition line_domain :: "string \<Rightarrow> line_result" where
  \<comment> \<open>the body of the loop: \<open>Skipped\<close> is each \<open>continue\<close>\<close>
  "line_domain text =
     (let line = trim_space text
      in if skip_line line then Skipped
         else (case cut_hosts (cut_adguard line) of
                 None \<Rightarrow> Panicked
               | Some line \<Rightarrow>
                   (let line = cut_wildcard (cut_path line)
                    in if contains_any line ''/:'' \<or> contains line ''$'' \<or> contains line ''@@'' then Skipped
                       else if \<not> domainTokenRE line then Skipped
                       else (let normalized = NormalizeName line
                             in if normalized \<noteq> '''' then Domain normalized else Skipped))))"

section \<open>The body\<close>

definition max_token :: nat where
  "max_token = 1024 * 1024"

definition drop_cr :: "string \<Rightarrow> string" where
  "drop_cr s = trim_suffix s [CHR 0x0D]"

definition scan_lines :: "string \<Rightarrow> string list" where
  \<comment> \<open>\<open>bufio.ScanLines\<close>: a last line without a newline counts when it is not empty\<close>
  "scan_lines body =
     (let parts = split_on body (CHR 0x0A)
      in if last parts = '''' then butlast parts else parts)"

text \<open>
  The map \<open>out\<close> is the list of its keys in the order they were first seen. A line that does not fit
  the buffer ends the scan with an error; \<open>None\<close> is a panic.
\<close>

fun scan_domains :: "string list \<Rightarrow> string list \<Rightarrow> (string list \<times> error option) option" where
  "scan_domains [] out = Some (out, None)"
| "scan_domains (line # rest) out =
     (if max_token \<le> length line then Some (out, Some (ErrMsg ''bufio.Scanner: token too long''))
      else (case line_domain (drop_cr line) of
              Panicked \<Rightarrow> None
            | Skipped \<Rightarrow> scan_domains rest out
            | Domain d \<Rightarrow> scan_domains rest (if d \<in> set out then out else out @ [d])))"

definition parseBlocklistDomains :: "string \<Rightarrow> error option \<Rightarrow> (string list \<times> error option) option" where
  \<comment> \<open>\<open>readErr\<close> is the error with which the reader ended, if it did not end with \<open>io.EOF\<close>\<close>
  "parseBlocklistDomains body readErr =
     (case scan_domains (scan_lines body) [] of
        None \<Rightarrow> None
      | Some (out, Some e) \<Rightarrow> Some (out, Some e)
      | Some (out, None) \<Rightarrow> Some (out, readErr))"

definition inferBlocklistFormat :: "string \<Rightarrow> string" where
  "inferBlocklistFormat url =
     (if contains url ''AdGuard'' \<or> contains url ''filter.txt'' then ''adguard''
      else if contains url ''hosts'' \<or> contains url ''hostfile'' then ''hosts''
      else ''domains'')"

section \<open>The test is the pattern\<close>

lemma token_char_dot [simp]: "token_char (CHR ''.'')"
  by (simp add: token_char_def)

lemma letter_dot [simp]: "\<not> letter (CHR ''.'')"
  by (simp add: letter_def lower_char_def)

lemma label_groups_iff:
  "label_groups p \<longleftrightarrow> 2 \<le> length p \<and> list_all token_char p \<and> last p = CHR ''.''"
proof
  assume "label_groups p"
  then show "2 \<le> length p \<and> list_all token_char p \<and> last p = CHR ''.''"
  proof induction
    case (one g)
    then show ?case
      by (cases g) auto
  qed auto
next
  assume p: "2 \<le> length p \<and> list_all token_char p \<and> last p = CHR ''.''"
  then have "p \<noteq> []"
    by auto
  with p obtain q where q: "p = q @ ''.''"
    by (metis append_butlast_last_id)
  with p have "q \<noteq> []" and "list_all token_char q"
    by auto
  then show "label_groups p"
    unfolding q by (rule label_groups.one)
qed

lemma token_body:
  "2 \<le> length (takeWhile letter (rev b)) \<and> 2 \<le> length (dropWhile letter (rev b)) \<and>
     hd (dropWhile letter (rev b)) = CHR ''.'' \<and> list_all token_char (dropWhile letter (rev b)) \<longleftrightarrow>
   (\<exists>p l. label_groups p \<and> list_all letter l \<and> 2 \<le> length l \<and> b = p @ l)"
  (is "?L \<longleftrightarrow> ?R")
proof
  let ?l = "rev (takeWhile letter (rev b))" and ?p = "rev (dropWhile letter (rev b))"
  assume L: ?L
  then have "label_groups ?p"
    by (auto simp: label_groups_iff last_rev list_all_iff)
  moreover have "list_all letter ?l"
    by (auto simp: list_all_iff dest: set_takeWhileD)
  moreover have "b = ?p @ ?l"
    by (metis rev_append rev_rev_ident takeWhile_dropWhile_id)
  ultimately show ?R
    using L by (metis length_rev)
next
  assume ?R
  then obtain p l where b: "b = p @ l" and p: "label_groups p" and l: "list_all letter l" "2 \<le> length l"
    by blast
  from p have p': "2 \<le> length p" "list_all token_char p" "last p = CHR ''.''" "p \<noteq> []"
    by (auto simp: label_groups_iff)
  have "rev b = rev l @ rev p" and "\<forall>x \<in> set (rev l). letter x"
    using l(1) by (auto simp: b list_all_iff)
  moreover obtain p0 where "rev p = CHR ''.'' # p0"
    using p'(3,4) by (metis hd_rev list.collapse rev_is_Nil_conv)
  ultimately have "takeWhile letter (rev b) = rev l" and "dropWhile letter (rev b) = rev p"
    using takeWhile_stop [of "rev l" letter "CHR ''.''" p0] by simp_all
  then show ?L
    using p' l(2) by (auto simp: hd_rev list_all_iff)
qed


section \<open>What a list yields\<close>

lemma contains_char: "contains s [c] \<longleftrightarrow> c \<in> set s"
proof -
  have "index_sub s [c] = None \<longleftrightarrow> c \<notin> set s"
    by (induction s) (auto simp: has_prefix_Cons)
  then show ?thesis
    by (auto simp: contains_def)
qed

lemma fields_Nil: "fields s = [] \<longleftrightarrow> (\<forall>c \<in> set s. is_space c)"
proof -
  have "(\<forall>w \<in> set (split_by is_space s). w = []) \<longleftrightarrow> (\<forall>c \<in> set s. is_space c)"
    using split_by_nonempty [of is_space] by (induction s) (auto split: list.splits)
  then show ?thesis
    by (simp add: fields_def filter_empty_conv)
qed

lemma cut_hosts_None:
  "cut_hosts line = None \<longleftrightarrow> (CHR '' '' \<in> set line \<or> CHR 0x09 \<in> set line) \<and> (\<forall>c \<in> set line. is_space c)"
  by (auto simp: cut_hosts_def Let_def contains_char fields_Nil [symmetric] split: list.splits)


lemma scan_domains_ok:
  assumes "scan_domains lines out = Some (out', None)"
  shows "set out' = set out \<union> {d. \<exists>l \<in> set lines. line_domain (drop_cr l) = Domain d}"
    "distinct out \<Longrightarrow> distinct out'"
  using assms
  by (induction lines out rule: scan_domains.induct)
    (auto split: if_splits line_result.splits)

lemma line_domain_Domain:
  assumes "line_domain text = Domain d"
  shows "has_suffix d ''.''" "to_lower d = d" "\<exists>l. domainTokenRE l \<and> d = NormalizeName l"
  using assms
  by (auto simp: line_domain_def Let_def NormalizeName_lower intro: NormalizeName_final_dot
      split: if_splits option.splits)

text \<open>
  C26. A body that is parsed without an error yields each domain once, and exactly the domains its
  lines name; each is in lower case, ends with a dot and comes from a token of the pattern.
\<close>

theorem parseBlocklistDomains_correct:
  assumes "parseBlocklistDomains body readErr = Some (out, None)"
  shows "distinct out \<and> set out = {d. \<exists>l \<in> set (scan_lines body). line_domain (drop_cr l) = Domain d} \<and>
    (\<forall>d \<in> set out. has_suffix d ''.'' \<and> to_lower d = d \<and> (\<exists>l. domainTokenRE l \<and> d = NormalizeName l))"
proof -
  from assms have "scan_domains (scan_lines body) [] = Some (out, None)"
    by (auto simp: parseBlocklistDomains_def split: option.splits)
  then have "distinct out" and out: "set out = {d. \<exists>l \<in> set (scan_lines body). line_domain (drop_cr l) = Domain d}"
    using scan_domains_ok by force+
  moreover have "\<forall>d \<in> set out. has_suffix d ''.'' \<and> to_lower d = d \<and> (\<exists>l. domainTokenRE l \<and> d = NormalizeName l)"
    using out line_domain_Domain by blast
  ultimately show ?thesis
    by blast
qed

section \<open>The properties at a concrete input\<close>


lemma parseBlocklistDomains_correct_witness:
  "parseBlocklistDomains (''0.0.0.0 Ads.com'' @ [CHR 0x0D, CHR 0x0A] @ ''||b.net^'') None =
     Some ([''ads.com.'', ''b.net.''], None) \<and>
   distinct [''ads.com.'', ''b.net.''] \<and> has_suffix ''ads.com.'' ''.'' \<and> has_suffix ''b.net.'' ''.''"
proof -
  have run: "parseBlocklistDomains (''0.0.0.0 Ads.com'' @ [CHR 0x0D, CHR 0x0A] @ ''||b.net^'') None =
     Some ([''ads.com.'', ''b.net.''], None)"
  proof -
    have "scan_lines (''0.0.0.0 Ads.com'' @ [CHR 0x0D, CHR 0x0A] @ ''||b.net^'') =
        [''0.0.0.0 Ads.com'' @ [CHR 0x0D], ''||b.net^'']"
      and "line_domain (drop_cr (''0.0.0.0 Ads.com'' @ [CHR 0x0D])) = Domain ''ads.com.''"
      and "line_domain (drop_cr ''||b.net^'') = Domain ''b.net.''"
      by code_simp+
    then show ?thesis
      by (simp add: parseBlocklistDomains_def max_token_def)
  qed
  from parseBlocklistDomains_correct [OF this] run show ?thesis
    by auto
qed

end
