(* ===== verification/Store_Blocklist.thy ===== *)
theory Store_Blocklist
  imports Store_Base Blocklist_Parser Go_URL
begin

text \<open>
  Blocklists: presets, custom sources, refreshing them, and \<open>MatchBlocklist\<close>, of
  internal/store/store.go. What comes over the network is a parameter: \<open>Lookup\<close> stands for the
  resolver, \<open>Fetch\<close> for one GET request of the list's URL.
\<close>

section \<open>Go values\<close>

record BlocklistPreset =
  BP_ID :: string
  BP_Name :: string
  BP_Tier :: string
  BP_Description :: string
  BP_HomeURL :: string
  BP_SourceURL :: string
  BP_Enabled :: bool

record BlocklistSource =
  BS_ID :: int
  BS_Name :: string
  BS_URL :: string
  BS_Format :: string
  BS_Enabled :: bool
  BS_LastStatus :: string
  BS_LastChecked :: string
  BS_CreatedAt :: string

record blocklistFetchSource =
  FS_ID :: string
  FS_Type :: string
  FS_Name :: string
  FS_URL :: string
  FS_Format :: string
  FS_CustomID :: int
  FS_CustomType :: bool

record BlocklistRefreshResult =
  BR_SourceName :: string
  BR_URL :: string
  BR_Status :: string
  BR_Entries :: nat
  BR_Error :: string

text \<open>What a GET of a list comes to: an error text, or a status with the body and a read error.\<close>

datatype fetch = InvalidURL string | FetchFailed string | Response int string "error option"

section \<open>Presets\<close>

definition preset :: "string \<Rightarrow> string \<Rightarrow> string \<Rightarrow> string \<Rightarrow> string \<Rightarrow> string \<Rightarrow> BlocklistPreset" where
  "preset i name tier description home source = \<lparr>BP_ID = i, BP_Name = name, BP_Tier = tier,
     BP_Description = description, BP_HomeURL = home, BP_SourceURL = source, BP_Enabled = False\<rparr>"

definition default_presets :: "BlocklistPreset list" where
  "default_presets = [
     preset ''hagezi-pro'' ''HaGeZi Pro'' ''Balanced''
       ''Comprehensive ads, trackers, malware, phishing, and scam protection. Strong default candidate after testing.''
       ''https://github.com/hagezi/dns-blocklists''
       ''https://cdn.jsdelivr.net/gh/hagezi/dns-blocklists@latest/domains/pro.txt'',
     preset ''hagezi-light'' ''HaGeZi Light'' ''Conservative''
       ''Lighter HaGeZi tier for lower false-positive risk while evaluating policy impact.''
       ''https://github.com/hagezi/dns-blocklists''
       ''https://cdn.jsdelivr.net/gh/hagezi/dns-blocklists@latest/domains/light.txt'',
     preset ''stevenblack'' ''StevenBlack Unified Hosts'' ''Classic''
       ''Long-running aggregated hosts list. Good baseline for ads and malware with optional category variants.''
       ''https://github.com/StevenBlack/hosts''
       ''https://raw.githubusercontent.com/StevenBlack/hosts/master/hosts'',
     preset ''firebog'' ''Firebog'' ''Collection''
       ''Curated collection reference for choosing individual safer or aggressive lists. Add selected raw URLs as custom sources.''
       ''https://firebog.net/'' ''https://firebog.net/'',
     preset ''blocklistproject'' ''Block List Project Malware'' ''Categories''
       ''Category-specific malware list from Block List Project. Add other category URLs as custom sources when needed.''
       ''https://blocklistproject.github.io/Lists/''
       ''https://blocklistproject.github.io/Lists/malware.txt'',
     preset ''oisd'' ''OISD'' ''Low breakage''
       ''Popular optimized list focused on low false positives for ads, trackers, and malware.''
       ''https://oisd.nl/'' ''https://big.oisd.nl/domainswild'',
     preset ''adguard-dns'' ''AdGuard DNS Filters'' ''Vendor''
       ''Official AdGuard-maintained filters. Useful comparison source for ads and tracking coverage.''
       ''https://github.com/AdguardTeam/AdGuardSDNSFilter''
       ''https://raw.githubusercontent.com/AdguardTeam/AdGuardSDNSFilter/master/Filters/filter.txt'',
     preset ''urlhaus'' ''URLhaus'' ''Security''
       ''Malware URL intelligence source for higher-risk security blocking evaluation.''
       ''https://urlhaus.abuse.ch/'' ''https://urlhaus.abuse.ch/downloads/hostfile/'',
     preset ''phishing-army'' ''Phishing Army'' ''Security''
       ''Phishing-focused feed for security policy evaluation.''
       ''https://phishing.army/''
       ''https://phishing.army/download/phishing_army_blocklist_extended.txt'']"

text \<open>
  The upserts of the code on \<open>blocklist_presets\<close>: the one of the seed refreshes the texts and keeps
  \<open>enabled\<close>, the one of a sync sets \<open>enabled\<close> and keeps the texts.
\<close>

definition preset_new :: "BlocklistPreset \<Rightarrow> int \<Rightarrow> string \<Rightarrow> preset_row" where
  "preset_new p enabled now = \<lparr>pr_id = BP_ID p, pr_name = BP_Name p, pr_tier = BP_Tier p,
     pr_description = BP_Description p, pr_home_url = BP_HomeURL p, pr_source_url = BP_SourceURL p,
     pr_enabled = enabled, pr_created_at = now, pr_updated_at = now\<rparr>"

definition preset_seed_put :: "string \<Rightarrow> BlocklistPreset \<Rightarrow> preset_row list \<Rightarrow> preset_row list" where
  "preset_seed_put now p rows =
     upsert (\<lambda>r. pr_id r = BP_ID p)
       (\<lambda>r. r\<lparr>pr_name := BP_Name p, pr_tier := BP_Tier p, pr_description := BP_Description p,
          pr_home_url := BP_HomeURL p, pr_source_url := BP_SourceURL p, pr_updated_at := now\<rparr>)
       (preset_new p 0 now) rows"

definition SeedBlocklistPresets :: "(store, unit) comp" where
  "SeedBlocklistPresets =
     andThen time_now (\<lambda>now.
       forEach default_presets (\<lambda>p.
         exec_stmt (\<lambda>d. d\<lparr>t_presets := preset_seed_put (fmt_time now) p (t_presets d)\<rparr>)))"

definition scan_preset :: "preset_row \<Rightarrow> BlocklistPreset" where
  "scan_preset r = \<lparr>BP_ID = pr_id r, BP_Name = pr_name r, BP_Tier = pr_tier r,
     BP_Description = pr_description r, BP_HomeURL = pr_home_url r, BP_SourceURL = pr_source_url r,
     BP_Enabled = (pr_enabled r = 1)\<rparr>"

definition BlocklistPresets :: "(store, BlocklistPreset list) comp" where
  "BlocklistPresets = query_db (\<lambda>d. map scan_preset (sort_key pr_name (t_presets d)))"

definition SetBlocklistPresetEnabled :: "string \<Rightarrow> bool \<Rightarrow> (store, BlocklistPreset) comp" where
  "SetBlocklistPresetEnabled pid enabled =
     (let value = (if enabled then 1 else 0)
      in andThen time_now (\<lambda>now.
         andThen (exec_db (\<lambda>d. Inr (length (filter (\<lambda>r. pr_id r = pid) (t_presets d)),
           d\<lparr>t_presets := update_where (\<lambda>r. pr_id r = pid)
             (\<lambda>r. r\<lparr>pr_enabled := value, pr_updated_at := fmt_time now\<rparr>) (t_presets d)\<rparr>)))
         (\<lambda>affected.
          if affected = 0 then fail ErrNoRows
          else andThen (ignoring (Audit ''blocklist.enabled'' pid (bool_text enabled))) (\<lambda>_.
               query_row (\<lambda>d. map_option scan_preset (find (\<lambda>r. pr_id r = pid) (t_presets d)))))))"

section \<open>Custom sources\<close>

definition scan_source :: "source_row \<Rightarrow> BlocklistSource" where
  "scan_source r = \<lparr>BS_ID = so_id r, BS_Name = so_name r, BS_URL = so_url r, BS_Format = so_format r,
     BS_Enabled = (so_enabled r = 1), BS_LastStatus = so_last_status r,
     BS_LastChecked = so_last_checked r, BS_CreatedAt = so_created_at r\<rparr>"

definition BlocklistSources :: "(store, BlocklistSource list) comp" where
  "BlocklistSources =
     query_db (\<lambda>d. map scan_source (sort_key (\<lambda>r. (- so_enabled r, so_name r)) (t_sources d)))"

definition get_source :: "int \<Rightarrow> (store, BlocklistSource) comp" where
  \<comment> \<open>the method \<open>BlocklistSource\<close>\<close>
  "get_source sid =
     query_row (\<lambda>d. map_option scan_source (find (\<lambda>r. so_id r = sid) (t_sources d)))"

definition blocklistSourceByURL :: "string \<Rightarrow> (store, BlocklistSource) comp" where
  "blocklistSourceByURL url =
     query_row (\<lambda>d. map_option scan_source (find (\<lambda>r. so_url r = url) (t_sources d)))"

definition isPrivateFetchIP :: "ip \<Rightarrow> bool" where
  "isPrivateFetchIP p \<longleftrightarrow> p = [] \<or> IsLoopback p \<or> IsPrivate p \<or> IsLinkLocalUnicast p \<or>
     IsLinkLocalMulticast p \<or> IsUnspecified p"

definition validatePublicHTTPURL :: "(string \<Rightarrow> error + ip list) \<Rightarrow> string \<Rightarrow> error + unit" where
  "validatePublicHTTPURL Lookup raw =
     (case url_Parse raw of
        None \<Rightarrow> Inl (ErrMsg ''invalid url'')
      | Some u \<Rightarrow>
          if u_Scheme u = '''' \<or> u_Hostname u = '''' then Inl (ErrMsg ''invalid url'')
          else if u_Scheme u \<noteq> ''http'' \<and> u_Scheme u \<noteq> ''https''
          then Inl (ErrMsg ''url must use http or https'')
          else (case Lookup (u_Hostname u) of
                  Inl e \<Rightarrow> Inl e
                | Inr ips \<Rightarrow>
                    if list_ex isPrivateFetchIP ips
                    then Inl (ErrMsg ''custom blocklist URL must resolve to a public address'')
                    else Inr ()))"

text \<open>
  \<open>INSERT INTO blocklist_sources ... ON CONFLICT(url) DO UPDATE SET name, format, enabled\<close>; the
  arguments of \<open>AddBlocklistSource\<close> and of a sync.
\<close>

record source_args =
  ua_name :: string
  ua_url :: string
  ua_format :: string
  ua_enabled :: int
  ua_now :: string

definition source_fresh :: "source_args \<Rightarrow> source_row list \<Rightarrow> source_row" where
  "source_fresh n rows = \<lparr>so_id = next_rowid (map so_id rows), so_name = ua_name n, so_url = ua_url n,
     so_format = ua_format n, so_enabled = ua_enabled n, so_last_status = ''not checked'',
     so_last_checked = '''', so_created_at = ua_now n\<rparr>"

definition source_merge :: "source_args \<Rightarrow> source_row \<Rightarrow> source_row" where
  "source_merge n r = r\<lparr>so_name := ua_name n, so_format := ua_format n, so_enabled := ua_enabled n\<rparr>"

definition source_put :: "source_args \<Rightarrow> source_row list \<Rightarrow> source_row list" where
  "source_put n rows = upsert (\<lambda>r. so_url r = ua_url n) (source_merge n) (source_fresh n rows) rows"

definition AddBlocklistSource ::
  "(string \<Rightarrow> error + ip list) \<Rightarrow> string \<Rightarrow> string \<Rightarrow> string \<Rightarrow> (store, BlocklistSource) comp" where
  "AddBlocklistSource Lookup name url format =
     (let name = trim_space name; url = trim_space url; format = to_lower (trim_space format);
          name = (if name = '''' then url else name)
      in if url = '''' then fail (ErrMsg ''url is required'')
         else if \<not> has_prefix url ''https://'' \<and> \<not> has_prefix url ''http://''
         then fail (ErrMsg ''url must start with http:// or https://'')
         else (case validatePublicHTTPURL Lookup url of
                 Inl e \<Rightarrow> fail e
               | Inr _ \<Rightarrow>
                   (let format = (if format = '''' then ''domains'' else format)
                    in if format \<noteq> ''domains'' \<and> format \<noteq> ''hosts'' \<and> format \<noteq> ''adguard''
                       then fail (ErrMsg ''format must be domains, hosts, or adguard'')
                       else andThen time_now (\<lambda>now.
                            andThen (exec_stmt (\<lambda>d. d\<lparr>t_sources := source_put
                              \<lparr>ua_name = name, ua_url = url, ua_format = format, ua_enabled = 1,
                               ua_now = fmt_time now\<rparr> (t_sources d)\<rparr>)) (\<lambda>_.
                            andThen (ignoring (Audit ''blocklist.source.add'' url name)) (\<lambda>_.
                            blocklistSourceByURL url))))))"

definition SetBlocklistSourceEnabled :: "int \<Rightarrow> bool \<Rightarrow> (store, BlocklistSource) comp" where
  "SetBlocklistSourceEnabled sid enabled =
     (let value = (if enabled then 1 else 0)
      in andThen (exec_db (\<lambda>d. Inr (length (filter (\<lambda>r. so_id r = sid) (t_sources d)),
           d\<lparr>t_sources := update_where (\<lambda>r. so_id r = sid) (\<lambda>r. r\<lparr>so_enabled := value\<rparr>) (t_sources d)\<rparr>)))
         (\<lambda>affected.
          if affected = 0 then fail ErrNoRows
          else andThen (ignoring (Audit ''blocklist.source.enabled'' (itoa sid) (bool_text enabled))) (\<lambda>_.
               get_source sid)))"

section \<open>Refreshing\<close>

definition enabledBlocklistFetchSources :: "(store, blocklistFetchSource list) comp" where
  "enabledBlocklistFetchSources =
     andThen BlocklistPresets (\<lambda>presets.
     andThen BlocklistSources (\<lambda>custom.
     ret (map (\<lambda>p. \<lparr>FS_ID = BP_ID p, FS_Type = ''preset'', FS_Name = BP_Name p, FS_URL = BP_SourceURL p,
            FS_Format = inferBlocklistFormat (BP_SourceURL p), FS_CustomID = 0, FS_CustomType = False\<rparr>)
            (filter BP_Enabled presets) @
          map (\<lambda>s. \<lparr>FS_ID = itoa (BS_ID s), FS_Type = ''custom'', FS_Name = BS_Name s, FS_URL = BS_URL s,
            FS_Format = BS_Format s, FS_CustomID = BS_ID s, FS_CustomType = True\<rparr>)
            (filter BS_Enabled custom))))"

definition invalidateBlocklistCache :: "store \<Rightarrow> store" where
  "invalidateBlocklistCache s = s\<lparr>blocklistCache := [], blocklistLoaded := False\<rparr>"

definition entry_key :: "entry_row \<Rightarrow> string \<times> string \<times> string" where
  "entry_key r = (en_domain r, en_source_type r, en_source_id r)"

definition entry_of :: "blocklistFetchSource \<Rightarrow> string \<Rightarrow> string \<Rightarrow> entry_row" where
  "entry_of source now domain = \<lparr>en_domain = domain, en_source_type = FS_Type source,
     en_source_id = FS_ID source, en_source_name = FS_Name source, en_updated_at = now\<rparr>"

definition from_source :: "blocklistFetchSource \<Rightarrow> entry_row \<Rightarrow> bool" where
  "from_source source r \<longleftrightarrow> en_source_type r = FS_Type source \<and> en_source_id r = FS_ID source"

definition insert_entry :: "blocklistFetchSource \<Rightarrow> string \<Rightarrow> string \<Rightarrow> entry_row list \<Rightarrow> entry_row list" where
  \<comment> \<open>\<open>INSERT OR IGNORE INTO blocklist_entries\<close>\<close>
  "insert_entry source now domain rows =
     insert_ignore (\<lambda>r. entry_key r = entry_key (entry_of source now domain))
       (entry_of source now domain) rows"

definition replaceBlocklistEntries :: "blocklistFetchSource \<Rightarrow> string list \<Rightarrow> (store, unit) comp" where
  "replaceBlocklistEntries source domains =
     andThen (transaction
       (andThen (exec_stmt (\<lambda>d. d\<lparr>t_entries := delete_where (from_source source) (t_entries d)\<rparr>)) (\<lambda>_.
        andThen time_now (\<lambda>now.
        andThen (query_db (\<lambda>_. ())) (\<lambda>_. \<comment> \<open>\<open>PrepareContext\<close>\<close>
        forEach domains (\<lambda>domain.
          exec_stmt (\<lambda>d. d\<lparr>t_entries := insert_entry source (fmt_time now) domain (t_entries d)\<rparr>)))))))
     (\<lambda>_. modify invalidateBlocklistCache)"

definition recordBlocklistSourceStatus ::
  "blocklistFetchSource \<Rightarrow> BlocklistRefreshResult \<Rightarrow> (store, unit) comp" where
  "recordBlocklistSourceStatus source result =
     (if FS_CustomType source
      then ignoring (andThen time_now (\<lambda>now.
        exec_stmt (\<lambda>d. d\<lparr>t_sources := update_where (\<lambda>r. so_id r = FS_CustomID source)
          (\<lambda>r. r\<lparr>so_last_status := BR_Status result, so_last_checked := fmt_time now\<rparr>) (t_sources d)\<rparr>)))
      else ret ())"

definition body_limit :: nat where
  "body_limit = 50 * 1024 * 1024"

definition refreshBlocklistSource ::
  "(string \<Rightarrow> fetch) \<Rightarrow> blocklistFetchSource \<Rightarrow> (store, BlocklistRefreshResult) comp" where
  "refreshBlocklistSource Fetch source =
     (let result = \<lparr>BR_SourceName = FS_Name source, BR_URL = FS_URL source, BR_Status = '''',
            BR_Entries = 0, BR_Error = ''''\<rparr>;
          report = (\<lambda>result. andThen (recordBlocklistSourceStatus source result) (\<lambda>_. ret result))
      in case Fetch (FS_URL source) of
           InvalidURL e \<Rightarrow> report (result\<lparr>BR_Status := ''invalid url'', BR_Error := e\<rparr>)
         | FetchFailed e \<Rightarrow> report (result\<lparr>BR_Status := ''fetch failed'', BR_Error := e\<rparr>)
         | Response status body readErr \<Rightarrow>
             if status < 200 \<or> 299 < status
             then report (result\<lparr>BR_Status := ''http '' @ itoa status\<rparr>)
             else (case parseBlocklistDomains (take body_limit body)
                          (if body_limit \<le> length body then None else readErr) of
                     None \<Rightarrow> fail Panic
                   | Some (_, Some e) \<Rightarrow>
                       report (result\<lparr>BR_Status := ''parse failed'', BR_Error := error_text e\<rparr>)
                   | Some (domains, None) \<Rightarrow>
                       (\<lambda>s. case replaceBlocklistEntries source domains s of
                          (Inl e, s') \<Rightarrow>
                            report (result\<lparr>BR_Status := ''store failed'', BR_Error := error_text e\<rparr>) s'
                        | (Inr _, s') \<Rightarrow>
                            report (result\<lparr>BR_Status := ''ok'', BR_Entries := length domains\<rparr>) s')))"

definition RefreshBlocklists :: "(string \<Rightarrow> fetch) \<Rightarrow> (store, BlocklistRefreshResult list) comp" where
  "RefreshBlocklists Fetch =
     andThen enabledBlocklistFetchSources (\<lambda>sources.
     andThen (collect (refreshBlocklistSource Fetch) sources) (\<lambda>results.
     andThen (ignoring (Audit ''blocklist.refresh'' ''all'' (itoa (int (length results)) @ '' sources''))) (\<lambda>_.
     ret results)))"

section \<open>Matching\<close>

definition match_of :: "entry_row \<Rightarrow> BlocklistMatch" where
  "match_of r = \<lparr>BM_Domain = en_domain r, BM_SourceName = en_source_name r,
     BM_SourceType = en_source_type r, BM_SourceID = en_source_id r\<rparr>"

definition entries_map :: "db \<Rightarrow> (string \<times> BlocklistMatch) list" where
  \<comment> \<open>the scan of \<open>blocklist_entries\<close> into a map: a later row of a domain replaces an earlier one\<close>
  "entries_map d = rev (map (\<lambda>r. (en_domain r, match_of r)) (t_entries d))"

definition blocklist_view :: "store \<Rightarrow> (string \<times> BlocklistMatch) list" where
  "blocklist_view s = entries_map (s_db s)"

definition blocklistEntries :: "(store, (string \<times> BlocklistMatch) list) comp" where
  "blocklistEntries s =
     (if blocklistLoaded s then (Inr (blocklistCache s), s)
      else (case query_db entries_map s of
              (Inl e, s') \<Rightarrow> (Inl e, s')
            | (Inr cache, s') \<Rightarrow> (Inr cache, s'\<lparr>blocklistCache := cache, blocklistLoaded := True\<rparr>)))"

definition MatchBlocklist :: "string \<Rightarrow> (store, BlocklistMatch option) comp" where
  "MatchBlocklist qname =
     (let qname = NormalizeName qname
      in andThen blocklistEntries (\<lambda>cache. ret (walk_parents (map_of cache) qname)))"

section \<open>The tables of lists\<close>

interpretation sources_table: keyed_upsert_id so_url ua_url source_merge source_fresh source_put so_id
  by unfold_locales (simp_all add: source_put_def source_fresh_def source_merge_def)

interpretation presets_seed: keyed_upsert pr_id BP_ID
  "\<lambda>p r. r\<lparr>pr_name := BP_Name p, pr_tier := BP_Tier p, pr_description := BP_Description p,
      pr_home_url := BP_HomeURL p, pr_source_url := BP_SourceURL p, pr_updated_at := now\<rparr>"
  "\<lambda>p rows. preset_new p 0 now" "preset_seed_put now"
  by unfold_locales (simp_all add: preset_seed_put_def preset_new_def)

section \<open>The cache\<close>

definition blocklist_coherent :: "store \<Rightarrow> bool" where
  "blocklist_coherent = coherent blocklistLoaded blocklistCache blocklist_view"

interpretation blocklist_cache: cached_view blocklist_view blocklistLoaded blocklistCache blocklistEntries
proof unfold_locales
  fix s show "blocklistLoaded s \<Longrightarrow> blocklistEntries s = (Inr (blocklistCache s), s)"
    by (simp add: blocklistEntries_def)
next
  fix s t v assume "\<not> blocklistLoaded s" and "blocklistEntries s = (Inr v, t)"
  then obtain s' where "query_db entries_map s = (Inr v, s')"
    and "t = s'\<lparr>blocklistCache := v, blocklistLoaded := True\<rparr>"
    by (auto simp: blocklistEntries_def split: prod.splits sum.splits)
  then show "v = blocklist_view s \<and> blocklist_view t = blocklist_view s \<and> blocklistLoaded t \<and>
      blocklistCache t = blocklist_view s"
    by (auto simp: blocklist_view_def elim!: query_db_cases)
next
  fix s t e assume err: "blocklistEntries s = (Inl e, t)"
  then have "\<not> blocklistLoaded s"
    by (auto simp: blocklistEntries_def)
  with err have "query_db entries_map s = (Inl e, t)"
    by (auto simp: blocklistEntries_def split: prod.splits sum.splits)
  with \<open>\<not> blocklistLoaded s\<close>
  show "\<not> blocklistLoaded s \<and> \<not> blocklistLoaded t \<and> blocklist_view t = blocklist_view s"
    by (auto simp: blocklist_view_def elim!: query_db_cases)
qed

section \<open>What the operations do\<close>

lemma map_of_entries:
  "map_of (entries_map d) q = map_option match_of (find (\<lambda>r. en_domain r = q) (rev (t_entries d)))"
proof -
  have "map_of (map (\<lambda>r. (en_domain r, match_of r)) rows) q = map_option match_of (find (\<lambda>r. en_domain r = q) rows)"
    for rows
    by (induction rows) auto
  then show ?thesis
    by (simp add: entries_map_def rev_map)
qed

lemma map_of_entries_Some:
  "map_of (entries_map d) q = Some m \<Longrightarrow> \<exists>r \<in> set (t_entries d). en_domain r = q \<and> m = match_of r"
  using find_Some_mem [of _ "rev (t_entries d)"] by (fastforce simp: map_of_entries)

lemma map_of_entries_None:
  "map_of (entries_map d) q = None \<longleftrightarrow> (\<forall>r \<in> set (t_entries d). en_domain r \<noteq> q)"
  by (auto simp: map_of_entries find_None_iff)

lemma MatchBlocklist_InrD:
  assumes "MatchBlocklist qname s = (Inr m, t)" and "blocklist_coherent s"
  shows "m = walk_parents (map_of (entries_map (s_db s))) (NormalizeName qname)"
    "blocklist_coherent t" "blocklist_view t = blocklist_view s"
proof -
  from assms(1) obtain cache where r: "blocklistEntries s = (Inr cache, t)"
    and m: "m = walk_parents (map_of cache) (NormalizeName qname)"
    by (auto simp: MatchBlocklist_def Let_def ret_def elim!: andThen_InrE)
  then show "m = walk_parents (map_of (entries_map (s_db s))) (NormalizeName qname)"
    using blocklist_cache.read_correct [OF assms(2) [unfolded blocklist_coherent_def]]
    by (simp add: blocklist_view_def)
  from r assms(2) show "blocklist_coherent t" and "blocklist_view t = blocklist_view s"
    unfolding blocklist_coherent_def
    by (blast intro: blocklist_cache.read_coherent blocklist_cache.read_view)+
qed

text \<open>
  C20. \<open>MatchBlocklist\<close> with a coherent cache: the match it returns is an entry of the table whose
  domain covers the normalised name, and no entry with a longer covering domain exists; when it
  returns no match, no entry covers the name.
\<close>

theorem MatchBlocklist_longest:
  assumes "MatchBlocklist qname s = (Inr m, t)" and "blocklist_coherent s"
  shows "case m of
      None \<Rightarrow> \<forall>r \<in> set (t_entries (s_db s)). en_domain r \<noteq> '''' \<longrightarrow> \<not> covers (en_domain r) (NormalizeName qname) \<or>
        NormalizeName qname = ''''
    | Some mt \<Rightarrow> \<exists>r \<in> set (t_entries (s_db s)). mt = match_of r \<and> en_domain r \<noteq> '''' \<and>
        covers (en_domain r) (NormalizeName qname) \<and>
        (\<forall>r' \<in> set (t_entries (s_db s)). covers (en_domain r') (NormalizeName qname) \<longrightarrow>
           length (en_domain r') \<le> length (en_domain r))"
proof -
  let ?q = "NormalizeName qname" and ?c = "map_of (entries_map (s_db s))"
  note m = MatchBlocklist_InrD(1) [OF assms]
  show ?thesis
  proof (cases "?q = ''''")
    case True
    then show ?thesis
      by (simp add: m walk_parents.simps)
  next
    case False
    then have dot: "has_suffix ?q ''.''"
      by (rule NormalizeName_final_dot)
    show ?thesis
    proof (cases m)
      case None
      with m have "walk_parents ?c ?q = None"
        by simp
      from walk_parents_None [OF dot this] show ?thesis
        unfolding None map_of_entries_None by auto
    next
      case (Some mt)
      with m have "walk_parents ?c ?q = Some mt"
        by simp
      from walk_parents_Some [OF dot this] obtain d where d: "d \<noteq> ''''" "covers d ?q" "?c d = Some mt"
        and longest: "\<And>d'. covers d' ?q \<Longrightarrow> length d < length d' \<Longrightarrow> ?c d' = None"
        by blast
      from map_of_entries_Some [OF d(3)] obtain r where "r \<in> set (t_entries (s_db s))" "en_domain r = d" "mt = match_of r"
        by blast
      moreover have "length (en_domain r') \<le> length d"
        if "r' \<in> set (t_entries (s_db s))" "covers (en_domain r') ?q" for r'
        using longest [OF that(2)] that(1) unfolding map_of_entries_None by (metis not_less)
      ultimately show ?thesis
        using d(1,2) unfolding Some by auto
    qed
  qed
qed

text \<open>
  What disabling changes: the row of the preset (or source) and the audit trail. The entries that an
  earlier refresh stored stay, and so does the cache.
\<close>

lemma SetBlocklistPresetEnabled_InrD:
  assumes "SetBlocklistPresetEnabled pid enabled s = (Inr p, t)"
  shows "\<exists>now rows e. t = s\<lparr>s_db := (s_db s)\<lparr>t_presets := update_where (\<lambda>r. pr_id r = pid)
      (\<lambda>r. r\<lparr>pr_enabled := (if enabled then 1 else 0), pr_updated_at := fmt_time now\<rparr>) (t_presets (s_db s)),
      t_audit := rows\<rparr>, s_env := e\<rparr>"
proof -
  let ?f = "\<lambda>now r. r\<lparr>pr_enabled := (if enabled then 1 else 0), pr_updated_at := fmt_time now\<rparr>"
  from assms obtain now s0 n s1 s2 where
    0: "time_now s = (Inr now, s0)"
    and 1: "exec_db (\<lambda>d. Inr (length (filter (\<lambda>r. pr_id r = pid) (t_presets d)),
           d\<lparr>t_presets := update_where (\<lambda>r. pr_id r = pid) (?f now) (t_presets d)\<rparr>)) s0 = (Inr n, s1)"
    and 2: "ignoring (Audit ''blocklist.enabled'' pid (bool_text enabled)) s1 = (Inr (), s2)"
    and 3: "query_row (\<lambda>d. map_option scan_preset (find (\<lambda>r. pr_id r = pid) (t_presets d))) s2 = (Inr p, t)"
    by (auto simp: SetBlocklistPresetEnabled_def Let_def ignoring_def andThen_def fail_def
        split: if_splits prod.splits sum.splits)
  from 0 obtain e0 where s0: "s0 = s\<lparr>s_env := e0\<rparr>"
    by (rule time_now_cases) auto
  from 1 obtain e1 where s1: "s1 = s0\<lparr>s_db := (s_db s0)\<lparr>t_presets := update_where (\<lambda>r. pr_id r = pid) (?f now)
      (t_presets (s_db s0))\<rparr>, s_env := e1\<rparr>"
    by (rule exec_db_cases) auto
  from 2 obtain e2 rows where s2: "s2 = s1\<lparr>s_db := (s_db s1)\<lparr>t_audit := rows\<rparr>, s_env := e2\<rparr>"
    by (rule ignoring_Audit_cases) auto
  from 3 obtain e3 where t: "t = s2\<lparr>s_env := e3\<rparr>"
    by (rule query_row_cases) auto
  show ?thesis
    by (intro exI [of _ now] exI [of _ rows] exI [of _ e3]) (simp add: t s2 s1 s0)
qed

text \<open>
  C24. Disabling a preset does not unblock anything: after a successful
  \<open>SetBlocklistPresetEnabled pid False\<close>, a name covered by an entry, of that preset or of any other
  source, is still matched, because neither the entries nor the cache are touched.
\<close>

theorem disabled_preset_still_blocks:
  assumes "SetBlocklistPresetEnabled pid False s = (Inr p, t)" and "blocklist_coherent s"
    and "r \<in> set (t_entries (s_db s))" and "en_domain r \<noteq> ''''" and "covers (en_domain r) (NormalizeName qname)"
    and "MatchBlocklist qname t = (Inr m, u)"
  shows "\<not> BP_Enabled p \<and> m \<noteq> None"
proof -
  from SetBlocklistPresetEnabled_InrD [OF assms(1)] obtain now rows e where
    t: "t = s\<lparr>s_db := (s_db s)\<lparr>t_presets := update_where (\<lambda>r. pr_id r = pid)
      (\<lambda>r. r\<lparr>pr_enabled := 0, pr_updated_at := fmt_time now\<rparr>) (t_presets (s_db s)),
      t_audit := rows\<rparr>, s_env := e\<rparr>"
    by auto
  then have entries: "t_entries (s_db t) = t_entries (s_db s)" and "blocklist_coherent t"
    using assms(2) by (auto simp: blocklist_coherent_def coherent_def blocklist_view_def entries_map_def)
  with assms(6) have m: "m = walk_parents (map_of (entries_map (s_db t))) (NormalizeName qname)"
    by (blast dest: MatchBlocklist_InrD(1))
  have "NormalizeName qname \<noteq> ''''"
    using assms(4,5) covers_length [OF assms(5)] by auto
  then have dot: "has_suffix (NormalizeName qname) ''.''"
    by (rule NormalizeName_final_dot)
  have "m \<noteq> None"
    using walk_parents_None [OF dot _ assms(4,5), of "map_of (entries_map (s_db t))"] assms(3)
    unfolding m map_of_entries_None entries by auto
  moreover have "\<not> BP_Enabled p"
  proof -
    from assms(1) obtain s2 where
      "query_row (\<lambda>d. map_option scan_preset (find (\<lambda>r. pr_id r = pid) (t_presets d))) s2 = (Inr p, t)"
      by (auto simp: SetBlocklistPresetEnabled_def Let_def ignoring_def andThen_def fail_def
          split: if_splits prod.splits sum.splits)
    then obtain x where "find (\<lambda>r. pr_id r = pid) (t_presets (s_db t)) = Some x" and p: "p = scan_preset x"
      by (rule query_row_cases) auto
    then have "x \<in> set (t_presets (s_db t))" and "pr_id x = pid"
      by (auto dest: find_Some_mem)
    then have "x \<in> set (update_where (\<lambda>r. pr_id r = pid)
        (\<lambda>r. r\<lparr>pr_enabled := 0, pr_updated_at := fmt_time now\<rparr>) (t_presets (s_db s)))"
      by (simp add: t)
    from update_where_hit [OF this \<open>pr_id x = pid\<close>] obtain y where
      y: "x = y\<lparr>pr_enabled := 0, pr_updated_at := fmt_time now\<rparr>"
      by blast
    have "pr_enabled x = 0"
      unfolding y by simp
    then show ?thesis
      by (simp add: p scan_preset_def)
  qed
  ultimately show ?thesis
    by blast
qed

section \<open>Replacing the entries of a source\<close>

lemma entry_of_from [simp]: "from_source source (entry_of source now d)"
  by (simp add: from_source_def entry_of_def)

lemma entry_key_of [simp]: "entry_key (entry_of source now d) = (d, FS_Type source, FS_ID source)"
  by (simp add: entry_key_def entry_of_def)

lemma insert_entry_hit:
  "list_ex (\<lambda>r. entry_key r = entry_key (entry_of source now d)) rows \<longleftrightarrow>
   d \<in> en_domain ` {r \<in> set rows. from_source source r}"
  by (auto simp: list_ex_iff entry_key_def entry_of_def from_source_def image_iff)

lemma insert_entry_others:
  "filter (\<lambda>r. \<not> from_source source r) (insert_entry source now d rows) = filter (\<lambda>r. \<not> from_source source r) rows"
  by (simp add: insert_entry_def insert_ignore_def)

lemma insert_entry_domains:
  "en_domain ` {r \<in> set (insert_entry source now d rows). from_source source r} =
   insert d (en_domain ` {r \<in> set rows. from_source source r})"
proof -
  have "{r \<in> set (rows @ [entry_of source now d]). from_source source r} =
      insert (entry_of source now d) {r \<in> set rows. from_source source r}"
    by auto
  then show ?thesis
    unfolding insert_entry_def insert_ignore_def insert_entry_hit
    by (auto simp: insert_absorb entry_of_def)
qed

lemma insert_entry_keys: "distinct (map entry_key rows) \<Longrightarrow> distinct (map entry_key (insert_entry source now d rows))"
  by (auto simp: insert_entry_def insert_ignore_def list_ex_iff)

lemma fold_insert_entry:
  "filter (\<lambda>r. \<not> from_source source r) (fold (insert_entry source now) ds rows) =
     filter (\<lambda>r. \<not> from_source source r) rows"
  "en_domain ` {r \<in> set (fold (insert_entry source now) ds rows). from_source source r} =
     set ds \<union> en_domain ` {r \<in> set rows. from_source source r}"
  "distinct (map entry_key rows) \<Longrightarrow> distinct (map entry_key (fold (insert_entry source now) ds rows))"
  by (induction ds arbitrary: rows) (auto simp: insert_entry_others insert_entry_domains insert_entry_keys)

lemma fold_entries_db:
  "fold (\<lambda>x d. d\<lparr>t_entries := f x (t_entries d)\<rparr>) xs d = d\<lparr>t_entries := fold f xs (t_entries d)\<rparr>"
  by (induction xs arbitrary: d) auto

definition replaced :: "blocklistFetchSource \<Rightarrow> string \<Rightarrow> string list \<Rightarrow> entry_row list \<Rightarrow> entry_row list" where
  "replaced source now domains rows = fold (insert_entry source now) domains (delete_where (from_source source) rows)"

lemma replaceBlocklistEntries_cases:
  assumes "replaceBlocklistEntries source domains s = (r, t)"
  obtains (okay) now e where "r = Inr ()"
      "t = s\<lparr>s_db := (s_db s)\<lparr>t_entries := replaced source now domains (t_entries (s_db s))\<rparr>, s_env := e,
         blocklistCache := [], blocklistLoaded := False\<rparr>"
  | (failed) x e where "r = Inl x" "t = s\<lparr>s_env := e\<rparr>"
proof (cases r)
  case (Inl x)
  let ?body = "andThen (exec_stmt (\<lambda>d. d\<lparr>t_entries := delete_where (from_source source) (t_entries d)\<rparr>)) (\<lambda>_.
        andThen time_now (\<lambda>now. andThen (query_db (\<lambda>_. ())) (\<lambda>_. forEach domains (\<lambda>domain.
          exec_stmt (\<lambda>d. d\<lparr>t_entries := insert_entry source (fmt_time now) domain (t_entries d)\<rparr>)))))"
  from assms Inl have "transaction ?body s = (Inl x, t)"
    by (auto simp: replaceBlocklistEntries_def andThen_def modify_def split: prod.splits sum.splits)
  moreover have "db_only ?body"
    by (intro keeps_intro)
  ultimately obtain e where "t = s\<lparr>s_env := e\<rparr>"
    by (blast dest: transaction_Inl)
  with Inl show ?thesis
    by (rule failed)
next
  case (Inr u)
  let ?body = "andThen (exec_stmt (\<lambda>d. d\<lparr>t_entries := delete_where (from_source source) (t_entries d)\<rparr>)) (\<lambda>_.
        andThen time_now (\<lambda>now. andThen (query_db (\<lambda>_. ())) (\<lambda>_. forEach domains (\<lambda>domain.
          exec_stmt (\<lambda>d. d\<lparr>t_entries := insert_entry source (fmt_time now) domain (t_entries d)\<rparr>)))))"
  from assms Inr obtain s1 where tr: "transaction ?body s = (Inr (), s1)" and t: "t = invalidateBlocklistCache s1"
    by (auto simp: replaceBlocklistEntries_def andThen_def modify_def split: prod.splits sum.splits)
  from tr obtain e u e' where body: "?body (s\<lparr>s_env := e\<rparr>) = (Inr (), u)" and s1: "s1 = u\<lparr>s_env := e'\<rparr>"
    by (rule transaction_Inr)
  from body obtain s2 now s3 s4 where
    1: "exec_stmt (\<lambda>d. d\<lparr>t_entries := delete_where (from_source source) (t_entries d)\<rparr>) (s\<lparr>s_env := e\<rparr>) = (Inr (), s2)"
    and 2: "time_now s2 = (Inr now, s3)" and 3: "query_db (\<lambda>_. ()) s3 = (Inr (), s4)"
    and 4: "forEach domains (\<lambda>domain. exec_stmt (\<lambda>d. d\<lparr>t_entries := insert_entry source (fmt_time now) domain (t_entries d)\<rparr>)) s4 = (Inr (), u)"
    by (auto elim!: andThen_InrE)
  from 1 obtain e1 where s2: "s2 = s\<lparr>s_db := (s_db s)\<lparr>t_entries := delete_where (from_source source) (t_entries (s_db s))\<rparr>, s_env := e1\<rparr>"
    by (rule exec_stmt_cases) auto
  from 2 obtain e2 where s3: "s3 = s2\<lparr>s_env := e2\<rparr>"
    by (rule time_now_cases) auto
  from 3 obtain e3 where s4: "s4 = s3\<lparr>s_env := e3\<rparr>"
    by (rule query_db_cases) auto
  from forEach_exec_Inr [OF 4] obtain e4 where
    u: "u = s4\<lparr>s_db := (s_db s4)\<lparr>t_entries := fold (insert_entry source (fmt_time now)) domains (t_entries (s_db s4))\<rparr>, s_env := e4\<rparr>"
    by (auto simp: fold_entries_db)
  show ?thesis
    by (rule okay [of e' "fmt_time now"]) (simp_all add: Inr t s1 u s4 s3 s2 invalidateBlocklistCache_def replaced_def)
qed

text \<open>
  C21. Replacing a source's entries is all or nothing: on an error no table has changed; otherwise the
  entries of the source are exactly the given domains, the entries of every other source are those
  from before in their order, no other table has changed, and the cache will be read again.
\<close>

theorem replaceBlocklistEntries_atomic:
  assumes "replaceBlocklistEntries source domains s = (r, t)"
  shows "case r of
      Inl _ \<Rightarrow> s_db t = s_db s
    | Inr _ \<Rightarrow> en_domain ` {x \<in> set (t_entries (s_db t)). from_source source x} = set domains \<and>
        filter (\<lambda>x. \<not> from_source source x) (t_entries (s_db t)) =
          filter (\<lambda>x. \<not> from_source source x) (t_entries (s_db s)) \<and>
        s_db t = (s_db s)\<lparr>t_entries := t_entries (s_db t)\<rparr> \<and> \<not> blocklistLoaded t"
  using assms
proof (cases rule: replaceBlocklistEntries_cases)
  case (okay now e)
  have "{x \<in> set (delete_where (from_source source) (t_entries (s_db s))). from_source source x} = {}"
    by (auto simp: table_simps)
  then show ?thesis
    unfolding okay by (simp add: replaced_def fold_insert_entry) (simp add: delete_where_def)
qed simp

section \<open>The properties at a concrete input\<close>

definition sample_source :: blocklistFetchSource where
  "sample_source = \<lparr>FS_ID = ''hagezi-pro'', FS_Type = ''preset'', FS_Name = ''HaGeZi Pro'',
     FS_URL = ''https://example.org/pro.txt'', FS_Format = ''domains'', FS_CustomID = 0, FS_CustomType = False\<rparr>"

definition sample_entries_db :: db where
  "sample_entries_db = empty_db\<lparr>
     t_presets := [preset_new (preset ''hagezi-pro'' ''HaGeZi Pro'' ''Balanced'' '''' '''' ''https://example.org/pro.txt'') 1 ''''],
     t_entries := [entry_of sample_source '''' ''com.'', entry_of sample_source '''' ''ads.com.'']\<rparr>"

lemma sample_match_run:
  "\<exists>t. MatchBlocklist ''x.Ads.com'' (sample_store sample_entries_db) =
     (Inr (Some (match_of (entry_of sample_source '''' ''ads.com.''))), t)"
proof -
  have "walk_parents (map_of (entries_map sample_entries_db)) (NormalizeName ''x.Ads.com'') =
      Some (match_of (entry_of sample_source '''' ''ads.com.''))"
    by code_simp
  then show ?thesis
    by (simp add: MatchBlocklist_def blocklistEntries_def run_simps)
qed

lemma MatchBlocklist_longest_witness:
  "\<exists>t. MatchBlocklist ''x.Ads.com'' (sample_store sample_entries_db) =
     (Inr (Some (match_of (entry_of sample_source '''' ''ads.com.''))), t) \<and>
   (\<exists>r \<in> set (t_entries sample_entries_db). covers (en_domain r) (NormalizeName ''x.Ads.com''))"
proof -
  obtain t where run: "MatchBlocklist ''x.Ads.com'' (sample_store sample_entries_db) =
     (Inr (Some (match_of (entry_of sample_source '''' ''ads.com.''))), t)"
    using sample_match_run by blast
  have "blocklist_coherent (sample_store sample_entries_db)"
    by (simp add: blocklist_coherent_def coherent_def)
  from MatchBlocklist_longest [OF run this] run show ?thesis
    by auto
qed

lemma disabled_preset_still_blocks_witness:
  "\<exists>p t m u. SetBlocklistPresetEnabled ''hagezi-pro'' False (sample_store sample_entries_db) = (Inr p, t) \<and>
     MatchBlocklist ''x.Ads.com'' t = (Inr m, u) \<and> \<not> BP_Enabled p \<and> m \<noteq> None"
proof -
  have "\<exists>p t. SetBlocklistPresetEnabled ''hagezi-pro'' False (sample_store sample_entries_db) = (Inr p, t) \<and>
      blocklistLoaded t = False \<and> faults (s_env t) = []"
    by (simp add: SetBlocklistPresetEnabled_def run_simps sample_entries_db_def empty_db_def update_where_def
        preset_new_def preset_def)
  then obtain p t where run: "SetBlocklistPresetEnabled ''hagezi-pro'' False (sample_store sample_entries_db) = (Inr p, t)"
    and t: "blocklistLoaded t = False" "faults (s_env t) = []"
    by blast
  obtain m u where m: "MatchBlocklist ''x.Ads.com'' t = (Inr m, u)"
    using t by (simp add: MatchBlocklist_def blocklistEntries_def run_simps)
  have c: "blocklist_coherent (sample_store sample_entries_db)"
    by (simp add: blocklist_coherent_def coherent_def)
  have r: "entry_of sample_source '''' ''ads.com.'' \<in> set (t_entries (s_db (sample_store sample_entries_db)))"
    by (simp add: sample_entries_db_def)
  have n: "en_domain (entry_of sample_source '''' ''ads.com.'') \<noteq> ''''"
    by (simp add: entry_of_def)
  have v: "covers (en_domain (entry_of sample_source '''' ''ads.com.'')) (NormalizeName ''x.Ads.com'')"
    by code_simp
  from disabled_preset_still_blocks [OF run c r n v m] show ?thesis
    using run m by blast
qed

lemma replaceBlocklistEntries_atomic_witness:
  "\<exists>t. replaceBlocklistEntries sample_source [''b.net.''] (sample_store sample_entries_db) = (Inr (), t) \<and>
     en_domain ` {x \<in> set (t_entries (s_db t)). from_source sample_source x} = {''b.net.''}"
proof -
  obtain t where run: "replaceBlocklistEntries sample_source [''b.net.''] (sample_store sample_entries_db) = (Inr (), t)"
    by (simp add: replaceBlocklistEntries_def run_simps)
  from replaceBlocklistEntries_atomic [OF run] run show ?thesis
    by simp
qed

end
