(* ===== verification/Store_HA_Sync.thy ===== *)
theory Store_HA_Sync
  imports Store_HA Store_Static Store_Rules Store_Blocklist
begin

text \<open>
  The copy of the policy from the primary to the secondary in internal/store/store.go:
  \<open>ExportHASyncPayload\<close>, \<open>ApplyHASyncPayload\<close> with its three deletions, the checks on imported
  sources, and the push with the network as a parameter.
\<close>

record HASyncPayload =
  HP_StaticRecords :: "StaticRecord list"
  HP_Rules :: "Rule list"
  HP_BlocklistPresets :: "BlocklistPreset list"
  HP_BlocklistSources :: "BlocklistSource list"
  HP_RetentionSettings :: RetentionSettings
  HP_SyncedAt :: string

record HASyncResult =
  HR_Status :: string
  HR_PeerURL :: string
  HR_StaticRecords :: int
  HR_Rules :: int
  HR_BlocklistPresets :: int
  HR_BlocklistSources :: int
  HR_Error :: string

definition ExportHASyncPayload :: "(store, HASyncPayload) comp" where
  "ExportHASyncPayload =
     andThen StaticRecords (\<lambda>records.
     andThen Rules (\<lambda>rules.
     andThen BlocklistPresets (\<lambda>presets.
     andThen BlocklistSources (\<lambda>sources.
     andThen Retention (\<lambda>retention.
     andThen time_now (\<lambda>now.
       ret \<lparr>HP_StaticRecords = records, HP_Rules = rules, HP_BlocklistPresets = presets,
            HP_BlocklistSources = sources, HP_RetentionSettings = retention, HP_SyncedAt = fmt_time now\<rparr>))))))"

section \<open>Static records\<close>

text \<open>The rows the payload asks for, in its order; a record without name, type or value is skipped.\<close>

definition sync_record :: "string \<Rightarrow> StaticRecord \<Rightarrow> static_args option" where
  "sync_record now r =
     (let name = NormalizeName (SR_Name r); recordType = to_upper (trim_space (SR_Type r))
      in if name = '''' \<or> recordType = '''' \<or> trim_space (SR_Value r) = '''' then None
         else Some \<lparr>sa_name = name, sa_type = recordType, sa_value = trim_space (SR_Value r),
                    sa_ttl = (if SR_TTL r \<le> 0 then 60 else SR_TTL r), sa_now = now\<rparr>)"

definition static_text :: "string \<times> string \<Rightarrow> string" where
  \<comment> \<open>\<open>name + "\x00" + recordType\<close>\<close>
  "static_text k = fst k @ CHR 0x00 # snd k"

definition sync_records :: "string \<Rightarrow> StaticRecord list \<Rightarrow> (store, string list) comp" where
  \<comment> \<open>the loop over \<open>payload.StaticRecords\<close>, with the keys it collects\<close>
  "sync_records now records =
     (let args = List.map_filter (sync_record now) records
      in andThen (forEach args (\<lambda>n. exec_stmt (\<lambda>d. d\<lparr>t_static := static_put n (t_static d)\<rparr>)))
           (\<lambda>_. ret (map (\<lambda>n. static_text (sa_name n, sa_type n)) args)))"

definition deleteMissingStaticRecords :: "string list \<Rightarrow> (store, unit) comp" where
  "deleteMissingStaticRecords keep =
     andThen (query_db (\<lambda>d. filter (\<lambda>k. static_text k \<notin> set keep) (map static_key (t_static d)))) (\<lambda>remove.
       forEach remove (\<lambda>k. exec_stmt (\<lambda>d. d\<lparr>t_static := delete_where (\<lambda>r. static_key r = k) (t_static d)\<rparr>)))"

section \<open>Rules\<close>

record sync_rule_args =
  yr_target :: string
  yr_action :: string
  yr_enabled :: int
  yr_note :: string
  yr_now :: string

definition sync_rule_key :: "sync_rule_args \<Rightarrow> string \<times> string \<times> string" where
  "sync_rule_key n = (''global'', yr_target n, yr_action n)"

definition sync_rule_fresh :: "sync_rule_args \<Rightarrow> rule_row list \<Rightarrow> rule_row" where
  "sync_rule_fresh n rows = \<lparr>rr_id = next_rowid (map rr_id rows), rr_scope = ''global'', rr_target = yr_target n,
     rr_action = yr_action n, rr_enabled = yr_enabled n, rr_expires_at = None, rr_hit_count = 0,
     rr_last_hit_at = None, rr_note = yr_note n, rr_created_at = yr_now n\<rparr>"

definition sync_rule_merge :: "sync_rule_args \<Rightarrow> rule_row \<Rightarrow> rule_row" where
  "sync_rule_merge n r = r\<lparr>rr_enabled := yr_enabled n, rr_note := yr_note n\<rparr>"

definition sync_rule_put :: "sync_rule_args \<Rightarrow> rule_row list \<Rightarrow> rule_row list" where
  "sync_rule_put n rows =
     upsert (\<lambda>r. rule_key r = sync_rule_key n) (sync_rule_merge n) (sync_rule_fresh n rows) rows"

definition sync_rule :: "string \<Rightarrow> Rule \<Rightarrow> sync_rule_args option" where
  "sync_rule now r =
     (let target = NormalizeName (R_Target r); action = to_lower (trim_space (R_Action r))
      in if target = '''' \<or> (action \<noteq> ''block'' \<and> action \<noteq> ''allow'') then None
         else Some \<lparr>yr_target = target, yr_action = action, yr_enabled = (if R_Enabled r then 1 else 0),
                    yr_note = R_Note r, yr_now = now\<rparr>)"

definition rule_text :: "string \<times> string \<times> string \<Rightarrow> string" where
  "rule_text k = (case k of (scope, target, action) \<Rightarrow> scope @ CHR 0x00 # target @ CHR 0x00 # action)"

definition sync_rules :: "string \<Rightarrow> Rule list \<Rightarrow> (store, string list) comp" where
  "sync_rules now rules =
     (let args = List.map_filter (sync_rule now) rules
      in andThen (forEach args (\<lambda>n. exec_stmt (\<lambda>d. d\<lparr>t_rules := sync_rule_put n (t_rules d)\<rparr>)))
           (\<lambda>_. ret (map (\<lambda>n. rule_text (sync_rule_key n)) args)))"

definition deleteMissingRules :: "string list \<Rightarrow> (store, unit) comp" where
  "deleteMissingRules keep =
     andThen (query_db (\<lambda>d. filter (\<lambda>k. rule_text k \<notin> set keep) (map rule_key (t_rules d)))) (\<lambda>remove.
       forEach remove (\<lambda>k. exec_stmt (\<lambda>d. d\<lparr>t_rules := delete_where (\<lambda>r. rule_key r = k) (t_rules d)\<rparr>)))"

section \<open>Presets and sources\<close>

definition sync_preset_put :: "string \<Rightarrow> BlocklistPreset \<Rightarrow> preset_row list \<Rightarrow> preset_row list" where
  "sync_preset_put now p rows =
     (let enabled = (if BP_Enabled p then 1 else 0)
      in upsert (\<lambda>r. pr_id r = BP_ID p) (\<lambda>r. r\<lparr>pr_enabled := enabled, pr_updated_at := now\<rparr>)
           (preset_new p enabled now) rows)"

definition sync_presets :: "string \<Rightarrow> BlocklistPreset list \<Rightarrow> (store, unit) comp" where
  "sync_presets now presets =
     forEach (filter (\<lambda>p. trim_space (BP_ID p) \<noteq> '''') presets)
       (\<lambda>p. exec_stmt (\<lambda>d. d\<lparr>t_presets := sync_preset_put now p (t_presets d)\<rparr>))"

definition valid_format :: "string \<Rightarrow> bool" where
  "valid_format f \<longleftrightarrow> f = '''' \<or> f = ''domains'' \<or> f = ''hosts'' \<or> f = ''adguard''"

definition validateHAImportedBlocklistSource :: "BlocklistSource \<Rightarrow> error option" where
  "validateHAImportedBlocklistSource source =
     (case url_Parse (BS_URL source) of
        None \<Rightarrow> Some (ErrMsg ''imported blocklist source has invalid url'')
      | Some parsed \<Rightarrow>
          if u_Scheme parsed = '''' \<or> u_Hostname parsed = '''' then Some (ErrMsg ''imported blocklist source has invalid url'')
          else if u_Scheme parsed \<noteq> ''http'' \<and> u_Scheme parsed \<noteq> ''https''
          then Some (ErrMsg ''imported blocklist source url must use http or https'')
          else if \<not> valid_format (to_lower (trim_space (BS_Format source)))
          then Some (ErrMsg ''imported blocklist source format must be domains, hosts, or adguard'')
          else None)"

definition sync_source_args :: "string \<Rightarrow> BlocklistSource \<Rightarrow> source_args" where
  "sync_source_args now source =
     (let format = to_lower (trim_space (BS_Format source))
      in \<lparr>ua_name = BS_Name source, ua_url = trim_space (BS_URL source),
          ua_format = (if format = '''' then ''domains'' else format),
          ua_enabled = (if BS_Enabled source then 1 else 0), ua_now = now\<rparr>)"

definition sync_source :: "string \<Rightarrow> BlocklistSource \<Rightarrow> (store, unit) comp" where
  "sync_source now source =
     (let source = source\<lparr>BS_URL := trim_space (BS_URL source)\<rparr>
      in if BS_URL source = '''' then ret ()
         else (case validateHAImportedBlocklistSource source of
             Some e \<Rightarrow> fail e
           | None \<Rightarrow> exec_stmt (\<lambda>d. d\<lparr>t_sources := source_put (sync_source_args now source) (t_sources d)\<rparr>)))"

definition source_urls :: "BlocklistSource list \<Rightarrow> string list" where
  "source_urls sources = filter (\<lambda>u. u \<noteq> '''') (map (\<lambda>s. trim_space (BS_URL s)) sources)"

definition drop_source :: "int \<Rightarrow> (store, unit) comp" where
  "drop_source sid =
     andThen (exec_stmt (\<lambda>d. d\<lparr>t_entries :=
       delete_where (\<lambda>r. en_source_type r = ''custom'' \<and> en_source_id r = itoa sid) (t_entries d)\<rparr>)) (\<lambda>_.
     exec_stmt (\<lambda>d. d\<lparr>t_sources := delete_where (\<lambda>r. so_id r = sid) (t_sources d)\<rparr>))"

definition deleteMissingBlocklistSources :: "string list \<Rightarrow> (store, unit) comp" where
  "deleteMissingBlocklistSources keep =
     andThen (query_db (\<lambda>d. map so_id (filter (\<lambda>r. so_url r \<notin> set keep) (t_sources d)))) (\<lambda>remove.
       forEach remove drop_source)"

section \<open>The import\<close>

definition sync_retention :: "RetentionSettings \<Rightarrow> (store, unit) comp" where
  "sync_retention rs =
     (if 0 < RS_Days rs
      then exec_stmt (\<lambda>d. d\<lparr>t_settings := settings_put (''retention.days'', itoa (RS_Days rs)) (t_settings d)\<rparr>)
      else ret ())"

definition sync_body :: "HASyncPayload \<Rightarrow> (store, string) comp" where
  "sync_body payload =
     andThen time_now (\<lambda>t.
     let now = fmt_time t
     in andThen (sync_records now (HP_StaticRecords payload)) (\<lambda>recordKeys.
        andThen (deleteMissingStaticRecords recordKeys) (\<lambda>_.
        andThen (sync_rules now (HP_Rules payload)) (\<lambda>ruleKeys.
        andThen (deleteMissingRules ruleKeys) (\<lambda>_.
        andThen (sync_presets now (HP_BlocklistPresets payload)) (\<lambda>_.
        andThen (forEach (HP_BlocklistSources payload) (sync_source now)) (\<lambda>_.
        andThen (deleteMissingBlocklistSources (source_urls (HP_BlocklistSources payload))) (\<lambda>_.
        andThen (sync_retention (HP_RetentionSettings payload)) (\<lambda>_.
        ret now)))))))))"

definition forget_caches :: "store \<Rightarrow> store" where
  "forget_caches s = invalidateBlocklistCache (invalidateRuleCache (invalidateStaticCache s))"

definition sync_counts :: "HASyncPayload \<Rightarrow> string" where
  "sync_counts p =
     ''records='' @ (itoa (int (length (HP_StaticRecords p))) @ ('' rules='' @ (itoa (int (length (HP_Rules p))) @
     ('' sources='' @ itoa (int (length (HP_BlocklistSources p)))))))"

definition ApplyHASyncPayload :: "HASyncPayload \<Rightarrow> (store, HASyncResult) comp" where
  "ApplyHASyncPayload payload =
     andThen (transaction (sync_body payload)) (\<lambda>now.
     andThen (modify forget_caches) (\<lambda>_.
     andThen (ignoring (setSetting ''ha.last_sync'' now)) (\<lambda>_.
     andThen (ignoring (setSetting ''ha.last_status'' ''sync received'')) (\<lambda>_.
     andThen (ignoring (Audit ''ha.sync.receive'' ''peer'' (sync_counts payload))) (\<lambda>_.
       ret \<lparr>HR_Status = ''ok'', HR_PeerURL = '''', HR_StaticRecords = int (length (HP_StaticRecords payload)),
            HR_Rules = int (length (HP_Rules payload)), HR_BlocklistPresets = int (length (HP_BlocklistPresets payload)),
            HR_BlocklistSources = int (length (HP_BlocklistSources payload)), HR_Error = ''''\<rparr>)))))"

section \<open>The push\<close>

text \<open>
  What \<open>POST peer/api/ha/import\<close> comes to, as a function of the URL, the token and the payload. The
  body of a good reply is decoded over the result prepared before.
\<close>

datatype push_reply = PushError error | PushNoAnswer string | PushStatus string | PushBadBody | Pushed "HASyncResult \<Rightarrow> HASyncResult"

definition pushHASync ::
  "cipher \<Rightarrow> (string \<Rightarrow> string \<Rightarrow> HASyncPayload \<Rightarrow> push_reply) \<Rightarrow> bool \<Rightarrow> (store, HASyncResult) comp" where
  "pushHASync c post audit =
     andThen (get_HASettings c) (\<lambda>settings.
       let result = \<lparr>HR_Status = ''disabled'', HR_PeerURL = HA_PeerURL settings, HR_StaticRecords = 0, HR_Rules = 0,
             HR_BlocklistPresets = 0, HR_BlocklistSources = 0, HR_Error = ''''\<rparr>;
           failing = (\<lambda>m. andThen (ignoring (setSetting ''ha.last_status'' m)) (\<lambda>_.
             ret (result\<lparr>HR_Status := ''error'', HR_Error := m\<rparr>)))
       in if \<not> HA_Enabled settings then ret result
          else if HA_PeerURL settings = '''' \<or> HA_PeerToken settings = '''' then failing ''peer URL and token are required''
          else andThen ExportHASyncPayload (\<lambda>payload.
            case post (HA_PeerURL settings @ ''/api/ha/import'') (HA_PeerToken settings) payload of
              PushError e \<Rightarrow> fail e
            | PushNoAnswer m \<Rightarrow> failing m
            | PushStatus m \<Rightarrow> failing m
            | PushBadBody \<Rightarrow> fail (ErrMsg ''invalid JSON'')
            | Pushed decode \<Rightarrow>
                (let result = (decode result)\<lparr>HR_PeerURL := HA_PeerURL settings\<rparr>
                 in andThen time_now (\<lambda>now.
                    andThen (ignoring (setSetting ''ha.last_sync'' (fmt_time now))) (\<lambda>_.
                    andThen (ignoring (setSetting ''ha.last_status'' ''sync pushed'')) (\<lambda>_.
                    andThen (if audit then ignoring (Audit ''ha.sync.push'' (HA_PeerURL settings)
                        (''records='' @ (itoa (HR_StaticRecords result) @ ('' rules='' @ (itoa (HR_Rules result) @
                         ('' sources='' @ itoa (HR_BlocklistSources result))))))) else ret ()) (\<lambda>_.
                    ret result)))))))"

definition PushHASync ::
  "cipher \<Rightarrow> (string \<Rightarrow> string \<Rightarrow> HASyncPayload \<Rightarrow> push_reply) \<Rightarrow> (store, HASyncResult) comp" where
  "PushHASync c post = pushHASync c post True"

definition runSync :: "cipher \<Rightarrow> (string \<Rightarrow> string \<Rightarrow> HASyncPayload \<Rightarrow> push_reply) \<Rightarrow> store \<Rightarrow> store" where
  \<comment> \<open>one tick of the worker: its results are only logged\<close>
  "runSync c post s =
     snd (andThen (get_HASettings c) (\<lambda>settings.
       if \<not> HA_Enabled settings \<or> HA_Role settings \<noteq> ''primary'' \<or> HA_PeerURL settings = '''' then ret ()
       else ignoring (pushHASync c post False)) s)"

section \<open>The tables after an import\<close>

interpretation sync_rules_table: keyed_upsert_id rule_key sync_rule_key sync_rule_merge sync_rule_fresh sync_rule_put rr_id
  by unfold_locales (simp_all add: sync_rule_put_def rule_key_def sync_rule_key_def sync_rule_fresh_def sync_rule_merge_def)

interpretation sync_presets_table: keyed_upsert pr_id BP_ID "\<lambda>p r. r\<lparr>pr_enabled := (if BP_Enabled p then 1 else 0), pr_updated_at := now\<rparr>"
  "\<lambda>p rows. preset_new p (if BP_Enabled p then 1 else 0) now" "sync_preset_put now"
  by unfold_locales (simp_all add: sync_preset_put_def preset_new_def Let_def)

text \<open>The specification of the import: the tables as a function of the payload and the tables before.\<close>

definition kept_static :: "string \<Rightarrow> HASyncPayload \<Rightarrow> static_row list \<Rightarrow> static_row list" where
  "kept_static now p rows =
     (let args = List.map_filter (sync_record now) (HP_StaticRecords p)
      in filter (\<lambda>r. static_text (static_key r) \<in> (\<lambda>n. static_text (sa_name n, sa_type n)) ` set args) (fold static_put args rows))"

definition kept_rules :: "string \<Rightarrow> HASyncPayload \<Rightarrow> rule_row list \<Rightarrow> rule_row list" where
  "kept_rules now p rows =
     (let args = List.map_filter (sync_rule now) (HP_Rules p)
      in filter (\<lambda>r. rule_text (rule_key r) \<in> (\<lambda>n. rule_text (sync_rule_key n)) ` set args) (fold sync_rule_put args rows))"

definition sources_written :: "string \<Rightarrow> HASyncPayload \<Rightarrow> source_row list \<Rightarrow> source_row list" where
  "sources_written now p rows =
     fold source_put (map (sync_source_args now) (filter (\<lambda>s. trim_space (BS_URL s) \<noteq> '''') (HP_BlocklistSources p))) rows"

definition dropped_sources :: "string \<Rightarrow> HASyncPayload \<Rightarrow> source_row list \<Rightarrow> int set" where
  "dropped_sources now p rows =
     so_id ` {r \<in> set (sources_written now p rows). so_url r \<notin> set (source_urls (HP_BlocklistSources p))}"

definition synced :: "string \<Rightarrow> HASyncPayload \<Rightarrow> db \<Rightarrow> db" where
  "synced now p d = d\<lparr>
     t_static := kept_static now p (t_static d),
     t_rules := kept_rules now p (t_rules d),
     t_presets := fold (sync_preset_put now) (filter (\<lambda>p. trim_space (BP_ID p) \<noteq> '''') (HP_BlocklistPresets p)) (t_presets d),
     t_sources := filter (\<lambda>r. so_id r \<notin> dropped_sources now p (t_sources d)) (sources_written now p (t_sources d)),
     t_entries := filter (\<lambda>r. en_source_type r = ''custom'' \<longrightarrow>
        en_source_id r \<notin> itoa ` dropped_sources now p (t_sources d)) (t_entries d),
     t_settings := (if 0 < RS_Days (HP_RetentionSettings p)
        then settings_put (''retention.days'', itoa (RS_Days (HP_RetentionSettings p))) (t_settings d) else t_settings d)\<rparr>"

text \<open>One statement after another on the same table.\<close>

lemma fold_static: "fold (\<lambda>x d. d\<lparr>t_static := g x (t_static d)\<rparr>) xs d = d\<lparr>t_static := fold g xs (t_static d)\<rparr>"
  by (induction xs arbitrary: d) simp_all

lemma fold_rules: "fold (\<lambda>x d. d\<lparr>t_rules := g x (t_rules d)\<rparr>) xs d = d\<lparr>t_rules := fold g xs (t_rules d)\<rparr>"
  by (induction xs arbitrary: d) simp_all

lemma fold_presets: "fold (\<lambda>x d. d\<lparr>t_presets := g x (t_presets d)\<rparr>) xs d = d\<lparr>t_presets := fold g xs (t_presets d)\<rparr>"
  by (induction xs arbitrary: d) simp_all

lemma fold_settings: "fold (\<lambda>x d. d\<lparr>t_settings := g x (t_settings d)\<rparr>) xs d = d\<lparr>t_settings := fold g xs (t_settings d)\<rparr>"
  by (induction xs arbitrary: d) simp_all

lemmas fold_tables = fold_static fold_rules fold_presets fold_settings

lemma sync_records_Inr:
  assumes "sync_records now rs s = (Inr keys, t)"
  shows "\<exists>e. t = s\<lparr>s_db := (s_db s)\<lparr>t_static := fold static_put (List.map_filter (sync_record now) rs) (t_static (s_db s))\<rparr>, s_env := e\<rparr> \<and>
    keys = map (\<lambda>n. static_text (sa_name n, sa_type n)) (List.map_filter (sync_record now) rs)"
proof -
  from assms obtain u where "forEach (List.map_filter (sync_record now) rs)
      (\<lambda>n. exec_stmt (\<lambda>d. d\<lparr>t_static := static_put n (t_static d)\<rparr>)) s = (Inr u, t)"
    and k: "keys = map (\<lambda>n. static_text (sa_name n, sa_type n)) (List.map_filter (sync_record now) rs)"
    by (auto simp: sync_records_def Let_def ret_def elim!: andThen_InrE)
  from forEach_exec_Inr [OF this(1)] k show ?thesis
    by (auto simp: fold_tables)
qed

lemma sync_rules_Inr:
  assumes "sync_rules now rs s = (Inr keys, t)"
  shows "\<exists>e. t = s\<lparr>s_db := (s_db s)\<lparr>t_rules := fold sync_rule_put (List.map_filter (sync_rule now) rs) (t_rules (s_db s))\<rparr>, s_env := e\<rparr> \<and>
    keys = map (\<lambda>n. rule_text (sync_rule_key n)) (List.map_filter (sync_rule now) rs)"
proof -
  from assms obtain u where "forEach (List.map_filter (sync_rule now) rs)
      (\<lambda>n. exec_stmt (\<lambda>d. d\<lparr>t_rules := sync_rule_put n (t_rules d)\<rparr>)) s = (Inr u, t)"
    and k: "keys = map (\<lambda>n. rule_text (sync_rule_key n)) (List.map_filter (sync_rule now) rs)"
    by (auto simp: sync_rules_def Let_def ret_def elim!: andThen_InrE)
  from forEach_exec_Inr [OF this(1)] k show ?thesis
    by (auto simp: fold_tables)
qed

lemma filter_not_removed: "filter (\<lambda>r. f r \<notin> set (filter (\<lambda>k. g k \<notin> K) (map f rows))) rows = filter (\<lambda>r. g (f r) \<in> K) rows"
  by (rule filter_cong) auto

lemma deleteMissingStaticRecords_Inr:
  assumes "deleteMissingStaticRecords keep s = (Inr u, t)"
  shows "\<exists>e. t = s\<lparr>s_db := (s_db s)\<lparr>t_static := filter (\<lambda>r. static_text (static_key r) \<in> set keep) (t_static (s_db s))\<rparr>, s_env := e\<rparr>"
proof -
  from assms obtain ks s1 where q: "query_db (\<lambda>d. filter (\<lambda>k. static_text k \<notin> set keep) (map static_key (t_static d))) s = (Inr ks, s1)"
    and f: "forEach ks (\<lambda>k. exec_stmt (\<lambda>d. d\<lparr>t_static := delete_where (\<lambda>r. static_key r = k) (t_static d)\<rparr>)) s1 = (Inr u, t)"
    by (auto simp: deleteMissingStaticRecords_def elim!: andThen_InrE)
  from q obtain e where "ks = filter (\<lambda>k. static_text k \<notin> set keep) (map static_key (t_static (s_db s)))" "s1 = s\<lparr>s_env := e\<rparr>"
    by (rule query_db_cases) auto
  with forEach_exec_Inr [OF f] show ?thesis
    by (auto simp: fold_static [where g = "\<lambda>k. delete_where (\<lambda>r. static_key r = k)"] fold_delete_where filter_not_removed
        simp del: set_filter set_map)
qed

lemma deleteMissingRules_Inr:
  assumes "deleteMissingRules keep s = (Inr u, t)"
  shows "\<exists>e. t = s\<lparr>s_db := (s_db s)\<lparr>t_rules := filter (\<lambda>r. rule_text (rule_key r) \<in> set keep) (t_rules (s_db s))\<rparr>, s_env := e\<rparr>"
proof -
  from assms obtain ks s1 where q: "query_db (\<lambda>d. filter (\<lambda>k. rule_text k \<notin> set keep) (map rule_key (t_rules d))) s = (Inr ks, s1)"
    and f: "forEach ks (\<lambda>k. exec_stmt (\<lambda>d. d\<lparr>t_rules := delete_where (\<lambda>r. rule_key r = k) (t_rules d)\<rparr>)) s1 = (Inr u, t)"
    by (auto simp: deleteMissingRules_def elim!: andThen_InrE)
  from q obtain e where "ks = filter (\<lambda>k. rule_text k \<notin> set keep) (map rule_key (t_rules (s_db s)))" "s1 = s\<lparr>s_env := e\<rparr>"
    by (rule query_db_cases) auto
  with forEach_exec_Inr [OF f] show ?thesis
    by (auto simp: fold_rules [where g = "\<lambda>k. delete_where (\<lambda>r. rule_key r = k)"] fold_delete_where filter_not_removed
        simp del: set_filter set_map)
qed

lemma sync_presets_Inr:
  assumes "sync_presets now ps s = (Inr u, t)"
  shows "\<exists>e. t = s\<lparr>s_db := (s_db s)\<lparr>t_presets := fold (sync_preset_put now) (filter (\<lambda>p. trim_space (BP_ID p) \<noteq> '''') ps) (t_presets (s_db s))\<rparr>, s_env := e\<rparr>"
  using forEach_exec_Inr [OF assms [unfolded sync_presets_def]] by (simp add: fold_tables)

lemma sync_sources_Inr:
  assumes "forEach ss (sync_source now) s = (Inr u, t)"
  shows "\<exists>e. t = s\<lparr>s_db := (s_db s)\<lparr>t_sources := fold source_put
      (map (sync_source_args now) (filter (\<lambda>s. trim_space (BS_URL s) \<noteq> '''') ss)) (t_sources (s_db s))\<rparr>, s_env := e\<rparr>"
  using assms
proof (induction ss arbitrary: s)
  case Nil
  then have "t = s\<lparr>s_db := (s_db s)\<lparr>t_sources := t_sources (s_db s)\<rparr>, s_env := s_env s\<rparr>"
    by (simp add: ret_def)
  then show ?case
    by auto
next
  case (Cons x ss)
  then obtain s1 where 1: "sync_source now x s = (Inr (), s1)" and 2: "forEach ss (sync_source now) s1 = (Inr u, t)"
    by (auto elim!: andThen_InrE)
  note IH = Cons.IH [OF 2]
  have "sync_source_args now (x\<lparr>BS_URL := trim_space (BS_URL x)\<rparr>) = sync_source_args now x"
    by (simp add: sync_source_args_def trim_space_idem)
  with 1 have "trim_space (BS_URL x) = '''' \<and> s1 = s \<or> trim_space (BS_URL x) \<noteq> '''' \<and>
      exec_stmt (\<lambda>d. d\<lparr>t_sources := source_put (sync_source_args now x) (t_sources d)\<rparr>) s = (Inr (), s1)"
    by (auto simp: sync_source_def ret_def fail_def Let_def split: if_splits option.splits)
  then show ?case
  proof (elim disjE conjE)
    assume "trim_space (BS_URL x) = ''''" and "s1 = s"
    with IH show ?thesis
      by simp
  next
    assume ne: "trim_space (BS_URL x) \<noteq> ''''"
      and "exec_stmt (\<lambda>d. d\<lparr>t_sources := source_put (sync_source_args now x) (t_sources d)\<rparr>) s = (Inr (), s1)"
    then obtain e where "s1 = s\<lparr>s_db := (s_db s)\<lparr>t_sources := source_put (sync_source_args now x) (t_sources (s_db s))\<rparr>, s_env := e\<rparr>"
      by (auto elim: exec_stmt_cases)
    with IH ne show ?thesis
      by auto
  qed
qed

lemma drop_sources_Inr:
  assumes "forEach ids drop_source s = (Inr u, t)"
  shows "\<exists>e. t = s\<lparr>s_db := (s_db s)\<lparr>
      t_sources := filter (\<lambda>r. so_id r \<notin> set ids) (t_sources (s_db s)),
      t_entries := filter (\<lambda>r. en_source_type r = ''custom'' \<longrightarrow> en_source_id r \<notin> itoa ` set ids) (t_entries (s_db s))\<rparr>, s_env := e\<rparr>"
  using assms
proof (induction ids arbitrary: s)
  case Nil
  then have "t = s\<lparr>s_db := (s_db s)\<lparr>t_sources := t_sources (s_db s), t_entries := t_entries (s_db s)\<rparr>, s_env := s_env s\<rparr>"
    by (simp add: ret_def)
  then show ?case
    by auto
next
  case (Cons i ids)
  then obtain s1 where 1: "drop_source i s = (Inr (), s1)" and 2: "forEach ids drop_source s1 = (Inr u, t)"
    by (auto elim!: andThen_InrE)
  from 1 obtain e where s1: "s1 = s\<lparr>s_db := (s_db s)\<lparr>
      t_entries := delete_where (\<lambda>r. en_source_type r = ''custom'' \<and> en_source_id r = itoa i) (t_entries (s_db s)),
      t_sources := delete_where (\<lambda>r. so_id r = i) (t_sources (s_db s))\<rparr>, s_env := e\<rparr>"
    by (auto simp: drop_source_def elim!: andThen_InrE exec_stmt_cases)
  have f1: "filter (\<lambda>r. so_id r \<notin> set ids) (delete_where (\<lambda>r. so_id r = i) rows) =
      filter (\<lambda>r. so_id r \<noteq> i \<and> so_id r \<notin> set ids) rows" for rows
    by (auto simp: delete_where_def intro!: filter_cong)
  have f2: "filter (\<lambda>r. en_source_type r = ''custom'' \<longrightarrow> en_source_id r \<notin> itoa ` set ids)
        (delete_where (\<lambda>r. en_source_type r = ''custom'' \<and> en_source_id r = itoa i) rows) =
      filter (\<lambda>r. en_source_type r = ''custom'' \<longrightarrow> en_source_id r \<noteq> itoa i \<and> en_source_id r \<notin> itoa ` set ids) rows" for rows
    by (auto simp: delete_where_def intro!: filter_cong)
  show ?case
    using Cons.IH [OF 2] by (cases "s_db s") (auto simp: s1 f1 f2)
qed

lemma deleteMissingBlocklistSources_Inr:
  assumes "deleteMissingBlocklistSources keep s = (Inr u, t)"
  shows "\<exists>e. t = s\<lparr>s_db := (s_db s)\<lparr>
      t_sources := filter (\<lambda>r. so_id r \<notin> so_id ` {r \<in> set (t_sources (s_db s)). so_url r \<notin> set keep}) (t_sources (s_db s)),
      t_entries := filter (\<lambda>r. en_source_type r = ''custom'' \<longrightarrow>
        en_source_id r \<notin> itoa ` so_id ` {r \<in> set (t_sources (s_db s)). so_url r \<notin> set keep}) (t_entries (s_db s))\<rparr>, s_env := e\<rparr>"
proof -
  from assms obtain ids s1 where q: "query_db (\<lambda>d. map so_id (filter (\<lambda>r. so_url r \<notin> set keep) (t_sources d))) s = (Inr ids, s1)"
    and f: "forEach ids drop_source s1 = (Inr u, t)"
    by (auto simp: deleteMissingBlocklistSources_def elim!: andThen_InrE)
  from q obtain e where "ids = map so_id (filter (\<lambda>r. so_url r \<notin> set keep) (t_sources (s_db s)))" "s1 = s\<lparr>s_env := e\<rparr>"
    by (rule query_db_cases) auto
  with drop_sources_Inr [OF f] show ?thesis
    by auto
qed

lemma sync_retention_Inr:
  assumes "sync_retention rs s = (Inr u, t)"
  shows "\<exists>e. t = s\<lparr>s_db := (s_db s)\<lparr>t_settings := (if 0 < RS_Days rs
      then settings_put (''retention.days'', itoa (RS_Days rs)) (t_settings (s_db s)) else t_settings (s_db s))\<rparr>, s_env := e\<rparr>"
proof (cases "0 < RS_Days rs")
  case True
  with assms show ?thesis
    by (auto simp: sync_retention_def elim!: exec_stmt_cases)
next
  case False
  with assms have "t = s\<lparr>s_db := (s_db s)\<lparr>t_settings := t_settings (s_db s)\<rparr>, s_env := s_env s\<rparr>"
    by (simp add: sync_retention_def ret_def)
  with False show ?thesis
    by auto
qed

lemma sync_body_Inr:
  assumes "sync_body p s = (Inr now, t)"
  shows "\<exists>e. t = s\<lparr>s_db := synced now p (s_db s), s_env := e\<rparr>"
proof -
  let ?d = "s_db s"
  let ?rargs = "List.map_filter (sync_record now) (HP_StaticRecords p)" and ?yargs = "List.map_filter (sync_rule now) (HP_Rules p)"
  from assms obtain tm s0 k1 s1 s2 k2 s3 s4 s5 u6 s6 s7 where
    0: "time_now s = (Inr tm, s0)" and 1: "sync_records now (HP_StaticRecords p) s0 = (Inr k1, s1)"
    and 2: "deleteMissingStaticRecords k1 s1 = (Inr (), s2)" and 3: "sync_rules now (HP_Rules p) s2 = (Inr k2, s3)"
    and 4: "deleteMissingRules k2 s3 = (Inr (), s4)" and 5: "sync_presets now (HP_BlocklistPresets p) s4 = (Inr (), s5)"
    and 6: "forEach (HP_BlocklistSources p) (sync_source now) s5 = (Inr u6, s6)"
    and 7: "deleteMissingBlocklistSources (source_urls (HP_BlocklistSources p)) s6 = (Inr (), s7)"
    and 8: "sync_retention (HP_RetentionSettings p) s7 = (Inr (), t)"
    by (auto simp: sync_body_def Let_def ret_def elim!: andThen_InrE)
  from 0 obtain e0 where s0: "s0 = s\<lparr>s_env := e0\<rparr>"
    by (auto elim: time_now_cases)
  from sync_records_Inr [OF 1] obtain e1 where
    s1: "s1 = s\<lparr>s_db := ?d\<lparr>t_static := fold static_put ?rargs (t_static ?d)\<rparr>, s_env := e1\<rparr>"
    and k1: "k1 = map (\<lambda>n. static_text (sa_name n, sa_type n)) ?rargs"
    by (auto simp: s0)
  from deleteMissingStaticRecords_Inr [OF 2] obtain e2 where
    s2: "s2 = s\<lparr>s_db := ?d\<lparr>t_static := kept_static now p (t_static ?d)\<rparr>, s_env := e2\<rparr>"
    by (auto simp: s1 k1 kept_static_def Let_def)
  from sync_rules_Inr [OF 3] obtain e3 where
    s3: "s3 = s\<lparr>s_db := ?d\<lparr>t_static := kept_static now p (t_static ?d), t_rules := fold sync_rule_put ?yargs (t_rules ?d)\<rparr>, s_env := e3\<rparr>"
    and k2: "k2 = map (\<lambda>n. rule_text (sync_rule_key n)) ?yargs"
    by (auto simp: s2)
  from deleteMissingRules_Inr [OF 4] obtain e4 where
    s4: "s4 = s\<lparr>s_db := ?d\<lparr>t_static := kept_static now p (t_static ?d), t_rules := kept_rules now p (t_rules ?d)\<rparr>, s_env := e4\<rparr>"
    by (auto simp: s3 k2 kept_rules_def Let_def)
  from sync_presets_Inr [OF 5] sync_sources_Inr [OF 6] obtain e6 where
    s6: "s6 = s\<lparr>s_db := ?d\<lparr>t_static := kept_static now p (t_static ?d), t_rules := kept_rules now p (t_rules ?d),
       t_presets := fold (sync_preset_put now) (filter (\<lambda>p. trim_space (BP_ID p) \<noteq> '''') (HP_BlocklistPresets p)) (t_presets ?d),
       t_sources := sources_written now p (t_sources ?d)\<rparr>, s_env := e6\<rparr>"
    by (auto simp: s4 sources_written_def)
  from deleteMissingBlocklistSources_Inr [OF 7] sync_retention_Inr [OF 8] show ?thesis
    by (auto simp: s6 synced_def dropped_sources_def)
qed

lemma db_only_sync_body: "db_only (sync_body p)"
proof -
  have "db_only (sync_source now x)" for now x
    by (auto simp: sync_source_def Let_def intro: keeps_intro split: option.split)
  then show ?thesis
    unfolding sync_body_def sync_records_def sync_rules_def sync_presets_def sync_retention_def deleteMissingStaticRecords_def
      deleteMissingRules_def deleteMissingBlocklistSources_def drop_source_def Let_def
    by (intro keeps_intro)
qed

text \<open>What comes after the commit touches neither the policy tables nor the caches again.\<close>

definition after_commit :: "store \<Rightarrow> store \<Rightarrow> bool" where
  "after_commit s t \<longleftrightarrow> (\<exists>rows audit e. t = s\<lparr>s_db := (s_db s)\<lparr>t_settings := rows, t_audit := audit\<rparr>, s_env := e\<rparr> \<and>
     setting ''retention.days'' (s_db t) = setting ''retention.days'' (s_db s))"

lemma after_commit_refl: "after_commit s (s\<lparr>s_env := e\<rparr>)"
  unfolding after_commit_def by (intro exI [of _ "t_settings (s_db s)"] exI [of _ "t_audit (s_db s)"] exI [of _ e]) simp

lemma after_commit_trans: "after_commit s t \<Longrightarrow> after_commit t u \<Longrightarrow> after_commit s u"
  unfolding after_commit_def by (elim exE conjE, intro exI conjI) (auto simp del: ex_simps)

lemma ignoring_setting_commit:
  assumes "ignoring (setSetting k v) s = (r, t)" and "k \<noteq> ''retention.days''"
  shows "r = Inr () \<and> after_commit s t"
proof -
  obtain r1 t1 where x: "setSetting k v s = (r1, t1)"
    by fastforce
  with assms(1) have r: "r = Inr ()" and t: "t = t1"
    by (simp_all add: ignoring_def)
  from x have "after_commit s t1"
    unfolding setSetting_def
  proof (cases rule: exec_stmt_cases)
    case (okay e)
    have "setting ''retention.days'' (s_db t1) = setting ''retention.days'' (s_db s)"
      using assms(2) by (simp add: okay(2) setting_put_other)
    then show ?thesis
      unfolding after_commit_def okay(2)
      by (intro exI [of _ "settings_put (k, v) (t_settings (s_db s))"] exI [of _ "t_audit (s_db s)"] exI [of _ e]) simp
  next
    case (failed e x)
    then show ?thesis
      by (simp add: after_commit_refl)
  qed
  with r t show ?thesis
    by simp
qed

lemma ignoring_Audit_commit:
  assumes "ignoring (Audit a b c) s = (r, t)"
  shows "r = Inr () \<and> after_commit s t"
  using assms
proof (rule ignoring_Audit_cases)
  fix e rows assume "r = Inr ()" and t: "t = s\<lparr>s_db := (s_db s)\<lparr>t_audit := rows\<rparr>, s_env := e\<rparr>"
  moreover have "after_commit s t"
    unfolding after_commit_def t
    by (intro exI [of _ "t_settings (s_db s)"] exI [of _ rows] exI [of _ e]) (simp add: setting_def)
  ultimately show ?thesis
    by simp
qed

lemma ApplyHASyncPayload_cases:
  assumes "ApplyHASyncPayload p s = (r, t)"
  obtains (failed) x e where "r = Inl x" "t = s\<lparr>s_env := e\<rparr>"
  | (okay) res now e where "r = Inr res" "HR_Status res = ''ok''"
      "after_commit (forget_caches (s\<lparr>s_db := synced now p (s_db s), s_env := e\<rparr>)) t"
proof -
  obtain r1 s1 where 1: "transaction (sync_body p) s = (r1, s1)"
    by fastforce
  show ?thesis
  proof (cases r1)
    case (Inl x)
    with assms 1 have "r = Inl x" "t = s1"
      by (auto simp: ApplyHASyncPayload_def andThen_def)
    with transaction_Inl [OF 1 [unfolded Inl] db_only_sync_body] failed show ?thesis
      by blast
  next
    case (Inr now)
    from 1 [unfolded Inr] obtain e u e' where "sync_body p (s\<lparr>s_env := e\<rparr>) = (Inr now, u)" "s1 = u\<lparr>s_env := e'\<rparr>"
      by (rule transaction_Inr)
    with sync_body_Inr obtain e1 where s1: "s1 = s\<lparr>s_db := synced now p (s_db s), s_env := e1\<rparr>"
      by fastforce
    obtain r2 s2 where 2: "ignoring (setSetting ''ha.last_sync'' now) (forget_caches s1) = (r2, s2)"
      by fastforce
    obtain r3 s3 where 3: "ignoring (setSetting ''ha.last_status'' ''sync received'') s2 = (r3, s3)"
      by fastforce
    obtain r4 s4 where 4: "ignoring (Audit ''ha.sync.receive'' ''peer'' (sync_counts p)) s3 = (r4, s4)"
      by fastforce
    note c = ignoring_setting_commit [OF 2] ignoring_setting_commit [OF 3] ignoring_Audit_commit [OF 4]
    then have "after_commit (forget_caches s1) s4"
      by (auto intro: after_commit_trans)
    moreover have "t = s4" and "\<exists>res. r = Inr res \<and> HR_Status res = ''ok''"
      using assms 1 Inr 2 3 4 c by (auto simp: ApplyHASyncPayload_def andThen_def modify_def ret_def)
    ultimately show ?thesis
      using okay s1 by blast
  qed
qed

section \<open>What the secondary holds\<close>

definition payload_rule_keys :: "HASyncPayload \<Rightarrow> string set" where
  \<comment> \<open>the rules of the payload that count: with a target, and an action that is block or allow\<close>
  "payload_rule_keys p = (\<lambda>n. rule_text (sync_rule_key n)) ` set (List.map_filter (sync_rule '''') (HP_Rules p))"

definition payload_static_keys :: "HASyncPayload \<Rightarrow> string set" where
  "payload_static_keys p =
     (\<lambda>n. static_text (sa_name n, sa_type n)) ` set (List.map_filter (sync_record '''') (HP_StaticRecords p))"

lemma sync_keys_any_time:
  "(\<lambda>n. rule_text (sync_rule_key n)) ` set (List.map_filter (sync_rule now) rs) =
     (\<lambda>n. rule_text (sync_rule_key n)) ` set (List.map_filter (sync_rule '''') rs)"
  "(\<lambda>n. static_text (sa_name n, sa_type n)) ` set (List.map_filter (sync_record now) ss) =
     (\<lambda>n. static_text (sa_name n, sa_type n)) ` set (List.map_filter (sync_record '''') ss)"
proof -
  have r: "sync_rule now x = map_option (\<lambda>n. n\<lparr>yr_now := now\<rparr>) (sync_rule '''' x)" for x
    by (simp add: sync_rule_def Let_def)
  have s: "sync_record now x = map_option (\<lambda>n. n\<lparr>sa_now := now\<rparr>) (sync_record '''' x)" for x
    by (simp add: sync_record_def Let_def)
  show "(\<lambda>n. rule_text (sync_rule_key n)) ` set (List.map_filter (sync_rule now) rs) =
     (\<lambda>n. rule_text (sync_rule_key n)) ` set (List.map_filter (sync_rule '''') rs)"
    by (induction rs) (auto simp: List.map_filter_def r sync_rule_key_def image_iff split: option.splits)
  show "(\<lambda>n. static_text (sa_name n, sa_type n)) ` set (List.map_filter (sync_record now) ss) =
     (\<lambda>n. static_text (sa_name n, sa_type n)) ` set (List.map_filter (sync_record '''') ss)"
    by (induction ss) (auto simp: List.map_filter_def s image_iff split: option.splits)
qed

lemma kept_rules_keys: "(\<lambda>r. rule_text (rule_key r)) ` set (kept_rules now p rows) = payload_rule_keys p"
proof -
  let ?args = "List.map_filter (sync_rule now) (HP_Rules p)"
  have "(\<lambda>r. rule_text (rule_key r)) ` set (kept_rules now p rows) =
      rule_text ` rule_key ` set (fold sync_rule_put ?args rows) \<inter> (\<lambda>n. rule_text (sync_rule_key n)) ` set ?args"
    unfolding kept_rules_def Let_def by (rule keys_filter)
  also have "\<dots> = (\<lambda>n. rule_text (sync_rule_key n)) ` set ?args"
    unfolding sync_rules_table.fold_put_keys
    by (simp only: image_Un image_image Un_Int_eq)
  finally show ?thesis
    by (simp only: payload_rule_keys_def sync_keys_any_time(1) [where now = now])
qed

lemma kept_static_keys: "(\<lambda>r. static_text (static_key r)) ` set (kept_static now p rows) = payload_static_keys p"
proof -
  let ?args = "List.map_filter (sync_record now) (HP_StaticRecords p)"
  have "(\<lambda>r. static_text (static_key r)) ` set (kept_static now p rows) =
      static_text ` static_key ` set (fold static_put ?args rows) \<inter> (\<lambda>n. static_text (sa_name n, sa_type n)) ` set ?args"
    unfolding kept_static_def Let_def by (rule keys_filter)
  also have "\<dots> = (\<lambda>n. static_text (sa_name n, sa_type n)) ` set ?args"
    unfolding static_table.fold_put_keys
    by (simp only: image_Un image_image Un_Int_eq)
  finally show ?thesis
    by (simp only: payload_static_keys_def sync_keys_any_time(2) [where now = now])
qed

definition sources_ok :: "db \<Rightarrow> bool" where
  \<comment> \<open>the primary key and the unique URL of the table\<close>
  "sources_ok d \<longleftrightarrow> distinct (map so_id (t_sources d)) \<and> distinct (map so_url (t_sources d))"

lemma inj_on_same_key: "distinct (map f xs) \<Longrightarrow> x \<in> set xs \<Longrightarrow> y \<in> set xs \<Longrightarrow> f x = f y \<Longrightarrow> x = y"
  by (auto simp: distinct_map dest: inj_onD)

lemma sync_source_args_url: "ua_url (sync_source_args now x) = trim_space (BS_URL x)"
  by (simp add: sync_source_args_def Let_def)

lemma sync_source_urls:
  assumes "sources_ok d"
  shows "so_url ` set (t_sources (synced now p d)) = set (source_urls (HP_BlocklistSources p))"
proof -
  let ?rows = "sources_written now p (t_sources d)"
  have ids: "distinct (map so_id ?rows)"
    using assms unfolding sources_written_def sources_ok_def by (blast intro: sources_table.fold_put_rids_distinct)
  have keys: "so_url ` set ?rows = set (source_urls (HP_BlocklistSources p)) \<union> so_url ` set (t_sources d)"
    unfolding sources_written_def sources_table.fold_put_keys source_urls_def set_map set_filter image_image sync_source_args_url
    by auto
  have "so_id r \<notin> dropped_sources now p (t_sources d) \<longleftrightarrow> so_url r \<in> set (source_urls (HP_BlocklistSources p))"
    if "r \<in> set ?rows" for r
    using inj_on_same_key [OF ids that] that by (auto simp: dropped_sources_def)
  then have "set (t_sources (synced now p d)) = {r \<in> set ?rows. so_url r \<in> set (source_urls (HP_BlocklistSources p))}"
    by (auto simp: synced_def)
  with keys show ?thesis
    by auto
qed


text \<open>
  Rules decide in the order of their ids, and an import leaves the ids of the secondary alone: the
  rules that it already has keep theirs, the others follow.
\<close>

lemma works_Rules: "works Rules"
  unfolding works_def
proof (intro allI impI)
  fix s :: store
  assume f: "faults (s_env s) = []"
  from worksE [OF works_query_db f] obtain a u where
    "query_db (\<lambda>d. map scanRule (select_rules d)) s = (Inr a, u)" "faults (s_env u) = []" .
  with f show "\<exists>a t. Rules s = (Inr a, t) \<and> faults (s_env t) = []"
    by (simp add: Rules_def)
qed

lemma works_MatchRule: "works (MatchRule q)"
  unfolding MatchRule_def Let_def by (intro keeps_intro works_Rules)

lemma works_modify [keeps_intro]: "(\<And>s. s_env (f s) = s_env s) \<Longrightarrow> works (modify f)"
  by (simp add: works_def modify_def)

lemma works_forEach_set: "\<forall>x \<in> set xs. works (f x) \<Longrightarrow> works (forEach xs f)"
  by (induction xs) (auto intro: keeps_intro)

lemma works_sync_source:
  assumes "validateHAImportedBlocklistSource (x\<lparr>BS_URL := trim_space (BS_URL x)\<rparr>) = None"
  shows "works (sync_source now x)"
  using assms unfolding sync_source_def Let_def by (auto intro: keeps_intro)

lemma works_sync_body:
  assumes "\<forall>x \<in> set (HP_BlocklistSources p). validateHAImportedBlocklistSource (x\<lparr>BS_URL := trim_space (BS_URL x)\<rparr>) = None"
  shows "works (sync_body p)"
proof -
  have "works (forEach (HP_BlocklistSources p) (sync_source now))" for now
    by (rule works_forEach_set) (use assms works_sync_source in blast)
  moreover have "works (forEach ids drop_source)" for ids
    unfolding drop_source_def by (intro keeps_intro)
  ultimately show ?thesis
    unfolding sync_body_def sync_records_def sync_rules_def sync_presets_def sync_retention_def deleteMissingStaticRecords_def
      deleteMissingRules_def deleteMissingBlocklistSources_def Let_def
    by (intro works_andThen works_ret works_if works_time_now works_query_db works_exec_stmt)
      (assumption | intro works_forEach works_exec_stmt)+
qed

lemma works_Apply:
  assumes "\<forall>x \<in> set (HP_BlocklistSources p). validateHAImportedBlocklistSource (x\<lparr>BS_URL := trim_space (BS_URL x)\<rparr>) = None"
  shows "works (ApplyHASyncPayload p)"
  unfolding ApplyHASyncPayload_def setSetting_def
  by (intro keeps_intro works_sync_body assms)
    (simp add: forget_caches_def invalidateRuleCache_def invalidateStaticCache_def invalidateBlocklistCache_def)

text \<open>A primary with an exception before its block rule, and a secondary that already has the block rule.\<close>

definition pair_payload :: "string \<Rightarrow> HASyncPayload" where
  "pair_payload now = \<lparr>HP_StaticRecords = [], HP_Rules = map scanRule (t_rules sample_rules_db), HP_BlocklistPresets = [],
     HP_BlocklistSources = [], HP_RetentionSettings = \<lparr>RS_Days = 30, RS_LastPurge = ''''\<rparr>, HP_SyncedAt = now\<rparr>"

definition secondary_db :: db where
  "secondary_db = empty_db\<lparr>t_rules := [sample_rule 1 ''ads.com.'' ''block'']\<rparr>"

lemma pair_names:
  "NormalizeName ''ads.com.'' = ''ads.com.''" "NormalizeName ''ok.ads.com.'' = ''ok.ads.com.''"
  "to_lower (trim_space ''block'') = ''block''" "to_lower (trim_space ''allow'') = ''allow''"
  "NormalizeName ''x.ok.ads.com'' = ''x.ok.ads.com.''" "has_suffix ''x.ok.ads.com.'' ''.ads.com.''"
  "has_suffix ''x.ok.ads.com.'' ''.ok.ads.com.''"
  by code_simp+

lemma pair_export:
  "\<exists>t. ExportHASyncPayload (sample_store sample_rules_db) = (Inr (pair_payload (fmt_time 0)), t) \<and>
     rulesLoaded t \<and> rulesCache t = map scanRule (t_rules sample_rules_db) \<and> faults (s_env t) = []"
  by (simp add: ExportHASyncPayload_def StaticRecords_def Rules_def BlocklistPresets_def BlocklistSources_def Retention_def
      RetentionDays_def read_setting_def setting_def run_simps clamp_days_Nil sample_rules_db_def empty_db_def select_rules_def select_static_def
      pair_payload_def sample_rule_def)

lemma secondary_rules:
  "\<exists>now'. kept_rules now (pair_payload x) (t_rules secondary_db) =
     [sample_rule 1 ''ads.com.'' ''block'', (sample_rule 2 ''ok.ads.com.'' ''allow'')\<lparr>rr_created_at := now'\<rparr>]"
  by (auto simp: kept_rules_def pair_payload_def secondary_db_def sample_rules_db_def sample_rule_def empty_db_def sync_rule_def
      scanRule_def pair_names sync_rule_put_def upsert_def rule_key_def sync_rule_key_def sync_rule_fresh_def sync_rule_merge_def
      next_rowid_def Let_def List.map_filter_def)


text \<open>
  C34. An import stores sources that the administrator could not add: a URL whose host resolves to a
  private address is refused by \<open>AddBlocklistSource\<close> in every state, and an import that carries it
  leaves it in the table, from which it is fetched.
\<close>

theorem import_skips_the_address_check:
  assumes "ApplyHASyncPayload p s = (Inr res, t)" and "sources_ok (s_db s)"
    and "source \<in> set (HP_BlocklistSources p)" and "u = trim_space (BS_URL source)" and "u \<noteq> ''''"
    and "url_Parse u = Some parsed" and "Lookup (u_Hostname parsed) = Inr ips" and "ip \<in> set ips" and "isPrivateFetchIP ip"
  shows "u \<in> so_url ` set (t_sources (s_db t)) \<and> isl (fst (AddBlocklistSource Lookup name u format s'))"
proof
  from assms(1) obtain now e where
    "after_commit (forget_caches (s\<lparr>s_db := synced now p (s_db s), s_env := e\<rparr>)) t"
    by (cases rule: ApplyHASyncPayload_cases) auto
  then have "t_sources (s_db t) = t_sources (synced now p (s_db s))"
    by (auto simp: after_commit_def forget_caches_def invalidateRuleCache_def invalidateStaticCache_def invalidateBlocklistCache_def)
  with sync_source_urls [OF assms(2), of now p] assms(3-5) show "u \<in> so_url ` set (t_sources (s_db t))"
    by (auto simp: source_urls_def)
next
  have "list_ex isPrivateFetchIP ips"
    using assms(8,9) by (auto simp: list_ex_iff)
  then have "\<exists>e. validatePublicHTTPURL Lookup u = Inl e"
    using assms(6,7) by (simp add: validatePublicHTTPURL_def)
  then show "isl (fst (AddBlocklistSource Lookup name u format s'))"
    using assms(4) by (auto simp: AddBlocklistSource_def Let_def fail_def)
qed

section \<open>The properties at a concrete input\<close>

definition private_source :: BlocklistSource where
  "private_source = \<lparr>BS_ID = 1, BS_Name = ''list'', BS_URL = ''http://10.0.0.1/list.txt'', BS_Format = ''domains'', BS_Enabled = True,
     BS_LastStatus = '''', BS_LastChecked = '''', BS_CreatedAt = ''''\<rparr>"

definition private_payload :: HASyncPayload where
  "private_payload = (pair_payload '''')\<lparr>HP_BlocklistSources := [private_source]\<rparr>"

lemma private_scheme: "getScheme ''http://10.0.0.1/list.txt'' = Some (''http'', ''//10.0.0.1/list.txt'')"
proof -
  have chars: "alpha CHR ''h''" "alpha CHR ''t''" "alpha CHR ''p''" "\<not> alpha CHR '':''" "\<not> is_digit CHR '':''"
    by (simp_all add: alpha_def lower_char_def is_digit_def)
  then have "index_where (\<lambda>c. \<not> alpha c \<and> \<not> is_digit c \<and> c \<notin> set ''+-.'') ''http://10.0.0.1/list.txt'' = Some 4"
    unfolding index_where.simps by simp
  with chars(1) show ?thesis
    unfolding getScheme_def by simp
qed

lemma private_url_parts:
  "cut_at ''http://10.0.0.1/list.txt'' CHR ''#'' = ''http://10.0.0.1/list.txt''"
  "list_ex ctl_byte ''http://10.0.0.1/list.txt'' = False"
  "cut_at ''//10.0.0.1/list.txt'' CHR ''?'' = ''//10.0.0.1/list.txt''"
  "cut_at ''10.0.0.1/list.txt'' CHR ''/'' = ''10.0.0.1''"
  "parseAuthority ''10.0.0.1'' = Some ''10.0.0.1''" "escapes_ok ''/list.txt''" "to_lower ''http'' = ''http''"
  "has_prefix ''//10.0.0.1/list.txt'' ''/''" "has_prefix ''//10.0.0.1/list.txt'' ''//''"
  by code_simp+

lemma private_url:
  "url_Parse ''http://10.0.0.1/list.txt'' = Some \<lparr>u_Scheme = ''http'', u_Host = ''10.0.0.1''\<rparr>"
proof -
  have "escapes_ok (drop (length ''http://10.0.0.1/list.txt'' + 1) ''http://10.0.0.1/list.txt'')"
    by simp
  moreover have "escapes_ok (drop (length ''10.0.0.1'') (drop 2 ''//10.0.0.1/list.txt''))"
    using private_url_parts(6) by (simp del: escapes_ok.simps)
  moreover have "cut_at (drop 2 ''//10.0.0.1/list.txt'') CHR ''/'' = ''10.0.0.1''"
    using private_url_parts(4) by simp
  ultimately show ?thesis
    by (simp only: url_Parse_def Let_def private_url_parts private_scheme option.case prod.case simp_thms if_False if_True list.distinct)
qed

lemma private_hostname: "u_Hostname \<lparr>u_Scheme = ''http'', u_Host = ''10.0.0.1''\<rparr> = ''10.0.0.1''"
  by code_simp

lemma private_payload_run:
  "\<exists>res t. ApplyHASyncPayload private_payload (sample_store secondary_db) = (Inr res, t)"
proof -
  have "trim_space (BS_URL private_source) = ''http://10.0.0.1/list.txt''" "valid_format (to_lower (trim_space ''domains''))"
    by code_simp+
  then have "validateHAImportedBlocklistSource (private_source\<lparr>BS_URL := trim_space (BS_URL private_source)\<rparr>) = None"
    by (simp add: validateHAImportedBlocklistSource_def private_url private_hostname private_source_def)
  then have "works (ApplyHASyncPayload private_payload)"
    by (intro works_Apply) (simp add: private_payload_def)
  then show ?thesis
    by (rule worksE [where s = "sample_store secondary_db"]) auto
qed


lemma import_skips_the_address_check_witness:
  "\<exists>res t. ApplyHASyncPayload private_payload (sample_store secondary_db) = (Inr res, t) \<and>
     ''http://10.0.0.1/list.txt'' \<in> so_url ` set (t_sources (s_db t)) \<and>
     isl (fst (AddBlocklistSource (\<lambda>_. Inr [[10, 0, 0, 1]]) '''' ''http://10.0.0.1/list.txt'' '''' (sample_store empty_db)))"
proof -
  obtain res t where run: "ApplyHASyncPayload private_payload (sample_store secondary_db) = (Inr res, t)"
    using private_payload_run by blast
  have ok: "sources_ok (s_db (sample_store secondary_db))"
    by (simp add: sources_ok_def secondary_db_def empty_db_def)
  have mem: "private_source \<in> set (HP_BlocklistSources private_payload)"
    by (simp add: private_payload_def)
  have u: "''http://10.0.0.1/list.txt'' = trim_space (BS_URL private_source)"
    by code_simp
  have "isPrivateFetchIP [10, 0, 0, 1]"
    by code_simp
  with import_skips_the_address_check [OF run ok mem u _ private_url, of "\<lambda>_. Inr [[10, 0, 0, 1]]"] run show ?thesis
    by auto
qed

end
