(* ===== verification/Store_Hosts.thy ===== *)
theory Store_Hosts
  imports Store_Base Identity
begin

text \<open>
  Hosts: \<open>EnsureHost\<close>, \<open>SetHostLabel\<close>, \<open>UpdateHostIdentity\<close>, \<open>EnrichHostIdentity\<close>, \<open>Host\<close> and
  \<open>Hosts\<close> of internal/store/store.go. What the resolver, \<open>arp\<close> and \<open>dns-sd\<close> say about an address
  is a parameter of the enrichment.
\<close>

section \<open>Recording a source address\<close>

definition host_new :: "string \<Rightarrow> string \<Rightarrow> host_row list \<Rightarrow> host_row" where
  "host_new ip now rows = \<lparr>ho_id = next_rowid (map ho_id rows), ho_source_ip = ip, ho_label = '''',
     ho_hostname = '''', ho_mac = '''', ho_vendor = '''', ho_group = ''Default'',
     ho_confidence = ''source_ip'', ho_last_checked = '''', ho_first_seen = now, ho_last_seen = now,
     ho_query_count = 0, ho_block_count = 0, ho_notes = ''''\<rparr>"

definition host_insert :: "string \<Rightarrow> string \<Rightarrow> host_row list \<Rightarrow> host_row list" where
  "host_insert ip now rows = insert_ignore (\<lambda>h. ho_source_ip h = ip) (host_new ip now rows) rows"

definition host_seen :: "string \<Rightarrow> string \<Rightarrow> host_row list \<Rightarrow> host_row list" where
  "host_seen ip now rows = update_where (\<lambda>h. ho_source_ip h = ip) (\<lambda>h. h\<lparr>ho_last_seen := now\<rparr>) rows"

definition known_ip :: "string \<Rightarrow> string" where
  "known_ip sourceIP = (let sourceIP = trim_space sourceIP in if ParseIP sourceIP = [] then ''unknown'' else sourceIP)"

definition host_display :: "string \<Rightarrow> host_row \<Rightarrow> string" where
  "host_display sourceIP h =
     (if ho_label h \<noteq> '''' then ho_label h else if ho_hostname h \<noteq> '''' then ho_hostname h else sourceIP)"

definition EnsureHost :: "string \<Rightarrow> (store, int \<times> string) comp" where
  "EnsureHost sourceIP =
     (let sourceIP = known_ip sourceIP
      in andThen time_now (\<lambda>now.
         andThen (exec_stmt (\<lambda>d. d\<lparr>t_hosts := host_insert sourceIP (fmt_time now) (t_hosts d)\<rparr>)) (\<lambda>_.
         andThen (exec_stmt (\<lambda>d. d\<lparr>t_hosts := host_seen sourceIP (fmt_time now) (t_hosts d)\<rparr>)) (\<lambda>_.
         query_row (\<lambda>d. map_option (\<lambda>h. (ho_id h, host_display sourceIP h))
           (find (\<lambda>h. ho_source_ip h = sourceIP) (t_hosts d)))))))"

definition SetHostLabel :: "int \<Rightarrow> string \<Rightarrow> (store, unit) comp" where
  "SetHostLabel hid label =
     andThen (exec_stmt (\<lambda>d. d\<lparr>t_hosts := update_where (\<lambda>h. ho_id h = hid)
         (\<lambda>h. h\<lparr>ho_label := trim_space label\<rparr>) (t_hosts d)\<rparr>)) (\<lambda>_.
     ignoring (Audit ''host.label'' (itoa hid) label))"

definition find_host :: "int \<Rightarrow> db \<Rightarrow> host_row option" where
  "find_host hid d = find (\<lambda>h. ho_id h = hid) (t_hosts d)"

definition get_host :: "int \<Rightarrow> (store, host_row) comp" where
  \<comment> \<open>the method \<open>Host\<close>; the columns of the row are the fields of the struct\<close>
  "get_host hid = query_row (find_host hid)"

definition Hosts :: "(store, host_row list) comp" where
  "Hosts = query_db (\<lambda>d. rev (sort_key ho_last_seen (t_hosts d)))"

section \<open>Identity\<close>

record HostIdentityUpdate =
  HI_Hostname :: string
  HI_MAC :: string
  HI_Vendor :: string
  HI_Confidence :: string

definition or_current :: "string \<Rightarrow> string \<Rightarrow> string" where
  "or_current new current = (if new = '''' then current else new)"

definition merge_identity :: "HostIdentityUpdate \<Rightarrow> string \<Rightarrow> host_row \<Rightarrow> host_row" where
  \<comment> \<open>the \<open>UPDATE hosts SET ... CASE WHEN ...\<close>\<close>
  "merge_identity u now h =
     (let over = (\<lambda>current new.
            if (current = '''' \<or> HI_Confidence u = ''unifi'') \<and> new \<noteq> '''' then new else current)
      in h\<lparr>ho_hostname := over (ho_hostname h) (HI_Hostname u),
           ho_mac := over (ho_mac h) (HI_MAC u),
           ho_vendor := over (ho_vendor h) (HI_Vendor u),
           ho_confidence := (if HI_Confidence u \<noteq> '''' \<and>
               (ho_confidence h = ''source_ip'' \<or> HI_Confidence u = ''unifi'')
             then HI_Confidence u else ho_confidence h),
           ho_last_checked := now\<rparr>)"

definition observe :: "int \<Rightarrow> string \<Rightarrow> string \<Rightarrow> string \<Rightarrow> db \<Rightarrow> db" where
  "observe hid source val now d = d\<lparr>t_observations := t_observations d @
     [\<lparr>ob_id = next_rowid (map ob_id (t_observations d)), ob_host_id = hid, ob_source = source,
       ob_value = val, ob_observed_at = now\<rparr>]\<rparr>"

text \<open>
  The observations are written in the order in which Go walks a map of three keys; no code reads
  them back, and the order below stands for any.
\<close>

definition UpdateHostIdentity :: "int \<Rightarrow> HostIdentityUpdate \<Rightarrow> (store, unit) comp" where
  "UpdateHostIdentity hid update =
     (let update = \<lparr>HI_Hostname = cleanHostname (HI_Hostname update), HI_MAC = normalizeMAC (HI_MAC update),
            HI_Vendor = trim_space (HI_Vendor update), HI_Confidence = trim_space (HI_Confidence update)\<rparr>
      in andThen time_now (\<lambda>now.
         transaction
           (andThen (query_row (find_host hid)) (\<lambda>h.
            let u = \<lparr>HI_Hostname = or_current (HI_Hostname update) (ho_hostname h),
                     HI_MAC = or_current (HI_MAC update) (ho_mac h),
                     HI_Vendor = or_current (HI_Vendor update) (ho_vendor h),
                     HI_Confidence = or_current (HI_Confidence update) (ho_confidence h)\<rparr>
            in andThen (exec_stmt (\<lambda>d. d\<lparr>t_hosts := update_where (\<lambda>h. ho_id h = hid)
                 (merge_identity u (fmt_time now)) (t_hosts d)\<rparr>)) (\<lambda>_.
               forEach [(''hostname'', HI_Hostname u), (''mac'', HI_MAC u), (''vendor'', HI_Vendor u)]
                 (\<lambda>(source, val). if val = '''' then ret ()
                    else exec_stmt (observe hid source val (fmt_time now))))))))"

text \<open>The outcome of the three lookups about one address.\<close>

record lookups =
  lk_ptr :: "string list option"
  lk_arp :: string
  lk_dnssd :: string

definition lookupPTRHostname :: "lookups \<Rightarrow> string" where
  "lookupPTRHostname lk =
     (case lk_ptr lk of
        None \<Rightarrow> ''''
      | Some names \<Rightarrow> (case find (\<lambda>n. cleanHostname n \<noteq> '''') names of Some n \<Rightarrow> cleanHostname n | None \<Rightarrow> ''''))"

definition lookupARPIdentity :: "lookups \<Rightarrow> string \<Rightarrow> string \<times> string" where
  \<comment> \<open>\<open>lk_arp\<close> is the output of the first \<open>arp\<close> that printed anything; empty when none did\<close>
  "lookupARPIdentity lk sourceIP = parseARPOutput (lk_arp lk) sourceIP"

definition lookupMDNSPTR :: "lookups \<Rightarrow> string \<Rightarrow> string" where
  "lookupMDNSPTR lk sourceIP = (if reversePTRName sourceIP = '''' then '''' else parseDNSSDPTR (lk_dnssd lk))"

definition enrich_update :: "lookups \<Rightarrow> string \<Rightarrow> HostIdentityUpdate" where
  "enrich_update lk sourceIP =
     (let ptr = lookupPTRHostname lk;
          update = \<lparr>HI_Hostname = ptr, HI_MAC = '''', HI_Vendor = '''',
                    HI_Confidence = (if ptr \<noteq> '''' then ''ptr'' else '''')\<rparr>;
          (arpHostname, mac) = lookupARPIdentity lk sourceIP;
          update = (if HI_Hostname update = '''' \<and> arpHostname \<noteq> ''''
                    then update\<lparr>HI_Hostname := arpHostname, HI_Confidence := ''arp''\<rparr> else update);
          update = (if mac \<noteq> ''''
                    then update\<lparr>HI_MAC := mac, HI_Vendor := vendorFromMAC mac,
                           HI_Confidence := (if HI_Confidence update = '''' then ''arp'' else HI_Confidence update)\<rparr>
                    else update);
          mdns = lookupMDNSPTR lk sourceIP
      in if mdns \<noteq> '''' \<and> HI_Hostname update = ''''
         then update\<lparr>HI_Hostname := mdns, HI_Confidence := ''mdns''\<rparr> else update)"

definition EnrichHostIdentity :: "lookups \<Rightarrow> int \<Rightarrow> string \<Rightarrow> (store, unit) comp" where
  "EnrichHostIdentity lk hid sourceIP =
     (let sourceIP = trim_space sourceIP
      in if ParseIP sourceIP = [] \<or> sourceIP = ''unknown'' then ret ()
         else UpdateHostIdentity hid (enrich_update lk sourceIP))"

section \<open>The table\<close>

definition host_row_ok :: "host_row \<Rightarrow> bool" where
  "host_row_ok h \<longleftrightarrow> 0 < ho_id h \<and> 0 \<le> ho_query_count h \<and> 0 \<le> ho_block_count h \<and>
     (ho_source_ip h = ''unknown'' \<or> ParseIP (ho_source_ip h) \<noteq> [])"

definition hosts_table_ok :: "host_row list \<Rightarrow> bool" where
  "hosts_table_ok rows \<longleftrightarrow> distinct (map ho_id rows) \<and> distinct (map ho_source_ip rows) \<and>
     (\<forall>h \<in> set rows. host_row_ok h)"

lemma hosts_update_ok:
  assumes "hosts_table_ok rows" and "\<And>h. ho_id (f h) = ho_id h \<and> ho_source_ip (f h) = ho_source_ip h"
    and "\<And>h. 0 \<le> ho_query_count h \<and> 0 \<le> ho_block_count h \<Longrightarrow> 0 \<le> ho_query_count (f h) \<and> 0 \<le> ho_block_count (f h)"
  shows "hosts_table_ok (update_where P f rows)"
proof -
  from assms(1) have "distinct (map ho_id (update_where P f rows))"
    and "distinct (map ho_source_ip (update_where P f rows))"
    by (simp_all only: hosts_table_ok_def map_update_where [of ho_id f, OF conjunct1 [OF assms(2)]]
        map_update_where [of ho_source_ip f, OF conjunct2 [OF assms(2)]])
  moreover have "\<forall>h \<in> set (update_where P f rows). host_row_ok h"
    by (rule ball_update_where) (use assms in \<open>auto simp: hosts_table_ok_def host_row_ok_def\<close>)
  ultimately show ?thesis
    by (simp add: hosts_table_ok_def)
qed

lemma known_ip_ok: "known_ip ip = ''unknown'' \<or> ParseIP (known_ip ip) \<noteq> []"
  by (simp add: known_ip_def Let_def)

lemma host_insert_ok:
  assumes "hosts_table_ok rows" and "ip = ''unknown'' \<or> ParseIP ip \<noteq> []"
  shows "hosts_table_ok (host_insert ip now rows)"
proof (cases "list_ex (\<lambda>h. ho_source_ip h = ip) rows")
  case False
  then have "ip \<notin> ho_source_ip ` set rows"
    by (auto simp: list_ex_iff)
  moreover have "next_rowid (map ho_id rows) \<notin> ho_id ` set rows"
    using next_rowid_fresh [of "map ho_id rows"] by (simp del: next_rowid_fresh)
  moreover have "0 < next_rowid (map ho_id rows)"
    using assms(1) by (intro next_rowid_pos) (auto simp: hosts_table_ok_def host_row_ok_def)
  ultimately show ?thesis
    using assms False by (auto simp: hosts_table_ok_def host_row_ok_def host_insert_def insert_ignore_def host_new_def)
qed (use assms in \<open>simp add: host_insert_def insert_ignore_def\<close>)

lemma host_seen_ok: "hosts_table_ok rows \<Longrightarrow> hosts_table_ok (host_seen ip now rows)"
  unfolding host_seen_def by (rule hosts_update_ok) auto

lemma merge_identity_ok: "hosts_table_ok rows \<Longrightarrow> hosts_table_ok (update_where P (merge_identity u now) rows)"
  by (rule hosts_update_ok) (auto simp: merge_identity_def Let_def)

section \<open>What the operations do\<close>

lemma find_host_insert:
  "find (\<lambda>h. ho_source_ip h = ip) (host_insert ip now rows) =
     Some (case find (\<lambda>h. ho_source_ip h = ip) rows of None \<Rightarrow> host_new ip now rows | Some h \<Rightarrow> h)"
  by (auto simp: host_insert_def insert_ignore_def list_ex_find find_append host_new_def split: option.splits)

lemma EnsureHost_effect:
  assumes "EnsureHost ip s = (Inr (hid, display), t)" and "hosts_table_ok (t_hosts (s_db s))"
  shows "hosts_table_ok (t_hosts (s_db t)) \<and>
    (\<exists>h. filter (\<lambda>h. ho_source_ip h = known_ip ip) (t_hosts (s_db t)) = [h] \<and> ho_id h = hid \<and>
       display = host_display (known_ip ip) h \<and>
       (\<forall>h0. find (\<lambda>h. ho_source_ip h = known_ip ip) (t_hosts (s_db s)) = Some h0 \<longrightarrow>
          h = h0\<lparr>ho_last_seen := ho_last_seen h\<rparr>)) \<and>
    filter (\<lambda>h. ho_source_ip h \<noteq> known_ip ip) (t_hosts (s_db t)) =
      filter (\<lambda>h. ho_source_ip h \<noteq> known_ip ip) (t_hosts (s_db s))"
proof -
  let ?ip = "known_ip ip"
  from assms(1) obtain now s0 s1 s2 where
    0: "time_now s = (Inr now, s0)"
    and 1: "exec_stmt (\<lambda>d. d\<lparr>t_hosts := host_insert ?ip (fmt_time now) (t_hosts d)\<rparr>) s0 = (Inr (), s1)"
    and 2: "exec_stmt (\<lambda>d. d\<lparr>t_hosts := host_seen ?ip (fmt_time now) (t_hosts d)\<rparr>) s1 = (Inr (), s2)"
    and 3: "query_row (\<lambda>d. map_option (\<lambda>h. (ho_id h, host_display ?ip h))
           (find (\<lambda>h. ho_source_ip h = ?ip) (t_hosts d))) s2 = (Inr (hid, display), t)"
    by (auto simp: EnsureHost_def Let_def elim!: andThen_InrE)
  from 0 obtain e0 where s0: "s0 = s\<lparr>s_env := e0\<rparr>"
    by (rule time_now_cases) auto
  from 1 obtain e1 where s1: "s1 = s0\<lparr>s_db := (s_db s0)\<lparr>t_hosts := host_insert ?ip (fmt_time now) (t_hosts (s_db s0))\<rparr>, s_env := e1\<rparr>"
    by (rule exec_stmt_cases) auto
  from 2 obtain e2 where s2: "s2 = s1\<lparr>s_db := (s_db s1)\<lparr>t_hosts := host_seen ?ip (fmt_time now) (t_hosts (s_db s1))\<rparr>, s_env := e2\<rparr>"
    by (rule exec_stmt_cases) auto
  from 3 obtain e3 h where t: "t = s2\<lparr>s_env := e3\<rparr>"
    and h: "find (\<lambda>h. ho_source_ip h = ?ip) (t_hosts (s_db s2)) = Some h" "ho_id h = hid" "display = host_display ?ip h"
    by (rule query_row_cases) auto
  define ins where "ins = host_insert ?ip (fmt_time now) (t_hosts (s_db s))"
  have rows: "t_hosts (s_db t) = host_seen ?ip (fmt_time now) ins"
    by (simp add: t s2 s1 s0 ins_def)
  have ok: "hosts_table_ok (t_hosts (s_db t))"
    unfolding rows ins_def by (intro host_seen_ok host_insert_ok assms(2) known_ip_ok)
  have hin: "h \<in> set (t_hosts (s_db t))" and hip: "ho_source_ip h = ?ip"
    using h(1) by (auto simp: t dest: find_Some_mem)
  have "filter (\<lambda>x. ho_source_ip x = ?ip) (t_hosts (s_db t)) = [h]"
  proof -
    have "distinct (map ho_source_ip xs) \<Longrightarrow> h \<in> set xs \<Longrightarrow> filter (\<lambda>x. ho_source_ip x = ho_source_ip h) xs = [h]" for xs
      by (induction xs) (auto simp: filter_empty_conv image_iff)
    with ok hin show ?thesis
      by (simp add: hosts_table_ok_def hip)
  qed
  moreover have "h = h0\<lparr>ho_last_seen := ho_last_seen h\<rparr>"
    if "find (\<lambda>h. ho_source_ip h = ?ip) (t_hosts (s_db s)) = Some h0" for h0
  proof -
    have "find (\<lambda>h. ho_source_ip h = ?ip) ins = Some h0"
      by (simp add: ins_def find_host_insert that)
    moreover have "find (\<lambda>h. ho_source_ip h = ?ip) (host_seen ?ip n xs) =
        map_option (\<lambda>h. h\<lparr>ho_last_seen := n\<rparr>) (find (\<lambda>h. ho_source_ip h = ?ip) xs)" for n xs
      by (induction xs) (auto simp: host_seen_def update_where_def)
    ultimately have "h = h0\<lparr>ho_last_seen := fmt_time now\<rparr>"
      using h(1) rows by (simp add: t)
    then show ?thesis
      by simp
  qed
  moreover have "filter (\<lambda>h. ho_source_ip h \<noteq> ?ip) (t_hosts (s_db t)) = filter (\<lambda>h. ho_source_ip h \<noteq> ?ip) (t_hosts (s_db s))"
    unfolding rows host_seen_def
    by (subst filter_update_where_other) (auto simp: ins_def host_insert_def insert_ignore_def host_new_def)
  ultimately show ?thesis
    using ok h(2,3) by blast
qed

lemma EnsureHost_frame:
  assumes "EnsureHost ip s = (r, t)"
  shows "\<exists>rows e. t = s\<lparr>s_db := (s_db s)\<lparr>t_hosts := rows\<rparr>, s_env := e\<rparr>"
proof -
  let ?ip = "known_ip ip"
  let ?P = "\<lambda>s t. \<exists>rows e. t = s\<lparr>s_db := (s_db s)\<lparr>t_hosts := rows\<rparr>, s_env := e\<rparr>"
  have trans: "?P s t \<Longrightarrow> ?P t u \<Longrightarrow> ?P s u" for s t u
    by force
  have env: "?P s (s\<lparr>s_env := e\<rparr>)" for s :: store and e
    by (rule exI [of _ "t_hosts (s_db s)"], rule exI [of _ e]) simp
  have run: "andThen m k s = (r, t) \<Longrightarrow> (\<And>r1 s1. m s = (r1, s1) \<Longrightarrow> ?P s s1) \<Longrightarrow>
      (\<And>a s1 r t. k a s1 = (r, t) \<Longrightarrow> ?P s1 t) \<Longrightarrow> ?P s t" for m :: "(store, 'b) comp" and k :: "'b \<Rightarrow> (store, 'c) comp" and s r t
  proof -
    assume *: "andThen m k s = (r, t)" "\<And>r1 s1. m s = (r1, s1) \<Longrightarrow> ?P s s1" "\<And>a s1 r t. k a s1 = (r, t) \<Longrightarrow> ?P s1 t"
    obtain r1 s1 where m: "m s = (r1, s1)"
      by fastforce
    show "?P s t"
    proof (cases r1)
      case (Inl e)
      with * m show ?thesis
        by (simp add: andThen_def)
    next
      case (Inr a)
      with * m have "?P s s1" "?P s1 t"
        by (auto simp: andThen_def)
      then show ?thesis
        by (rule trans)
    qed
  qed
  have stmt: "?P s t" if "exec_stmt (\<lambda>d. d\<lparr>t_hosts := f (t_hosts d)\<rparr>) s = (r, t)" for f s r t
    using that by (cases rule: exec_stmt_cases) (use env in auto)
  show ?thesis
    using assms unfolding EnsureHost_def Let_def
    by (elim run stmt time_now_cases query_row_cases) (use env in \<open>simp_all\<close>)
qed

text \<open>
  C25. \<open>EnsureHost\<close> that returns: the table then holds exactly one row for the address (or for
  \<open>unknown\<close> when the text is no IP address) and the id returned is that row's; a known host keeps its
  row but for \<open>last_seen\<close>, every other host is untouched, and the table stays well formed.
\<close>

theorem EnsureHost_registers:
  assumes "EnsureHost ip s = (Inr (hid, display), t)" and "hosts_table_ok (t_hosts (s_db s))"
  shows "hosts_table_ok (t_hosts (s_db t)) \<and>
    (\<exists>h. filter (\<lambda>h. ho_source_ip h = known_ip ip) (t_hosts (s_db t)) = [h] \<and> ho_id h = hid \<and>
       display = host_display (known_ip ip) h \<and>
       (\<forall>h0. find (\<lambda>h. ho_source_ip h = known_ip ip) (t_hosts (s_db s)) = Some h0 \<longrightarrow>
          h = h0\<lparr>ho_last_seen := ho_last_seen h\<rparr>)) \<and>
    filter (\<lambda>h. ho_source_ip h \<noteq> known_ip ip) (t_hosts (s_db t)) =
      filter (\<lambda>h. ho_source_ip h \<noteq> known_ip ip) (t_hosts (s_db s))"
  using assms by (rule EnsureHost_effect)

section \<open>The properties at a concrete input\<close>

lemma EnsureHost_registers_witness:
  "\<exists>hid display t. EnsureHost ''192.168.1.7'' (sample_store empty_db) = (Inr (hid, display), t) \<and>
     hosts_table_ok (t_hosts (s_db t)) \<and>
     (\<exists>h. filter (\<lambda>h. ho_source_ip h = ''192.168.1.7'') (t_hosts (s_db t)) = [h])"
proof -
  have ip: "known_ip ''192.168.1.7'' = ''192.168.1.7''"
    by code_simp
  obtain hid display t where run: "EnsureHost ''192.168.1.7'' (sample_store empty_db) = (Inr (hid, display), t)"
    by (simp add: EnsureHost_def ip run_simps empty_db_def host_insert_def insert_ignore_def host_seen_def
        update_where_def host_new_def)
  have "hosts_table_ok (t_hosts (s_db (sample_store empty_db)))"
    by (simp add: hosts_table_ok_def empty_db_def)
  from EnsureHost_registers [OF run this] run ip show ?thesis
    by auto
qed

end
