(* ===== verification/Store_UniFi.thy ===== *)
theory Store_UniFi
  imports Store_HA Store_Hosts Store_Blocklist
begin

text \<open>
  The import of host names from a UniFi controller, of internal/store/store.go: the settings, the four
  endpoints tried in turn, the clients read out of a reply and the update of the hosts. The controller
  is a parameter: a function of the URL and the key.
\<close>

section \<open>Settings\<close>

record UniFiSettings =
  UF_Enabled :: bool
  UF_BaseURL :: string
  UF_Site :: string
  UF_APIKey :: string
  UF_HasAPIKey :: bool
  UF_LastImport :: string
  UF_LastStatus :: string

definition unifi_settings_of :: "cipher \<Rightarrow> string \<Rightarrow> (string \<times> string) list \<Rightarrow> UniFiSettings" where
  "unifi_settings_of c key rows =
     (let api = decryptSecret c key (value_in rows ''unifi.api_key'')
      in \<lparr>UF_Enabled = (value_in rows ''unifi.enabled'' = ''true''), UF_BaseURL = value_in rows ''unifi.base_url'',
          UF_Site = (if value_in rows ''unifi.site'' \<noteq> '''' then value_in rows ''unifi.site'' else ''default''),
          UF_APIKey = api, UF_HasAPIKey = (api \<noteq> ''''), UF_LastImport = value_in rows ''unifi.last_import'',
          UF_LastStatus = value_in rows ''unifi.last_status''\<rparr>)"

definition get_UniFiSettings :: "cipher \<Rightarrow> (store, UniFiSettings) comp" where
  "get_UniFiSettings c =
     andThen (query_db (settings_like ''unifi.'')) (\<lambda>rows.
     andThen (gets secretKey) (\<lambda>key. ret (unifi_settings_of c key rows)))"

definition clean_unifi_settings :: "UniFiSettings \<Rightarrow> UniFiSettings" where
  "clean_unifi_settings u =
     (let site = trim_space (UF_Site u)
      in u\<lparr>UF_BaseURL := trim_right (trim_space (UF_BaseURL u)) ''/'', UF_Site := (if site = '''' then ''default'' else site),
           UF_APIKey := trim_space (UF_APIKey u)\<rparr>)"

definition unifi_pairs :: "cipher \<Rightarrow> string \<Rightarrow> string \<Rightarrow> UniFiSettings \<Rightarrow> error + (string \<times> string) list" where
  "unifi_pairs c nonce key u =
     (let pairs = [(''unifi.enabled'', bool_text (UF_Enabled u)), (''unifi.base_url'', UF_BaseURL u), (''unifi.site'', UF_Site u)]
      in if UF_APIKey u = '''' then Inr pairs
         else (case encryptSecret c key nonce (UF_APIKey u) of
             Inl e \<Rightarrow> Inl e
           | Inr enc \<Rightarrow> Inr (pairs @ [(''unifi.api_key'', enc)])))"

definition SaveUniFiSettings :: "cipher \<Rightarrow> string \<Rightarrow> UniFiSettings \<Rightarrow> (store, UniFiSettings) comp" where
  "SaveUniFiSettings c nonce settings =
     (let u = clean_unifi_settings settings
      in if UF_BaseURL u \<noteq> '''' \<and> \<not> full_url (UF_BaseURL u)
         then fail (ErrMsg ''base_url must be a full http:// or https:// URL'')
         else andThen (transaction (andThen (gets secretKey) (\<lambda>key.
                case unifi_pairs c nonce key u of Inl e \<Rightarrow> fail e | Inr pairs \<Rightarrow> put_settings pairs))) (\<lambda>_.
              andThen (ignoring (Audit ''unifi.settings'' (UF_BaseURL u)
                ((''enabled='' @ bool_text (UF_Enabled u)) @ '' site='' @ UF_Site u))) (\<lambda>_.
              andThen (get_UniFiSettings c) (\<lambda>out. ret (out\<lparr>UF_APIKey := ''''\<rparr>)))))"

section \<open>The controller\<close>

definition path_plain :: "char \<Rightarrow> bool" where
  \<comment> \<open>not \<open>shouldEscape(c, encodePathSegment)\<close>\<close>
  "path_plain c = (alpha c \<or> is_digit c \<or> c \<in> set ''-_.~$&+=:@'')"

definition PathEscape :: "string \<Rightarrow> string" where
  "PathEscape s = concat (map (\<lambda>c. if path_plain c then [c]
     else [CHR ''%'', upper_char (hex_digit (of_char c div 16)), upper_char (hex_digit (of_char c mod 16))]) s)"

text \<open>
  One request: an error before any reply, or a status with the decoded \<open>data\<close> of the body (\<open>Inl\<close> when
  the body, at most 20 MB of it, is no such JSON).
\<close>

datatype unifi_reply = NoUniFi string | UniFiReply int "error + (string \<rightharpoonup> json_value) list"

record uniFiClient =
  UC_IP :: string
  UC_Hostname :: string
  UC_MAC :: string
  UC_Vendor :: string

definition unifi_client :: "(string \<rightharpoonup> json_value) \<Rightarrow> uniFiClient" where
  "unifi_client raw =
     (let mac = normalizeMAC (firstString raw [''mac'']); vendor = firstString raw [''oui'', ''vendor'']
      in \<lparr>UC_IP = firstString raw [''ip'', ''last_ip'', ''fixed_ip''],
          UC_Hostname = cleanHostname (firstString raw [''hostname'', ''name'', ''display_name'', ''dev_alias'']),
          UC_MAC = mac, UC_Vendor = (if vendor = '''' then vendorFromMAC mac else vendor)\<rparr>)"

definition useful_client :: "uniFiClient \<Rightarrow> bool" where
  "useful_client client \<longleftrightarrow> UC_IP client \<noteq> '''' \<and> (UC_Hostname client \<noteq> '''' \<or> UC_MAC client \<noteq> '''')"

definition fetchUniFiEndpoint :: "(string \<Rightarrow> string \<Rightarrow> unifi_reply) \<Rightarrow> string \<Rightarrow> string \<Rightarrow> error + uniFiClient list" where
  "fetchUniFiEndpoint controller endpoint apiKey =
     (case controller endpoint apiKey of
        NoUniFi m \<Rightarrow> Inl (ErrMsg m)
      | UniFiReply status body \<Rightarrow>
          if status < 200 \<or> 300 \<le> status
          then Inl (ErrMsg (''UniFi returned HTTP '' @ itoa status @ '' for '' @ endpoint))
          else (case body of
              Inl e \<Rightarrow> Inl e
            | Inr data \<Rightarrow>
                (let clients = filter useful_client (map unifi_client data)
                 in if clients = [] then Inl (ErrMsg ''UniFi request succeeded but returned no clients with IP/name data'')
                    else Inr clients)))"

fun first_endpoint :: "(string \<Rightarrow> error + 'a) \<Rightarrow> string list \<Rightarrow> error \<Rightarrow> error + 'a" where
  \<comment> \<open>the first that succeeds, else the last error\<close>
  "first_endpoint try_one [] lastErr = Inl lastErr"
| "first_endpoint try_one (endpoint # endpoints) lastErr =
     (case try_one endpoint of Inr clients \<Rightarrow> Inr clients | Inl e \<Rightarrow> first_endpoint try_one endpoints e)"

definition unifi_endpoints :: "string \<Rightarrow> string \<Rightarrow> string list" where
  "unifi_endpoints base site =
     [base @ ''/proxy/network/api/s/'' @ PathEscape site @ ''/stat/sta'',
      base @ ''/proxy/network/api/s/'' @ PathEscape site @ ''/rest/user'',
      base @ ''/api/s/'' @ PathEscape site @ ''/stat/sta'',
      base @ ''/api/s/'' @ PathEscape site @ ''/rest/user'']"

definition fetchUniFiClients :: "(string \<Rightarrow> string \<Rightarrow> unifi_reply) \<Rightarrow> UniFiSettings \<Rightarrow> error + uniFiClient list" where
  "fetchUniFiClients controller settings =
     (let base = trim_right (trim_space (UF_BaseURL settings)) ''/''; site = trim_space (UF_Site settings);
          site = (if site = '''' then ''default'' else site)
      in if base = '''' then Inl (ErrMsg ''UniFi base URL is required'')
         else if UF_APIKey settings = '''' then Inl (ErrMsg ''UniFi API key is required'')
         else first_endpoint (\<lambda>endpoint. fetchUniFiEndpoint controller endpoint (UF_APIKey settings))
                (unifi_endpoints base site) (ErrMsg ''no UniFi endpoints attempted''))"

section \<open>Test and import\<close>

record UniFiImportResult =
  UR_Status :: string
  UR_Seen :: int
  UR_Updated :: int
  UR_Error :: string

definition no_import :: UniFiImportResult where
  "no_import = \<lparr>UR_Status = '''', UR_Seen = 0, UR_Updated = 0, UR_Error = ''''\<rparr>"

text \<open>Both methods return a result next to an error, and their callers use the result in either case.\<close>

definition TestUniFi :: "cipher \<Rightarrow> (string \<Rightarrow> string \<Rightarrow> unifi_reply) \<Rightarrow> store \<Rightarrow> (UniFiImportResult \<times> error option) \<times> store" where
  "TestUniFi c controller s =
     (case get_UniFiSettings c s of
        (Inl e, s) \<Rightarrow> ((no_import, Some e), s)
      | (Inr settings, s) \<Rightarrow>
          (let (result, err) = (case fetchUniFiClients controller settings of
                 Inl e \<Rightarrow> (no_import\<lparr>UR_Status := ''error'', UR_Error := error_text e\<rparr>, Some e)
               | Inr clients \<Rightarrow> (no_import\<lparr>UR_Status := ''ok'', UR_Seen := int (length clients)\<rparr>, None))
           in ((result, err), snd (setSetting ''unifi.last_status'' (UR_Status result) s))))"

definition import_client :: "uniFiClient \<Rightarrow> (store, int) comp" where
  \<comment> \<open>one turn of the loop: how many hosts it has updated\<close>
  "import_client client =
     (if ParseIP (UC_IP client) = [] then ret 0
      else andThen (EnsureHost (UC_IP client)) (\<lambda>(hostID, _).
           andThen (UpdateHostIdentity hostID \<lparr>HI_Hostname = UC_Hostname client, HI_MAC = UC_MAC client,
             HI_Vendor = UC_Vendor client, HI_Confidence = ''unifi''\<rparr>) (\<lambda>_. ret 1)))"

definition import_clients :: "uniFiClient list \<Rightarrow> (store, int) comp" where
  "import_clients clients = andThen (collect import_client clients) (\<lambda>ns. ret (sum_list ns))"

definition ImportUniFiClients ::
  "cipher \<Rightarrow> (string \<Rightarrow> string \<Rightarrow> unifi_reply) \<Rightarrow> store \<Rightarrow> (UniFiImportResult \<times> error option) \<times> store" where
  "ImportUniFiClients c controller s =
     (case get_UniFiSettings c s of
        (Inl e, s) \<Rightarrow> ((no_import, Some e), s)
      | (Inr settings, s) \<Rightarrow>
          if \<not> UF_Enabled settings
          then ((no_import\<lparr>UR_Status := ''disabled'', UR_Error := ''UniFi import is disabled''\<rparr>, None), s)
          else (case fetchUniFiClients controller settings of
              Inl e \<Rightarrow> ((no_import\<lparr>UR_Status := ''error'', UR_Error := error_text e\<rparr>, Some e),
                        snd (setSetting ''unifi.last_status'' (''error: '' @ error_text e) s))
            | Inr clients \<Rightarrow>
                (case import_clients clients s of
                   (Inl e, s) \<Rightarrow> ((no_import, Some e), s)
                 | (Inr updated, s) \<Rightarrow>
                     ((no_import\<lparr>UR_Status := ''ok'', UR_Seen := int (length clients), UR_Updated := updated\<rparr>, None),
                      snd (andThen time_now (\<lambda>now.
                           andThen (ignoring (setSetting ''unifi.last_import'' (fmt_time now))) (\<lambda>_.
                           andThen (ignoring (setSetting ''unifi.last_status'' ''ok'')) (\<lambda>_.
                           ignoring (Audit ''unifi.import'' (UF_BaseURL settings)
                             ((''seen='' @ itoa (int (length clients))) @ '' updated='' @ itoa updated))))) s)))))"

section \<open>What an import does\<close>

text \<open>An update of an identity touches one row of the hosts, and the observations.\<close>

lemma UpdateHostIdentity_Inr:
  assumes "UpdateHostIdentity hid update s = (Inr (), t)"
  obtains u now obs e where "HI_Confidence u = or_current (trim_space (HI_Confidence update)) (HI_Confidence u)"
    "t = s\<lparr>s_db := (s_db s)\<lparr>t_hosts := update_where (\<lambda>h. ho_id h = hid) (merge_identity u now) (t_hosts (s_db s)),
       t_observations := obs\<rparr>, s_env := e\<rparr>"
proof -
  let ?up = "\<lparr>HI_Hostname = cleanHostname (HI_Hostname update), HI_MAC = normalizeMAC (HI_MAC update),
            HI_Vendor = trim_space (HI_Vendor update), HI_Confidence = trim_space (HI_Confidence update)\<rparr>"
  let ?u = "\<lambda>h. \<lparr>HI_Hostname = or_current (HI_Hostname ?up) (ho_hostname h), HI_MAC = or_current (HI_MAC ?up) (ho_mac h),
     HI_Vendor = or_current (HI_Vendor ?up) (ho_vendor h), HI_Confidence = or_current (HI_Confidence ?up) (ho_confidence h)\<rparr>"
  let ?loop = "\<lambda>h now. forEach [(''hostname'', HI_Hostname (?u h)), (''mac'', HI_MAC (?u h)), (''vendor'', HI_Vendor (?u h))]
                 (\<lambda>(source, val). if val = '''' then ret () else exec_stmt (observe hid source val (fmt_time now)))"
  let ?change = "\<lambda>h now. andThen (exec_stmt (\<lambda>d. d\<lparr>t_hosts := update_where (\<lambda>h. ho_id h = hid) (merge_identity (?u h) (fmt_time now)) (t_hosts d)\<rparr>))
     (\<lambda>_. ?loop h now)"
  from assms obtain now s1 where tn: "time_now s = (Inr now, s1)"
    and tr: "transaction (andThen (query_row (find_host hid)) (\<lambda>h. ?change h now)) s1 = (Inr (), t)"
    unfolding UpdateHostIdentity_def Let_def by (rule andThen_InrE)
  from tn obtain e1 where s1: "s1 = s\<lparr>s_env := e1\<rparr>"
    by (rule time_now_cases) auto
  from tr obtain e2 v e3 where body: "andThen (query_row (find_host hid)) (\<lambda>h. ?change h now) (s1\<lparr>s_env := e2\<rparr>) = (Inr (), v)"
    and t: "t = v\<lparr>s_env := e3\<rparr>"
    by (rule transaction_Inr)
  from body obtain h s2 where q: "query_row (find_host hid) (s1\<lparr>s_env := e2\<rparr>) = (Inr h, s2)" and w: "?change h now s2 = (Inr (), v)"
    by (rule andThen_InrE)
  from q obtain e4 where s2: "s2 = s\<lparr>s_env := e4\<rparr>"
    by (rule query_row_cases) (auto simp: s1)
  from w obtain s3 where ex: "exec_stmt (\<lambda>d. d\<lparr>t_hosts := update_where (\<lambda>h. ho_id h = hid) (merge_identity (?u h) (fmt_time now)) (t_hosts d)\<rparr>) s2 = (Inr (), s3)"
    and loop: "?loop h now s3 = (Inr (), v)"
    by (rule then_InrE)
  from ex obtain e5 where s3: "s3 = s\<lparr>s_db := (s_db s)\<lparr>t_hosts := update_where (\<lambda>h. ho_id h = hid) (merge_identity (?u h) (fmt_time now)) (t_hosts (s_db s))\<rparr>, s_env := e5\<rparr>"
    by (rule exec_stmt_cases) (auto simp: s2)
  have obs: "\<exists>obs e. v = w\<lparr>s_db := (s_db w)\<lparr>t_observations := obs\<rparr>, s_env := e\<rparr>"
    if "forEach xs (\<lambda>(source, val). if val = '''' then ret () else exec_stmt (observe hid source val n)) w = (Inr (), v)" for xs w n
    using that
  proof (induction xs arbitrary: w)
    case Nil
    then have "v = w\<lparr>s_db := (s_db w)\<lparr>t_observations := t_observations (s_db w)\<rparr>, s_env := s_env w\<rparr>"
      by (simp add: ret_def)
    then show ?case
      by blast
  next
    case (Cons x xs)
    from Cons.prems obtain w' where one: "(case x of (source, val) \<Rightarrow> if val = '''' then ret () else exec_stmt (observe hid source val n)) w = (Inr (), w')"
      and more: "forEach xs (\<lambda>(source, val). if val = '''' then ret () else exec_stmt (observe hid source val n)) w' = (Inr (), v)"
      by (auto elim: then_InrE)
    from one have "\<exists>obs e. w' = w\<lparr>s_db := (s_db w)\<lparr>t_observations := obs\<rparr>, s_env := e\<rparr>"
    proof (cases "snd x = ''''")
      case True
      with one have "w' = w\<lparr>s_db := (s_db w)\<lparr>t_observations := t_observations (s_db w)\<rparr>, s_env := s_env w\<rparr>"
        by (simp add: ret_def case_prod_beta)
      then show ?thesis
        by blast
    next
      case False
      with one have "exec_stmt (observe hid (fst x) (snd x) n) w = (Inr (), w')"
        by (simp add: case_prod_beta)
      then show ?thesis
        by (cases rule: exec_stmt_cases) (auto simp: observe_def)
    qed
    with Cons.IH [OF more] obtain obs e where "v = w\<lparr>s_db := (s_db w)\<lparr>t_observations := obs\<rparr>, s_env := e\<rparr>"
      by fastforce
    then show ?case
      by blast
  qed
  from obs [OF loop] obtain obs e where "v = s3\<lparr>s_db := (s_db s3)\<lparr>t_observations := obs\<rparr>, s_env := e\<rparr>"
    by blast
  then have "t = s\<lparr>s_db := (s_db s)\<lparr>t_hosts := update_where (\<lambda>h. ho_id h = hid) (merge_identity (?u h) (fmt_time now)) (t_hosts (s_db s)),
       t_observations := obs\<rparr>, s_env := e3\<rparr>"
    by (simp add: t s3)
  then show ?thesis
    by (rule that [rotated]) (simp add: or_current_def)
qed

definition same_policy :: "db \<Rightarrow> db \<Rightarrow> bool" where
  \<comment> \<open>the tables that decide about queries, and the events, are as before\<close>
  "same_policy d d' \<longleftrightarrow> t_static d' = t_static d \<and> t_rules d' = t_rules d \<and> t_presets d' = t_presets d \<and>
     t_sources d' = t_sources d \<and> t_entries d' = t_entries d \<and> t_query_events d' = t_query_events d \<and>
     t_block_events d' = t_block_events d"

lemma same_policy_trans: "same_policy d d' \<Longrightarrow> same_policy d' d'' \<Longrightarrow> same_policy d d''"
  by (simp add: same_policy_def)

definition at_ip :: "string \<Rightarrow> db \<Rightarrow> host_row list" where
  "at_ip ip d = filter (\<lambda>h. ho_source_ip h = ip) (t_hosts d)"

definition client_ip :: "uniFiClient \<Rightarrow> string option" where
  "client_ip client = (if ParseIP (UC_IP client) = [] then None else Some (known_ip (UC_IP client)))"

definition registered :: "uniFiClient \<Rightarrow> db \<Rightarrow> bool" where
  "registered client d \<longleftrightarrow> (\<exists>h \<in> set (at_ip (known_ip (UC_IP client)) d). ho_confidence h = ''unifi'')"

lemma filter_update_where_outside:
  "(\<And>x. x \<in> set rows \<Longrightarrow> P x \<Longrightarrow> Q x \<and> Q (f x)) \<Longrightarrow>
   filter (\<lambda>x. \<not> Q x) (update_where P f rows) = filter (\<lambda>x. \<not> Q x) rows"
  by (induction rows) (auto simp: update_where_def)

lemma filter_other: "(\<And>x. Q x \<Longrightarrow> \<not> P x) \<Longrightarrow> filter (\<lambda>x. \<not> P x) xs = filter (\<lambda>x. \<not> P x) ys \<Longrightarrow> filter Q xs = filter Q ys"
proof -
  assume *: "\<And>x. Q x \<Longrightarrow> \<not> P x" "filter (\<lambda>x. \<not> P x) xs = filter (\<lambda>x. \<not> P x) ys"
  have "filter Q zs = filter Q (filter (\<lambda>x. \<not> P x) zs)" for zs
    using *(1) by (induction zs) auto
  then show ?thesis
    using *(2) by metis
qed

lemma import_client_Inr:
  assumes "import_client client s = (Inr n, t)" and "hosts_table_ok (t_hosts (s_db s))"
  shows "hosts_table_ok (t_hosts (s_db t)) \<and> same_caches s t \<and> same_policy (s_db s) (s_db t) \<and>
    n = (if ParseIP (UC_IP client) = [] then 0 else 1) \<and>
    (ParseIP (UC_IP client) \<noteq> [] \<longrightarrow> registered client (s_db t)) \<and>
    (\<forall>ip. Some ip \<noteq> client_ip client \<longrightarrow> at_ip ip (s_db t) = at_ip ip (s_db s))"
proof (cases "ParseIP (UC_IP client) = []")
  case True
  with assms show ?thesis
    by (simp add: import_client_def ret_def same_policy_def)
next
  case False
  let ?up = "\<lparr>HI_Hostname = UC_Hostname client, HI_MAC = UC_MAC client, HI_Vendor = UC_Vendor client, HI_Confidence = ''unifi''\<rparr>"
  let ?ip = "known_ip (UC_IP client)"
  from assms(1) False obtain p s1 where 1: "EnsureHost (UC_IP client) s = (Inr p, s1)"
    and k: "(case p of (hostID, _) \<Rightarrow> andThen (UpdateHostIdentity hostID ?up) (\<lambda>_. ret 1)) s1 = (Inr n, t)"
    unfolding import_client_def by (auto elim: andThen_InrE)
  obtain hid display where p: "p = (hid, display)"
    by fastforce
  from k obtain s2 where 2: "UpdateHostIdentity hid ?up s1 = (Inr (), s2)" and "ret 1 s2 = (Inr n, t)"
    unfolding p prod.case by (rule then_InrE)
  then have n: "n = 1" and t: "t = s2"
    by (auto simp: ret_def)
  from EnsureHost_frame [OF 1] obtain rows e where s1: "s1 = s\<lparr>s_db := (s_db s)\<lparr>t_hosts := rows\<rparr>, s_env := e\<rparr>"
    by blast
  from EnsureHost_effect [OF 1 [unfolded p] assms(2)] obtain h where ok1: "hosts_table_ok rows"
    and h: "filter (\<lambda>h. ho_source_ip h = ?ip) rows = [h]" "ho_id h = hid"
    and other: "filter (\<lambda>h. ho_source_ip h \<noteq> ?ip) rows = filter (\<lambda>h. ho_source_ip h \<noteq> ?ip) (t_hosts (s_db s))"
    by (auto simp: s1)
  from 2 obtain u now obs e2 where conf: "HI_Confidence u = or_current (trim_space (HI_Confidence ?up)) (HI_Confidence u)"
    and s2: "s2 = s1\<lparr>s_db := (s_db s1)\<lparr>t_hosts := update_where (\<lambda>h. ho_id h = hid) (merge_identity u now) (t_hosts (s_db s1)),
       t_observations := obs\<rparr>, s_env := e2\<rparr>"
    by (rule UpdateHostIdentity_Inr)
  have unifi: "HI_Confidence u = ''unifi''"
  proof -
    have "trim_space ''unifi'' = ''unifi''"
      by code_simp
    with conf show ?thesis
      by (simp add: or_current_def)
  qed
  let ?rows = "update_where (\<lambda>h. ho_id h = hid) (merge_identity u now) rows"
  have hosts: "t_hosts (s_db t) = ?rows"
    by (simp add: t s2 s1)
  have "h \<in> set (filter (\<lambda>h. ho_source_ip h = ?ip) rows)"
    by (simp add: h(1))
  then have "h \<in> set rows" and hip: "ho_source_ip h = ?ip"
    by simp_all
  then have "merge_identity u now h \<in> set ?rows"
    using h(2) by (force simp: set_update_where)
  moreover have "ho_confidence (merge_identity u now h) = ''unifi''" "ho_source_ip (merge_identity u now h) = ?ip"
    using unifi hip by (simp_all add: merge_identity_def Let_def)
  ultimately have "registered client (s_db t)"
    by (force simp: registered_def at_ip_def hosts)
  moreover have only: "x = h" if "x \<in> set rows" "ho_id x = hid" for x
  proof -
    have "inj_on ho_id (set rows)"
      using ok1 by (simp add: hosts_table_ok_def distinct_map)
    with that h(2) \<open>h \<in> set rows\<close> show ?thesis
      by (metis inj_onD)
  qed
  have "filter (\<lambda>h. \<not> ho_source_ip h = ?ip) ?rows = filter (\<lambda>h. \<not> ho_source_ip h = ?ip) rows"
  proof (rule filter_update_where_outside)
    fix x assume "x \<in> set rows" "ho_id x = hid"
    then have "x = h"
      by (rule only)
    with hip show "ho_source_ip x = ?ip \<and> ho_source_ip (merge_identity u now x) = ?ip"
      by (simp add: merge_identity_def Let_def)
  qed
  with other have "filter (\<lambda>h. \<not> ho_source_ip h = ?ip) ?rows = filter (\<lambda>h. \<not> ho_source_ip h = ?ip) (t_hosts (s_db s))"
    by simp
  then have "at_ip ip (s_db t) = at_ip ip (s_db s)" if "ip \<noteq> ?ip" for ip
    unfolding at_ip_def hosts by (rule filter_other [where P = "\<lambda>h. ho_source_ip h = ?ip", rotated]) (use that in simp)
  moreover have "hosts_table_ok (t_hosts (s_db t))"
    unfolding hosts by (rule merge_identity_ok [OF ok1])
  moreover have "same_caches s t" "same_policy (s_db s) (s_db t)"
    by (simp_all add: t s2 s1 same_policy_def same_caches_def)
  ultimately show ?thesis
    using False n by (simp add: client_ip_def)
qed

lemma collect_Inr_induct:
  assumes "collect import_client clients s = (Inr ns, t)" and "hosts_table_ok (t_hosts (s_db s))"
  shows "hosts_table_ok (t_hosts (s_db t)) \<and> same_caches s t \<and> same_policy (s_db s) (s_db t) \<and>
    sum_list ns = int (length (filter (\<lambda>c. ParseIP (UC_IP c) \<noteq> []) clients)) \<and>
    (\<forall>c \<in> set clients. ParseIP (UC_IP c) \<noteq> [] \<longrightarrow> registered c (s_db t)) \<and>
    (\<forall>ip. Some ip \<notin> client_ip ` set clients \<longrightarrow> at_ip ip (s_db t) = at_ip ip (s_db s))"
  using assms
proof (induction clients arbitrary: s ns)
  case Nil
  then show ?case
    by (simp add: ret_def same_policy_def)
next
  case (Cons c cs)
  from Cons.prems(1) obtain n s1 where 1: "import_client c s = (Inr n, s1)"
    and k: "andThen (collect import_client cs) (\<lambda>ys. ret (n # ys)) s1 = (Inr ns, t)"
    by (auto elim: andThen_InrE)
  from k obtain ms where 2: "collect import_client cs s1 = (Inr ms, t)" and ns: "ns = n # ms"
    by (auto elim!: andThen_InrE simp: ret_def)
  note one = import_client_Inr [OF 1 Cons.prems(2)]
  then have "hosts_table_ok (t_hosts (s_db s1))"
    by blast
  note more = Cons.IH [OF 2 this]
  have "registered c (s_db t)" if valid: "ParseIP (UC_IP c) \<noteq> []"
  proof (cases "client_ip c \<in> client_ip ` set cs")
    case True
    then obtain c' where "c' \<in> set cs" "client_ip c' = client_ip c"
      by auto
    with valid have "ParseIP (UC_IP c') \<noteq> []" "known_ip (UC_IP c') = known_ip (UC_IP c)"
      by (auto simp: client_ip_def split: if_splits)
    moreover from this more \<open>c' \<in> set cs\<close> have "registered c' (s_db t)"
      by blast
    ultimately show ?thesis
      by (simp add: registered_def)
  next
    case False
    with one more valid show ?thesis
      by (auto simp: registered_def client_ip_def)
  qed
  moreover have "same_caches s t" "same_policy (s_db s) (s_db t)"
    using one more same_caches_trans same_policy_trans by blast+
  moreover have "sum_list ns = int (length (filter (\<lambda>c. ParseIP (UC_IP c) \<noteq> []) (c # cs)))"
    using one more by (simp add: ns)
  moreover have "at_ip ip (s_db t) = at_ip ip (s_db s)" if "Some ip \<notin> client_ip ` set (c # cs)" for ip
  proof -
    from that have "Some ip \<noteq> client_ip c" "Some ip \<notin> client_ip ` set cs"
      by auto
    with one more show ?thesis
      by simp
  qed
  moreover have "registered x (s_db t)" if "x \<in> set cs" "ParseIP (UC_IP x) \<noteq> []" for x
    using more that by blast
  ultimately show ?case
    using more by (simp del: sum_list.Cons)
qed

text \<open>Under every pattern of errors, an import leaves the policy, the events and the caches alone.\<close>

lemma policy_env_free [keeps_intro]: "env_free (\<lambda>u. same_policy d (s_db u))"
  by (simp add: env_free_def)

lemma keeps_policy_stmts:
  "keeps (\<lambda>u. same_policy d (s_db u)) (EnsureHost ip)" "keeps (\<lambda>u. same_policy d (s_db u)) (setSetting k v)"
  "keeps (\<lambda>u. same_policy d (s_db u)) (Audit a b x)"
  unfolding EnsureHost_def Let_def setSetting_def
  by (intro keeps_intro keeps_exec_stmt keeps_Audit; simp add: same_policy_def audit_row_of_def)+

lemma db_only_prod [keeps_intro]: "(\<And>a b. db_only (f a b)) \<Longrightarrow> db_only (case p of (a, b) \<Rightarrow> f a b)"
  by (cases p) simp

lemma keeps_prod [keeps_intro]: "(\<And>a b. keeps I (f a b)) \<Longrightarrow> keeps I (case p of (a, b) \<Rightarrow> f a b)"
  by (cases p) simp

lemma db_only_hosts [keeps_intro]: "db_only (EnsureHost ip)" "db_only (UpdateHostIdentity hid u)" "db_only (setSetting k v)"
proof -
  have "db_only (transaction m)" if "db_only m" for m :: "(store, 'a) comp"
  proof (rule db_onlyI)
    fix s r t assume "transaction m s = (r, t)"
    then show "same_caches s t"
    proof (cases rule: transaction_cases)
      case (okay a e u e')
      with db_onlyD [OF that okay(2)] show ?thesis
        by (metis same_caches_trans same_caches_update(2))
    next
      case (failed x e u e' r')
      from same_caches_rollback [OF db_onlyD [OF that failed(2)]] have "u\<lparr>s_db := s_db s\<rparr> = s\<lparr>s_env := s_env u\<rparr>"
        by simp
      then have "u\<lparr>s_db := s_db s, s_env := e'\<rparr> = s\<lparr>s_env := e'\<rparr>"
        by (metis store.surjective store.update_convs(2))
      then show ?thesis
        unfolding failed(3) by simp
    qed simp
  qed
  note tr = this
  show "db_only (EnsureHost ip)" "db_only (setSetting k v)"
    unfolding EnsureHost_def setSetting_def Let_def by (intro keeps_intro)+
  show "db_only (UpdateHostIdentity hid u)"
    unfolding UpdateHostIdentity_def Let_def by (intro keeps_intro tr)
qed

lemma keeps_policy_transaction:
  assumes "keeps (\<lambda>u. same_policy d (s_db u)) m"
  shows "keeps (\<lambda>u. same_policy d (s_db u)) (transaction m)"
  by (rule keeps_transaction) (use assms in \<open>simp_all add: policy_env_free\<close>)

lemma keeps_policy_import: "keeps (\<lambda>u. same_policy d (s_db u)) (import_clients clients)"
proof -
  have "keeps (\<lambda>u. same_policy d (s_db u)) (UpdateHostIdentity hid u)" for hid u
    unfolding UpdateHostIdentity_def Let_def
    by (intro keeps_intro keeps_exec_stmt keeps_policy_transaction; simp add: same_policy_def observe_def)+
  then show ?thesis
    unfolding import_clients_def import_client_def
    by (intro keeps_intro keeps_policy_stmts) auto
qed

lemma db_only_collect [keeps_intro]: "(\<And>x. db_only (f x)) \<Longrightarrow> db_only (collect f xs)"
  by (induction xs) (auto intro: keeps_intro)

lemma db_only_import: "db_only (import_clients clients)"
  unfolding import_clients_def import_client_def by (intro keeps_intro)

lemma UniFiSettings_state:
  assumes "get_UniFiSettings c s = (r, t)"
  shows "\<exists>e. t = s\<lparr>s_env := e\<rparr>"
proof -
  obtain r1 s1 where q: "query_db (settings_like ''unifi.'') s = (r1, s1)"
    by fastforce
  then show ?thesis
    by (cases rule: query_db_cases) (use assms q in \<open>auto simp: get_UniFiSettings_def andThen_def gets_def ret_def\<close>)
qed

lemma ImportUniFiClients_policy:
  assumes "ImportUniFiClients c controller s = ((result, err), t)"
  shows "same_policy (s_db s) (s_db t) \<and> same_caches s t"
proof -
  let ?I = "\<lambda>u. same_policy (s_db s) (s_db u)"
  let ?fin = "\<lambda>base n updated. andThen time_now (\<lambda>now.
       andThen (ignoring (setSetting ''unifi.last_import'' (fmt_time now))) (\<lambda>_.
       andThen (ignoring (setSetting ''unifi.last_status'' ''ok'')) (\<lambda>_.
       ignoring (Audit ''unifi.import'' base ((''seen='' @ itoa n) @ '' updated='' @ itoa updated)))))"
  obtain r1 s1 where 1: "get_UniFiSettings c s = (r1, s1)"
    by fastforce
  with UniFiSettings_state obtain e1 where s1: "s1 = s\<lparr>s_env := e1\<rparr>"
    by blast
  then have base: "?I s1" "same_caches s s1"
    by (simp_all add: same_policy_def)
  have fin: "keeps ?I (?fin b n u)" "db_only (?fin b n u)" for b n u
    by (intro keeps_intro keeps_policy_stmts)+
  have note_status: "keeps ?I (setSetting k v)" "db_only (setSetting k v)" for k v
    by (intro keeps_policy_stmts keeps_intro)+
  have step: "?I u' \<and> same_caches s u'" if "keeps ?I m" "db_only m" "?I u" "same_caches s u" "u' = snd (m u)"
    for m :: "(store, 'a) comp" and u u'
    using that by (metis db_only_def keeps_def same_caches_trans)
  show ?thesis
  proof (cases r1)
    case (Inl e)
    with assms 1 base show ?thesis
      by (auto simp: ImportUniFiClients_def)
  next
    case (Inr settings)
    show ?thesis
    proof (cases "UF_Enabled settings")
      case False
      with assms 1 Inr base show ?thesis
        by (auto simp: ImportUniFiClients_def)
    next
      case True
      show ?thesis
      proof (cases "fetchUniFiClients controller settings")
        case (Inl e)
        with assms 1 Inr True have "t = snd (setSetting ''unifi.last_status'' (''error: '' @ error_text e) s1)"
          by (auto simp: ImportUniFiClients_def)
        with step [OF note_status base] show ?thesis
          by blast
      next
        case fetched: (Inr clients)
        obtain r2 s2 where 2: "import_clients clients s1 = (r2, s2)"
          by fastforce
        then have "s2 = snd (import_clients clients s1)"
          by simp
        from step [OF keeps_policy_import db_only_import base this] have mid: "?I s2" "same_caches s s2"
          by auto
        show ?thesis
        proof (cases r2)
          case (Inl e)
          with assms 1 Inr True fetched 2 mid show ?thesis
            by (auto simp: ImportUniFiClients_def)
        next
          case (Inr updated)
          with assms 1 \<open>r1 = Inr settings\<close> True fetched 2 have "t = snd (?fin (UF_BaseURL settings) (int (length clients)) updated s2)"
            by (auto simp: ImportUniFiClients_def)
          from step [OF fin mid this] show ?thesis .
        qed
      qed
    qed
  qed
qed

lemma ImportUniFiClients_ok:
  assumes run: "ImportUniFiClients c controller s = ((result, None), t)" and status: "UR_Status result = ''ok''"
    and ok: "hosts_table_ok (t_hosts (s_db s))"
  shows "hosts_table_ok (t_hosts (s_db t)) \<and>
    (\<exists>settings clients. fetchUniFiClients controller settings = Inr clients \<and> UR_Seen result = int (length clients) \<and>
       UR_Updated result = int (length (filter (\<lambda>x. ParseIP (UC_IP x) \<noteq> []) clients)) \<and>
       (\<forall>x \<in> set clients. ParseIP (UC_IP x) \<noteq> [] \<longrightarrow> registered x (s_db t)) \<and>
       (\<forall>ip. Some ip \<notin> client_ip ` set clients \<longrightarrow> at_ip ip (s_db t) = at_ip ip (s_db s)))"
proof -
  let ?fin = "\<lambda>base n updated. andThen time_now (\<lambda>now.
       andThen (ignoring (setSetting ''unifi.last_import'' (fmt_time now))) (\<lambda>_.
       andThen (ignoring (setSetting ''unifi.last_status'' ''ok'')) (\<lambda>_.
       ignoring (Audit ''unifi.import'' base ((''seen='' @ itoa n) @ '' updated='' @ itoa updated)))))"
  obtain r1 s1 where 1: "get_UniFiSettings c s = (r1, s1)"
    by fastforce
  with UniFiSettings_state obtain e1 where s1: "s1 = s\<lparr>s_env := e1\<rparr>"
    by blast
  from run 1 obtain settings where r1: "r1 = Inr settings" and en: "UF_Enabled settings"
    using status by (cases r1) (auto simp: ImportUniFiClients_def no_import_def split: if_splits)
  from run 1 r1 en obtain clients where fetched: "fetchUniFiClients controller settings = Inr clients"
    by (cases "fetchUniFiClients controller settings") (auto simp: ImportUniFiClients_def)
  obtain r2 s2 where 2: "import_clients clients s1 = (r2, s2)"
    by fastforce
  from run 1 r1 en fetched 2 obtain updated where r2: "r2 = Inr updated" and t: "t = snd (?fin (UF_BaseURL settings) (int (length clients)) updated s2)"
    and res: "UR_Seen result = int (length clients)" "UR_Updated result = updated"
    by (cases r2) (auto simp: ImportUniFiClients_def)
  have "env_free (\<lambda>u. t_hosts (s_db u) = t_hosts (s_db s2))"
    by (simp add: env_free_def)
  then have "keeps (\<lambda>u. t_hosts (s_db u) = t_hosts (s_db s2)) (?fin b n u)" for b n u
    unfolding setSetting_def by (intro keeps_intro keeps_exec_stmt keeps_Audit; simp add: audit_row_of_def)
  then have hosts: "t_hosts (s_db t) = t_hosts (s_db s2)"
    unfolding t keeps_def by blast
  from 2 r2 obtain ns where c: "collect import_client clients s1 = (Inr ns, s2)" and "updated = sum_list ns"
    by (auto simp: import_clients_def ret_def elim!: andThen_InrE)
  moreover have "hosts_table_ok (t_hosts (s_db s1))"
    using ok by (simp add: s1)
  note ind = collect_Inr_induct [OF c this]
  have reg: "registered x (s_db t) = registered x (s_db s2)" and at: "at_ip ip (s_db t) = at_ip ip (s_db s2)"
    and at1: "at_ip ip (s_db s1) = at_ip ip (s_db s)" for x ip
    by (simp_all add: registered_def at_ip_def hosts s1)
  show ?thesis
    using ind fetched res \<open>updated = sum_list ns\<close> unfolding hosts reg at at1 by metis
qed

text \<open>
  C40. An import of clients touches hosts only. Under every pattern of errors, \<open>ImportUniFiClients\<close> leaves
  the records, rules, presets, sources, blocklist entries, events and the three caches as they were.
  An import that reports \<open>ok\<close> has seen what the controller returned, has counted as updated exactly the
  clients whose address parses, has each of them in the table as a host of confidence \<open>unifi\<close>, and has
  changed no host at another address.
\<close>

theorem ImportUniFiClients_hosts_only:
  assumes "ImportUniFiClients c controller s = ((result, err), t)" and "hosts_table_ok (t_hosts (s_db s))"
  shows "same_policy (s_db s) (s_db t) \<and> same_caches s t \<and>
    (err = None \<and> UR_Status result = ''ok'' \<longrightarrow>
       hosts_table_ok (t_hosts (s_db t)) \<and>
       (\<exists>settings clients. fetchUniFiClients controller settings = Inr clients \<and> UR_Seen result = int (length clients) \<and>
          UR_Updated result = int (length (filter (\<lambda>x. ParseIP (UC_IP x) \<noteq> []) clients)) \<and>
          (\<forall>x \<in> set clients. ParseIP (UC_IP x) \<noteq> [] \<longrightarrow> registered x (s_db t)) \<and>
          (\<forall>ip. Some ip \<notin> client_ip ` set clients \<longrightarrow> at_ip ip (s_db t) = at_ip ip (s_db s))))"
  using ImportUniFiClients_policy [OF assms(1)] ImportUniFiClients_ok [of c controller s result t] assms by blast

section \<open>The properties at a concrete input\<close>

lemma transaction_runs:
  "faults (s_env s) = [] \<Longrightarrow> body s = (Inr a, t) \<Longrightarrow> faults (s_env t) = [] \<Longrightarrow> transaction body s = (Inr a, t)"
  by (simp add: transaction_def db_call_def)

lemma transaction_after_row:
  assumes "faults (s_env s) = []" and "query_row q s = (Inr h, s)" and "works (k h)"
  shows "\<exists>a t. transaction (andThen (query_row q) k) s = (Inr a, t)"
proof -
  from assms(3,1) obtain a t where "k h s = (Inr a, t)" "faults (s_env t) = []"
    by (rule worksE)
  with assms(1,2) have "transaction (andThen (query_row q) k) s = (Inr a, t)"
    by (intro transaction_runs) (simp_all add: andThen_def)
  then show ?thesis
    by blast
qed

lemma UpdateHostIdentity_works:
  assumes "faults (s_env s) = []" and "find_host hid (s_db s) = Some h"
  shows "\<exists>t. UpdateHostIdentity hid up s = (Inr (), t)"
proof -
  from works_time_now assms(1) obtain now s1 where tn: "time_now s = (Inr now, s1)" and f: "faults (s_env s1) = []"
    by (rule worksE)
  from tn assms(2) have row: "query_row (find_host hid) s1 = (Inr h, s1)"
    using f by (auto elim!: time_now_cases simp: query_row_def exec_db_def db_call_def)
  have "works (case p of (source, val) \<Rightarrow> if val = '''' then ret () else exec_stmt (observe hid source val n))" for p n
    by (cases p) (simp add: works_ret works_exec_stmt)
  then have rest: "works (andThen (exec_stmt g) (\<lambda>_. forEach xs (\<lambda>(source, val). if val = '''' then ret () else exec_stmt (observe hid source val n))))" for g xs n
    by (intro works_andThen works_forEach works_exec_stmt)
  have "\<exists>a t. UpdateHostIdentity hid up s = (Inr a, t)"
    unfolding UpdateHostIdentity_def Let_def andThen_def [of time_now] tn prod.case sum.case
    by (rule transaction_after_row [OF f row rest])
  then show ?thesis
    by simp
qed

definition unifi_db :: db where
  "unifi_db = empty_db\<lparr>t_settings := [(''unifi.enabled'', ''true''), (''unifi.base_url'', ''https://u''), (''unifi.api_key'', ''key'')]\<rparr>"

definition sample_controller :: "string \<Rightarrow> string \<Rightarrow> unifi_reply" where
  "sample_controller url key = UniFiReply 200 (Inr [[''ip'' \<mapsto> JString ''10.0.0.7'', ''hostname'' \<mapsto> JString ''printer'']])"

definition sample_client :: uniFiClient where
  "sample_client = \<lparr>UC_IP = ''10.0.0.7'', UC_Hostname = ''printer'', UC_MAC = '''', UC_Vendor = ''''\<rparr>"

lemma sample_fetch:
  assumes "UF_BaseURL u = ''https://u''" and "UF_APIKey u \<noteq> ''''"
  shows "fetchUniFiClients sample_controller u = Inr [sample_client]"
proof -
  have base: "trim_right (trim_space ''https://u'') ''/'' = ''https://u''"
    by code_simp
  have client: "unifi_client [''ip'' \<mapsto> JString ''10.0.0.7'', ''hostname'' \<mapsto> JString ''printer''] = sample_client"
    by code_simp
  then have "useful_client sample_client"
    by (simp add: useful_client_def sample_client_def)
  with client have "fetchUniFiEndpoint sample_controller e k = Inr [sample_client]" for e k
    by (simp add: fetchUniFiEndpoint_def sample_controller_def)
  with assms base show ?thesis
    by (simp add: fetchUniFiClients_def unifi_endpoints_def Let_def)
qed

lemma sample_unifi_settings:
  "\<exists>u. get_UniFiSettings toy_cipher (sample_store unifi_db) = (Inr u, sample_store unifi_db) \<and> UF_Enabled u \<and>
     UF_BaseURL u = ''https://u'' \<and> UF_APIKey u \<noteq> ''''"
proof -
  have rows: "settings_like ''unifi.'' unifi_db = t_settings unifi_db"
    by code_simp
  have key: "decryptSecret toy_cipher k ''key'' = ''key''" for k
  proof -
    have "trim_space ''key'' = ''key''" "has_prefix ''key'' ''enc:v1:'' = False"
      by code_simp+
    then show ?thesis
      by (simp add: decryptSecret_def)
  qed
  show ?thesis
    by (simp add: get_UniFiSettings_def gets_def run_simps rows) (simp add: unifi_settings_of_def value_in_def unifi_db_def key)
qed

lemma ImportUniFiClients_hosts_only_witness:
  "\<exists>result t. ImportUniFiClients toy_cipher sample_controller (sample_store unifi_db) = ((result, None), t) \<and>
     UR_Updated result = 1 \<and> same_policy unifi_db (s_db t) \<and> hosts_table_ok (t_hosts (s_db t))"
proof -
  obtain u where u: "get_UniFiSettings toy_cipher (sample_store unifi_db) = (Inr u, sample_store unifi_db)" "UF_Enabled u"
    "UF_BaseURL u = ''https://u''" "UF_APIKey u \<noteq> ''''"
    using sample_unifi_settings by blast
  have ip: "known_ip ''10.0.0.7'' = ''10.0.0.7''" and parsed: "ParseIP ''10.0.0.7'' = [] \<longleftrightarrow> False"
    by code_simp+
  have "\<exists>p v. EnsureHost ''10.0.0.7'' (sample_store unifi_db) = (Inr p, v) \<and> faults (s_env v) = [] \<and> (\<exists>h. find_host (fst p) (s_db v) = Some h)"
    by (simp add: EnsureHost_def ip run_simps unifi_db_def empty_db_def host_insert_def insert_ignore_def host_seen_def
        update_where_def host_new_def find_host_def)
  then obtain p v h where 1: "EnsureHost ''10.0.0.7'' (sample_store unifi_db) = (Inr p, v)" and v: "faults (s_env v) = []"
    and h: "find_host (fst p) (s_db v) = Some h"
    by blast
  from UpdateHostIdentity_works [OF v h] obtain w where 2: "UpdateHostIdentity (fst p) \<lparr>HI_Hostname = UC_Hostname sample_client,
      HI_MAC = UC_MAC sample_client, HI_Vendor = UC_Vendor sample_client, HI_Confidence = ''unifi''\<rparr> v = (Inr (), w)"
    by blast
  have addr: "UC_IP sample_client = ''10.0.0.7''"
    by (simp add: sample_client_def)
  have "import_client sample_client (sample_store unifi_db) = (Inr 1, w)"
    unfolding import_client_def addr using parsed by (simp add: andThen_def 1 2 ret_def case_prod_beta)
  then have 3: "import_clients [sample_client] (sample_store unifi_db) = (Inr 1, w)"
    by (simp add: import_clients_def andThen_def ret_def)
  obtain t where run: "ImportUniFiClients toy_cipher sample_controller (sample_store unifi_db) =
      ((no_import\<lparr>UR_Status := ''ok'', UR_Seen := 1, UR_Updated := 1\<rparr>, None), t)"
    using u sample_fetch [OF u(3,4)] 3 by (simp add: ImportUniFiClients_def)
  have "hosts_table_ok (t_hosts (s_db (sample_store unifi_db)))"
    by (simp add: hosts_table_ok_def unifi_db_def empty_db_def)
  from ImportUniFiClients_hosts_only [OF run this] run show ?thesis
    by auto
qed

end
