(* ===== verification/Store_Events.thy ===== *)
theory Store_Events
  imports Store_Hosts Store_Settings
begin

text \<open>
  Query events: \<open>InsertQueryEvent\<close>, \<open>RecentEvents\<close>, \<open>RecentEventsByHostSince\<close>, \<open>scanEvents\<close> and
  \<open>PurgeOldEvents\<close> of internal/store/store.go, with the foreign keys of \<open>query_events\<close> and
  \<open>block_events\<close>. The server's zone is taken to have a fixed offset, so that \<open>AddDate(0, 0, -days)\<close> is
  a subtraction.
\<close>

section \<open>Writing\<close>

record QueryEvent =
  QE_Timestamp :: instant
  QE_HostID :: int
  QE_SourceIP :: string
  QE_HostLabel :: string
  QE_QueryName :: string
  QE_QueryType :: string
  QE_Action :: string
  QE_MatchedRuleID :: "int option"
  QE_MatchedSource :: string
  QE_ResponseCode :: string
  QE_Upstream :: string
  QE_LatencyMS :: int
  QE_AnswerSummary :: string

definition event_row :: "QueryEvent \<Rightarrow> int \<Rightarrow> query_event_row" where
  "event_row e i = \<lparr>qe_id = i, qe_ts = fmt_time (QE_Timestamp e), qe_host_id = QE_HostID e,
     qe_source_ip = QE_SourceIP e, qe_query_name = QE_QueryName e, qe_query_type = QE_QueryType e,
     qe_action = QE_Action e, qe_rule_id = QE_MatchedRuleID e, qe_source = QE_MatchedSource e,
     qe_rcode = QE_ResponseCode e, qe_upstream = QE_Upstream e, qe_latency_ms = QE_LatencyMS e,
     qe_answer = QE_AnswerSummary e\<rparr>"

definition block_row_of :: "QueryEvent \<Rightarrow> int \<Rightarrow> int \<Rightarrow> block_row" where
  "block_row_of e i qid = \<lparr>be_id = i, be_query_event_id = qid, be_host_id = QE_HostID e,
     be_source_ip = QE_SourceIP e, be_query_name = QE_QueryName e, be_rule_id = QE_MatchedRuleID e,
     be_source = QE_MatchedSource e, be_created_at = fmt_time (QE_Timestamp e)\<rparr>"

definition insert_event :: "QueryEvent \<Rightarrow> db \<Rightarrow> error + (int \<times> db)" where
  \<comment> \<open>\<open>INSERT INTO query_events\<close>: \<open>host_id\<close> must refer to a host; the value is \<open>LastInsertId\<close>\<close>
  "insert_event e d =
     (if find_host (QE_HostID e) d = None then Inl ErrConstraint
      else (let i = next_rowid (map qe_id (t_query_events d))
            in Inr (i, d\<lparr>t_query_events := t_query_events d @ [event_row e i]\<rparr>)))"

definition count_event :: "QueryEvent \<Rightarrow> host_row \<Rightarrow> host_row" where
  "count_event e h = h\<lparr>ho_query_count := ho_query_count h + 1,
     ho_block_count := ho_block_count h + (if QE_Action e = ''blocked'' then 1 else 0)\<rparr>"

definition insert_block :: "QueryEvent \<Rightarrow> int \<Rightarrow> db \<Rightarrow> error + (unit \<times> db)" where
  \<comment> \<open>\<open>INSERT INTO block_events\<close>: both references must exist\<close>
  "insert_block e qid d =
     (if find_host (QE_HostID e) d = None \<or> qid \<notin> set (map qe_id (t_query_events d)) then Inl ErrConstraint
      else Inr ((), d\<lparr>t_block_events := t_block_events d @
        [block_row_of e (next_rowid (map be_id (t_block_events d))) qid]\<rparr>))"

definition InsertQueryEvent :: "QueryEvent \<Rightarrow> (store, unit) comp" where
  "InsertQueryEvent event =
     andThen (if QE_Timestamp event = zero_time
              then andThen time_now (\<lambda>now. ret (event\<lparr>QE_Timestamp := now\<rparr>)) else ret event) (\<lambda>event.
     transaction
       (andThen (exec_db (insert_event event)) (\<lambda>qid.
        andThen (exec_stmt (\<lambda>d. d\<lparr>t_hosts := update_where (\<lambda>h. ho_id h = QE_HostID event)
          (count_event event) (t_hosts d)\<rparr>)) (\<lambda>_.
        if QE_Action event = ''blocked'' then exec_db (insert_block event qid) else ret ()))))"

section \<open>Reading\<close>

definition scan_event :: "query_event_row \<Rightarrow> string \<Rightarrow> QueryEvent" where
  "scan_event r label = \<lparr>QE_Timestamp = parse_or_zero (qe_ts r), QE_HostID = qe_host_id r,
     QE_SourceIP = qe_source_ip r, QE_HostLabel = label, QE_QueryName = qe_query_name r,
     QE_QueryType = qe_query_type r, QE_Action = qe_action r, QE_MatchedRuleID = qe_rule_id r,
     QE_MatchedSource = qe_source r, QE_ResponseCode = qe_rcode r, QE_Upstream = qe_upstream r,
     QE_LatencyMS = qe_latency_ms r, QE_AnswerSummary = qe_answer r\<rparr>"

definition joined_events :: "(query_event_row \<Rightarrow> bool) \<Rightarrow> nat \<Rightarrow> db \<Rightarrow> QueryEvent list" where
  \<comment> \<open>\<open>FROM query_events qe JOIN hosts h ON h.id = qe.host_id WHERE ... ORDER BY qe.id DESC LIMIT n\<close>\<close>
  "joined_events P n d =
     take n (List.map_filter (\<lambda>r. if P r then map_option (\<lambda>h. scan_event r (host_display (qe_source_ip r) h))
                                             (find_host (qe_host_id r) d) else None)
               (rev (sort_key qe_id (t_query_events d))))"

definition RecentEvents :: "string \<Rightarrow> int \<Rightarrow> (store, QueryEvent list) comp" where
  "RecentEvents action limit =
     query_db (joined_events (\<lambda>r. action = '''' \<or> qe_action r = action) (clamp_limit 500 100 limit))"

definition RecentEventsByHostSince :: "int \<Rightarrow> string \<Rightarrow> string \<Rightarrow> int \<Rightarrow> (store, QueryEvent list) comp" where
  "RecentEventsByHostSince hid action since limit =
     query_db (joined_events (\<lambda>r. qe_host_id r = hid \<and> (since = '''' \<or> since \<le> qe_ts r) \<and>
       (action = '''' \<or> qe_action r = action)) (clamp_limit 1000 1000 limit))"

section \<open>Purging\<close>

definition days_ago :: "instant \<Rightarrow> int \<Rightarrow> instant" where
  \<comment> \<open>\<open>AddDate(0, 0, -days)\<close>, in a zone whose clock is not changed in between\<close>
  "days_ago now days = now - days * 86400 * nanos_per_sec"

definition purge_events :: "string \<Rightarrow> db \<Rightarrow> db" where
  \<comment> \<open>\<open>DELETE FROM query_events WHERE ts < cutoff\<close>, with \<open>ON DELETE CASCADE\<close> of \<open>block_events\<close>\<close>
  "purge_events cutoff d =
     (let gone = map qe_id (filter (\<lambda>r. qe_ts r < cutoff) (t_query_events d))
      in d\<lparr>t_query_events := delete_where (\<lambda>r. qe_ts r < cutoff) (t_query_events d),
           t_block_events := delete_where (\<lambda>b. be_query_event_id b \<in> set gone) (t_block_events d)\<rparr>)"

definition purge_before :: "string \<Rightarrow> (store, nat) comp" where
  \<comment> \<open>\<open>PurgeOldEvents\<close> from \<open>BeginTx\<close> on\<close>
  "purge_before cutoff =
     andThen (transaction
       (andThen (exec_db (\<lambda>d. Inr (length (filter (\<lambda>r. qe_ts r < cutoff) (t_query_events d)), purge_events cutoff d))) (\<lambda>count.
        andThen (exec_stmt (\<lambda>d. d\<lparr>t_block_events := delete_where (\<lambda>b. be_created_at b < cutoff) (t_block_events d)\<rparr>)) (\<lambda>_.
        andThen time_now (\<lambda>now.
        andThen (exec_stmt (\<lambda>d. d\<lparr>t_settings := settings_put (''retention.last_purge'', fmt_time now) (t_settings d)\<rparr>)) (\<lambda>_.
        ret count)))))) (\<lambda>count.
     andThen (if 0 < count
              then ignoring (Audit ''retention.purge'' ''query_events''
                (itoa (int count) @ '' removed before '' @ cutoff))
              else ret ()) (\<lambda>_.
     ret count))"

definition PurgeOldEvents :: "(store, nat) comp" where
  "PurgeOldEvents s =
     (case RetentionDays s of (days, s') \<Rightarrow>
        andThen time_now (\<lambda>now. purge_before (fmt_time (days_ago now days))) s')"

section \<open>Integrity of the event tables\<close>

text \<open>
  Ids are unique, every event refers to a host, every block event refers to a blocked event of the
  same host and time, and no blocked event is without one.
\<close>

definition block_of :: "query_event_row \<Rightarrow> block_row \<Rightarrow> bool" where
  "block_of r b \<longleftrightarrow> be_query_event_id b = qe_id r \<and> be_host_id b = qe_host_id r \<and>
     be_created_at b = qe_ts r \<and> be_query_name b = qe_query_name r \<and> qe_action r = ''blocked''"

definition events_ok :: "db \<Rightarrow> bool" where
  "events_ok d \<longleftrightarrow> distinct (map qe_id (t_query_events d)) \<and> distinct (map be_id (t_block_events d)) \<and>
     (\<forall>r \<in> set (t_query_events d). qe_host_id r \<in> ho_id ` set (t_hosts d)) \<and>
     (\<forall>b \<in> set (t_block_events d). \<exists>r \<in> set (t_query_events d). block_of r b) \<and>
     (\<forall>r \<in> set (t_query_events d). qe_action r = ''blocked'' \<longrightarrow> (\<exists>b \<in> set (t_block_events d). block_of r b))"

definition event_stored :: "QueryEvent \<Rightarrow> db \<Rightarrow> db" where
  \<comment> \<open>the tables after the three statements\<close>
  "event_stored e d =
     (let i = next_rowid (map qe_id (t_query_events d))
      in d\<lparr>t_query_events := t_query_events d @ [event_row e i],
           t_hosts := update_where (\<lambda>h. ho_id h = QE_HostID e) (count_event e) (t_hosts d),
           t_block_events := t_block_events d @
             (if QE_Action e = ''blocked'' then [block_row_of e (next_rowid (map be_id (t_block_events d))) i] else [])\<rparr>)"

lemma find_host_mem: "find_host i d \<noteq> None \<longleftrightarrow> i \<in> ho_id ` set (t_hosts d)"
  by (auto simp: find_host_def find_None_iff)

lemma ids_update_hosts:
  "(\<And>h. ho_id (f h) = ho_id h) \<Longrightarrow> ho_id ` set (update_where P f rows) = ho_id ` set rows"
  using map_update_where [of ho_id f P rows] by (metis list.set_map)

lemma event_stored_ok:
  assumes "events_ok d" and "find_host (QE_HostID e) d \<noteq> None"
  shows "events_ok (event_stored e d)"
proof -
  let ?i = "next_rowid (map qe_id (t_query_events d))" and ?j = "next_rowid (map be_id (t_block_events d))"
  have "block_of (event_row e ?i) (block_row_of e ?j ?i)" if "QE_Action e = ''blocked''"
    using that by (simp add: block_of_def event_row_def block_row_of_def)
  moreover have "ho_id ` set (t_hosts (event_stored e d)) = ho_id ` set (t_hosts d)"
    by (simp add: event_stored_def Let_def ids_update_hosts count_event_def)
  moreover have "QE_HostID e \<in> ho_id ` set (t_hosts d)"
    using assms(2) by (simp only: find_host_mem)
  moreover have "?i \<notin> qe_id ` set (t_query_events d)" and "?j \<notin> be_id ` set (t_block_events d)"
    using next_rowid_fresh [of "map qe_id (t_query_events d)"] next_rowid_fresh [of "map be_id (t_block_events d)"]
    by (simp_all del: next_rowid_fresh)
  ultimately show ?thesis
    using assms(1)
    by (cases "QE_Action e = ''blocked''")
      (simp_all add: events_ok_def event_stored_def Let_def event_row_def block_row_of_def)
qed

lemma InsertQueryEvent_cases:
  assumes "InsertQueryEvent ev s = (r, t)"
  obtains (okay) ev' e where "r = Inr ()" "t = s\<lparr>s_db := event_stored ev' (s_db s), s_env := e\<rparr>"
      "ev' = ev\<lparr>QE_Timestamp := QE_Timestamp ev'\<rparr>" "QE_Timestamp ev \<noteq> zero_time \<longrightarrow> ev' = ev"
      "find_host (QE_HostID ev) (s_db s) \<noteq> None"
  | (failed) x e where "r = Inl x" "t = s\<lparr>s_env := e\<rparr>"
proof -
  let ?body = "\<lambda>event. andThen (exec_db (insert_event event)) (\<lambda>qid.
        andThen (exec_stmt (\<lambda>d. d\<lparr>t_hosts := update_where (\<lambda>h. ho_id h = QE_HostID event)
          (count_event event) (t_hosts d)\<rparr>)) (\<lambda>_.
        if QE_Action event = ''blocked'' then exec_db (insert_block event qid) else ret ()))"
  have "\<exists>ev' e0. transaction (?body ev') (s\<lparr>s_env := e0\<rparr>) = (r, t) \<and>
      ev' = ev\<lparr>QE_Timestamp := QE_Timestamp ev'\<rparr> \<and> (QE_Timestamp ev \<noteq> zero_time \<longrightarrow> ev' = ev)"
  proof (cases "QE_Timestamp ev = zero_time")
    case True
    obtain r0 s0 where 0: "time_now s = (r0, s0)"
      by fastforce
    then obtain e0 now where "r0 = Inr now" "s0 = s\<lparr>s_env := e0\<rparr>"
      by (rule time_now_cases)
    with assms 0 True show ?thesis
      by (intro exI [of _ "ev\<lparr>QE_Timestamp := now\<rparr>"] exI [of _ e0])
        (simp add: InsertQueryEvent_def andThen_def ret_def)
  next
    case False
    with assms show ?thesis
      by (intro exI [of _ ev] exI [of _ "s_env s"]) (simp add: InsertQueryEvent_def)
  qed
  then obtain ev' e0 where tr: "transaction (?body ev') (s\<lparr>s_env := e0\<rparr>) = (r, t)"
    and ev': "ev' = ev\<lparr>QE_Timestamp := QE_Timestamp ev'\<rparr>" "QE_Timestamp ev \<noteq> zero_time \<longrightarrow> ev' = ev"
    by blast
  show ?thesis
  proof (cases r)
    case (Inl x)
    have "db_only (?body ev')"
      by (intro keeps_intro)
    with tr Inl obtain e where "t = s\<lparr>s_env := e0\<rparr>\<lparr>s_env := e\<rparr>"
      by (blast dest: transaction_Inl)
    then have "t = s\<lparr>s_env := e\<rparr>"
      by simp
    with Inl show ?thesis
      by (rule failed)
  next
    case (Inr u)
    from tr [unfolded Inr] obtain e u1 e' where body: "?body ev' (s\<lparr>s_env := e\<rparr>) = (Inr (), u1)"
      and t: "t = u1\<lparr>s_env := e'\<rparr>"
      by (rule transaction_Inr) auto
    from body obtain qid s1 s2 where 1: "exec_db (insert_event ev') (s\<lparr>s_env := e\<rparr>) = (Inr qid, s1)"
      and 2: "exec_stmt (\<lambda>d. d\<lparr>t_hosts := update_where (\<lambda>h. ho_id h = QE_HostID ev')
          (count_event ev') (t_hosts d)\<rparr>) s1 = (Inr (), s2)"
      and 3: "(if QE_Action ev' = ''blocked'' then exec_db (insert_block ev' qid) else ret ()) s2 = (Inr (), u1)"
      by (auto elim!: andThen_InrE)
    from 1 obtain e1 where ins: "find_host (QE_HostID ev') (s_db s) \<noteq> None"
      and qid: "qid = next_rowid (map qe_id (t_query_events (s_db s)))"
      and s1: "s1 = s\<lparr>s_db := (s_db s)\<lparr>t_query_events := t_query_events (s_db s) @ [event_row ev' qid]\<rparr>, s_env := e1\<rparr>"
      by (rule exec_db_cases) (auto simp: insert_event_def Let_def split: if_splits)
    from 2 obtain e2 where s2: "s2 = s1\<lparr>s_db := (s_db s1)\<lparr>t_hosts := update_where (\<lambda>h. ho_id h = QE_HostID ev')
          (count_event ev') (t_hosts (s_db s1))\<rparr>, s_env := e2\<rparr>"
      by (rule exec_stmt_cases) auto
    have "\<exists>e3. u1 = s\<lparr>s_db := event_stored ev' (s_db s), s_env := e3\<rparr>"
    proof (cases "QE_Action ev' = ''blocked''")
      case True
      from 3 [simplified True] obtain a d e3 where "insert_block ev' qid (s_db s2) = Inr (a, d)"
        and "u1 = s2\<lparr>s_db := d, s_env := e3\<rparr>"
        by (auto elim!: exec_db_cases)
      then show ?thesis
        using True by (auto simp: insert_block_def event_stored_def Let_def s2 s1 qid split: if_splits)
    next
      case False
      with 3 have "u1 = s2"
        by (simp add: ret_def)
      with False show ?thesis
        by (intro exI [of _ e2]) (simp add: event_stored_def Let_def s2 s1 qid)
    qed
    then obtain e3 where "t = s\<lparr>s_db := event_stored ev' (s_db s), s_env := e'\<rparr>"
      by (auto simp: t)
    moreover have "find_host (QE_HostID ev) (s_db s) \<noteq> None"
      using ins by (subst (asm) ev'(1)) simp
    ultimately show ?thesis
      using Inr ev' by (intro okay) auto
  qed
qed

text \<open>
  C22. \<open>InsertQueryEvent\<close> is atomic and keeps the event tables sound: on an error (a host that does not
  exist is one) no table has changed; otherwise one event is added at the end, with one block event
  exactly when its action is \<open>blocked\<close>, the host's counters go up accordingly, and every reference
  between the tables still holds.
\<close>

theorem InsertQueryEvent_atomic:
  assumes "InsertQueryEvent ev s = (r, t)" and "events_ok (s_db s)"
  shows "events_ok (s_db t) \<and>
    (case r of
       Inl _ \<Rightarrow> s_db t = s_db s
     | Inr _ \<Rightarrow> (\<exists>row. t_query_events (s_db t) = t_query_events (s_db s) @ [row] \<and>
           qe_action row = QE_Action ev \<and> qe_host_id row = QE_HostID ev \<and>
           (QE_Timestamp ev \<noteq> zero_time \<longrightarrow> qe_ts row = fmt_time (QE_Timestamp ev))) \<and>
         length (t_block_events (s_db t)) = length (t_block_events (s_db s)) + (if QE_Action ev = ''blocked'' then 1 else 0) \<and>
         (\<forall>h h'. find_host (QE_HostID ev) (s_db s) = Some h \<longrightarrow> find_host (QE_HostID ev) (s_db t) = Some h' \<longrightarrow>
            ho_query_count h' = ho_query_count h + 1 \<and>
            ho_block_count h' = ho_block_count h + (if QE_Action ev = ''blocked'' then 1 else 0)))"
  using assms(1)
proof (cases rule: InsertQueryEvent_cases)
  case (okay ev' e)
  have same: "QE_HostID ev' = QE_HostID ev" "QE_Action ev' = QE_Action ev"
    by (subst okay(3), simp)+
  have count: "find (\<lambda>h. ho_id h = i) (update_where (\<lambda>h. ho_id h = i) (count_event ev') rows) =
      map_option (count_event ev') (find (\<lambda>h. ho_id h = i) rows)" for i rows
    by (induction rows) (auto simp: update_where_def count_event_def)
  have "events_ok (s_db t)"
    using event_stored_ok [OF assms(2)] okay(2,5) same by simp
  moreover have "find_host (QE_HostID ev) (s_db t) = map_option (count_event ev') (find_host (QE_HostID ev) (s_db s))"
    by (simp add: okay(2) event_stored_def Let_def find_host_def same count)
  moreover have "t_query_events (s_db t) = t_query_events (s_db s) @ [event_row ev' (next_rowid (map qe_id (t_query_events (s_db s))))]"
    by (simp add: okay(2) event_stored_def Let_def)
  ultimately show ?thesis
    using okay(4) same
    by (simp add: okay(1)) (auto simp: okay(2) event_stored_def Let_def event_row_def count_event_def)
next
  case (failed x e)
  then show ?thesis
    using assms(2) by simp
qed

section \<open>What a purge removes\<close>

lemma purge_events_ok:
  assumes "events_ok d"
  shows "events_ok (purge_events cutoff d)"
    "t_block_events (purge_events cutoff d) = delete_where (\<lambda>b. be_created_at b < cutoff) (t_block_events d)"
proof -
  let ?gone = "set (map qe_id (filter (\<lambda>r. qe_ts r < cutoff) (t_query_events d)))"
  have refs: "be_query_event_id b \<in> ?gone \<longleftrightarrow> be_created_at b < cutoff" if b: "b \<in> set (t_block_events d)" for b
  proof -
    from assms b obtain r where r: "r \<in> set (t_query_events d)" "block_of r b"
      by (auto simp: events_ok_def)
    from assms have inj: "inj_on qe_id (set (t_query_events d))"
      by (simp add: events_ok_def distinct_map)
    show ?thesis
    proof
      assume "be_query_event_id b \<in> ?gone"
      then obtain r' where r': "r' \<in> set (t_query_events d)" "qe_id r' = be_query_event_id b" "qe_ts r' < cutoff"
        by force
      with r(2) have "qe_id r' = qe_id r"
        by (simp add: block_of_def)
      from inj_onD [OF inj this r'(1) r(1)] r'(3) r(2) show "be_created_at b < cutoff"
        by (simp add: block_of_def)
    next
      assume "be_created_at b < cutoff"
      with r show "be_query_event_id b \<in> ?gone"
        by (force simp: block_of_def)
    qed
  qed
  then have "delete_where (\<lambda>b. be_query_event_id b \<in> ?gone) (t_block_events d) =
      delete_where (\<lambda>b. be_created_at b < cutoff) (t_block_events d)"
    unfolding delete_where_def by (intro filter_cong) auto
  then show blocks: "t_block_events (purge_events cutoff d) = delete_where (\<lambda>b. be_created_at b < cutoff) (t_block_events d)"
    by (simp add: purge_events_def Let_def)
  have queries: "t_query_events (purge_events cutoff d) = delete_where (\<lambda>r. qe_ts r < cutoff) (t_query_events d)"
    and hosts: "t_hosts (purge_events cutoff d) = t_hosts d"
    by (simp_all add: purge_events_def Let_def)
  have "\<forall>b \<in> set (t_block_events (purge_events cutoff d)). \<exists>r \<in> set (t_query_events (purge_events cutoff d)). block_of r b"
    unfolding blocks queries set_delete_where using assms by (fastforce simp: events_ok_def block_of_def)
  moreover have "\<forall>r \<in> set (t_query_events (purge_events cutoff d)). qe_action r = ''blocked'' \<longrightarrow>
      (\<exists>b \<in> set (t_block_events (purge_events cutoff d)). block_of r b)"
    unfolding blocks queries set_delete_where using assms by (fastforce simp: events_ok_def block_of_def)
  moreover have "distinct (map qe_id (t_query_events (purge_events cutoff d)))"
    and "distinct (map be_id (t_block_events (purge_events cutoff d)))"
    unfolding blocks queries using assms by (simp_all add: events_ok_def distinct_map_delete_where)
  moreover have "\<forall>r \<in> set (t_query_events (purge_events cutoff d)). qe_host_id r \<in> ho_id ` set (t_hosts (purge_events cutoff d))"
    unfolding queries hosts set_delete_where using assms by (simp add: events_ok_def)
  ultimately show "events_ok (purge_events cutoff d)"
    by (simp add: events_ok_def)
qed

lemma delete_where_twice: "delete_where P (delete_where P rows) = delete_where P rows"
  by (simp add: delete_where_def)

lemma RetentionDays_frame:
  assumes "RetentionDays s = (days, s1)"
  shows "\<exists>e. s1 = s\<lparr>s_env := e\<rparr>" "next_time s1 = next_time s"
proof -
  from assms obtain raw where r: "read_setting ''retention.days'' s = (raw, s1)"
    by (auto simp: RetentionDays_def split: prod.splits)
  then show "\<exists>e. s1 = s\<lparr>s_env := e\<rparr>"
    by (auto elim!: read_setting_cases)
  from r show "next_time s1 = next_time s"
    by (auto simp: read_setting_def dest!: query_row_next split: prod.splits sum.splits)
qed

lemma PurgeOldEvents_cases:
  assumes "PurgeOldEvents s = (r, t)"
    and cutoff: "cutoff = fmt_time (days_ago (next_time s) (fst (RetentionDays s)))"
  obtains (okay) now rows e where
      "r = Inr (length (filter (\<lambda>r. qe_ts r < cutoff) (t_query_events (s_db s))))"
      "t = s\<lparr>s_db := (purge_events cutoff (s_db s))\<lparr>
          t_block_events := delete_where (\<lambda>b. be_created_at b < cutoff) (t_block_events (purge_events cutoff (s_db s))),
          t_settings := settings_put (''retention.last_purge'', fmt_time now) (t_settings (s_db s)),
          t_audit := rows\<rparr>, s_env := e\<rparr>"
  | (failed) x e where "r = Inl x" "t = s\<lparr>s_env := e\<rparr>"
proof -
  obtain days s1 where d: "RetentionDays s = (days, s1)"
    by fastforce
  obtain e1 where s1: "s1 = s\<lparr>s_env := e1\<rparr>" and nt: "next_time s1 = next_time s"
    using RetentionDays_frame [OF d] by blast
  obtain rn s2 where tn: "time_now s1 = (rn, s2)"
    by fastforce
  from time_now_next [OF tn] have rn: "rn = Inr (next_time s)"
    by (simp add: nt)
  from tn obtain e2 where s2: "s2 = s\<lparr>s_env := e2\<rparr>"
    by (rule time_now_cases) (simp add: s1)
  have cut: "fmt_time (days_ago (next_time s) days) = cutoff"
    by (simp add: cutoff d)
  let ?body = "andThen (exec_db (\<lambda>d. Inr (length (filter (\<lambda>r. qe_ts r < cutoff) (t_query_events d)), purge_events cutoff d))) (\<lambda>count.
           andThen (exec_stmt (\<lambda>d. d\<lparr>t_block_events := delete_where (\<lambda>b. be_created_at b < cutoff) (t_block_events d)\<rparr>)) (\<lambda>_.
           andThen time_now (\<lambda>now.
           andThen (exec_stmt (\<lambda>d. d\<lparr>t_settings := settings_put (''retention.last_purge'', fmt_time now) (t_settings d)\<rparr>)) (\<lambda>_.
           ret count))))"
  let ?audit = "\<lambda>count. if 0 < count then ignoring (Audit ''retention.purge'' ''query_events''
                   (itoa (int count) @ '' removed before '' @ cutoff)) else ret ()"
  have "purge_before cutoff s2 = (r, t)"
    using assms(1) by (simp add: PurgeOldEvents_def d andThen_def tn rn cut)
  then have run: "andThen (transaction ?body) (\<lambda>count. andThen (?audit count) (\<lambda>_. ret count)) s2 = (r, t)"
    by (simp only: purge_before_def)
  obtain r3 s3 where tr: "transaction ?body s2 = (r3, s3)"
    by fastforce
  show ?thesis
  proof (cases r3)
    case (Inl x)
    have "db_only ?body"
      by (intro keeps_intro)
    with tr Inl obtain e where "s3 = s2\<lparr>s_env := e\<rparr>"
      by (blast dest: transaction_Inl)
    with run tr Inl show ?thesis
      by (intro failed [of x e]) (auto simp: andThen_def s2)
  next
    case (Inr n)
    from tr [unfolded Inr] obtain e u e' where body: "?body (s2\<lparr>s_env := e\<rparr>) = (Inr n, u)" and s3: "s3 = u\<lparr>s_env := e'\<rparr>"
      by (rule transaction_Inr)
    from body obtain u1 u2 now u3 where
      1: "exec_db (\<lambda>d. Inr (length (filter (\<lambda>r. qe_ts r < cutoff) (t_query_events d)), purge_events cutoff d)) (s2\<lparr>s_env := e\<rparr>) = (Inr n, u1)"
      and 2: "exec_stmt (\<lambda>d. d\<lparr>t_block_events := delete_where (\<lambda>b. be_created_at b < cutoff) (t_block_events d)\<rparr>) u1 = (Inr (), u2)"
      and 3: "time_now u2 = (Inr now, u3)"
      and 4: "exec_stmt (\<lambda>d. d\<lparr>t_settings := settings_put (''retention.last_purge'', fmt_time now) (t_settings d)\<rparr>) u3 = (Inr (), u)"
      by (auto simp: ret_def elim!: andThen_InrE)
    from 1 obtain f1 where n: "n = length (filter (\<lambda>r. qe_ts r < cutoff) (t_query_events (s_db s)))"
      and u1: "u1 = s\<lparr>s_db := purge_events cutoff (s_db s), s_env := f1\<rparr>"
      by (rule exec_db_cases) (auto simp: s2)
    from 2 obtain f2 where u2: "u2 = u1\<lparr>s_db := (s_db u1)\<lparr>t_block_events := delete_where (\<lambda>b. be_created_at b < cutoff) (t_block_events (s_db u1))\<rparr>, s_env := f2\<rparr>"
      by (rule exec_stmt_cases) auto
    from 3 obtain f3 where u3: "u3 = u2\<lparr>s_env := f3\<rparr>"
      by (rule time_now_cases) auto
    from 4 obtain f4 where u: "u = u3\<lparr>s_db := (s_db u3)\<lparr>t_settings := settings_put (''retention.last_purge'', fmt_time now) (t_settings (s_db u3))\<rparr>, s_env := f4\<rparr>"
      by (rule exec_stmt_cases) auto
    obtain ra s4 where au: "?audit n s3 = (ra, s4)"
      by fastforce
    have aud: "ra = Inr () \<and> (\<exists>rows e. s4 = s3\<lparr>s_db := (s_db s3)\<lparr>t_audit := rows\<rparr>, s_env := e\<rparr>)"
    proof (cases "0 < n")
      case True
      with au have "ignoring (Audit ''retention.purge'' ''query_events'' (itoa (int n) @ '' removed before '' @ cutoff)) s3 = (ra, s4)"
        by simp
      then show ?thesis
        by (rule ignoring_Audit_cases) auto
    next
      case False
      with au have "ra = Inr ()" and "s4 = s3\<lparr>s_db := (s_db s3)\<lparr>t_audit := t_audit (s_db s3)\<rparr>, s_env := s_env s3\<rparr>"
        by (auto simp: ret_def)
      then show ?thesis
        by blast
    qed
    then obtain rows e4 where s4: "s4 = s3\<lparr>s_db := (s_db s3)\<lparr>t_audit := rows\<rparr>, s_env := e4\<rparr>"
      by blast
    have "r = Inr n" and "t = s4"
      using run aud au by (simp_all add: andThen_def ret_def tr Inr)
    then show ?thesis
      by (intro okay [where now = now and rows = rows and e = e4]) (simp_all add: n s4 s3 u u3 u2 u1 purge_events_def Let_def)
  qed
qed

lemma PurgeOldEvents_outcome:
  assumes "PurgeOldEvents s = (r, t)" and "events_ok (s_db s)"
    and "cutoff = fmt_time (days_ago (next_time s) (fst (RetentionDays s)))"
  shows "events_ok (s_db t) \<and>
    (case r of
       Inl _ \<Rightarrow> s_db t = s_db s
     | Inr n \<Rightarrow> t_query_events (s_db t) = filter (\<lambda>r. \<not> qe_ts r < cutoff) (t_query_events (s_db s)) \<and>
         t_block_events (s_db t) = filter (\<lambda>b. \<not> be_created_at b < cutoff) (t_block_events (s_db s)) \<and>
         n + length (t_query_events (s_db t)) = length (t_query_events (s_db s)) \<and>
         t_hosts (s_db t) = t_hosts (s_db s))"
  using assms(1,3)
proof (cases rule: PurgeOldEvents_cases)
  case (okay now rows e)
  let ?p = "purge_events cutoff (s_db s)"
  note p = purge_events_ok [OF assms(2), of cutoff]
  have blocks: "t_block_events (s_db t) = t_block_events ?p"
    by (simp add: okay(2) p(2) delete_where_twice)
  have "events_ok (s_db t)"
    using p(1) blocks by (simp add: events_ok_def okay(2))
  then show ?thesis
    using sum_length_filter_compl [of "\<lambda>r. qe_ts r < cutoff" "t_query_events (s_db s)"] blocks p(2)
    by (simp add: okay(1)) (simp add: okay(2) purge_events_def Let_def delete_where_def)
next
  case (failed x e)
  then show ?thesis
    using assms(2) by simp
qed

text \<open>
  C23. \<open>PurgeOldEvents\<close> is atomic and removes exactly the events whose timestamp text is before the
  cutoff, the retention period before the instant it starts, with their block events and no others;
  it returns how many, and leaves no dangling reference.
\<close>

theorem PurgeOldEvents_exact:
  assumes "PurgeOldEvents s = (r, t)" and "events_ok (s_db s)"
    and "cutoff = fmt_time (days_ago (next_time s) (fst (RetentionDays s)))"
  shows "events_ok (s_db t) \<and>
    (case r of
       Inl _ \<Rightarrow> s_db t = s_db s
     | Inr n \<Rightarrow> t_query_events (s_db t) = filter (\<lambda>r. \<not> qe_ts r < cutoff) (t_query_events (s_db s)) \<and>
         t_block_events (s_db t) = filter (\<lambda>b. \<not> be_created_at b < cutoff) (t_block_events (s_db s)) \<and>
         n + length (t_query_events (s_db t)) = length (t_query_events (s_db s)) \<and>
         t_hosts (s_db t) = t_hosts (s_db s))"
  using assms by (rule PurgeOldEvents_outcome)

text \<open>
  C29. When the one query that reads the retention period fails and the database then works again, the
  purge goes on with 30 days, whatever the period stored is: events that the settings keep are
  deleted.
\<close>

theorem PurgeOldEvents_forgets_retention:
  assumes "faults (s_env s) = [True]" and "events_ok (s_db s)"
  shows "fst (RetentionDays s) = 30 \<and> (\<exists>n t. PurgeOldEvents s = (Inr n, t) \<and>
    t_query_events (s_db t) =
      filter (\<lambda>r. \<not> qe_ts r < fmt_time (days_ago (next_time s) 30)) (t_query_events (s_db s)))"
proof -
  have 30: "fst (RetentionDays s) = 30"
    using assms(1) by (simp add: RetentionDays_def read_setting_def query_row_def exec_db_def db_call_def clamp_days_Nil)
  obtain r t where run: "PurgeOldEvents s = (r, t)"
    by fastforce
  obtain days s1 where d: "RetentionDays s = (days, s1)"
    by fastforce
  with assms(1) have "faults (s_env s1) = []"
    by (auto simp: RetentionDays_def read_setting_def query_row_def exec_db_def db_call_def)
  have "\<exists>n. r = Inr n"
  proof -
    have "works (andThen time_now (\<lambda>now. purge_before (fmt_time (days_ago now days))))"
      unfolding purge_before_def by (intro keeps_intro)
    from worksE [OF this \<open>faults (s_env s1) = []\<close>] run show ?thesis
      by (auto simp: PurgeOldEvents_def d)
  qed
  then show ?thesis
    using PurgeOldEvents_outcome [OF run assms(2) refl] 30 run by auto
qed

section \<open>The properties at a concrete input\<close>

definition sample_event :: "string \<Rightarrow> QueryEvent" where
  "sample_event action = \<lparr>QE_Timestamp = 0, QE_HostID = 1, QE_SourceIP = ''192.168.1.7'', QE_HostLabel = '''',
     QE_QueryName = ''ads.com.'', QE_QueryType = ''A'', QE_Action = action, QE_MatchedRuleID = None,
     QE_MatchedSource = '''', QE_ResponseCode = ''NOERROR'', QE_Upstream = '''', QE_LatencyMS = 1,
     QE_AnswerSummary = ''''\<rparr>"

definition sample_hosts_db :: db where
  "sample_hosts_db = empty_db\<lparr>t_hosts := [host_new ''192.168.1.7'' '''' []]\<rparr>"

lemma sample_events_ok: "events_ok sample_hosts_db"
  by (simp add: events_ok_def sample_hosts_db_def empty_db_def)

lemma InsertQueryEvent_atomic_witness:
  "\<exists>t. InsertQueryEvent (sample_event ''blocked'') (sample_store sample_hosts_db) = (Inr (), t) \<and>
     length (t_block_events (s_db t)) = 1 \<and> events_ok (s_db t)"
proof -
  obtain t where run: "InsertQueryEvent (sample_event ''blocked'') (sample_store sample_hosts_db) = (Inr (), t)"
    by (simp add: InsertQueryEvent_def run_simps sample_event_def sample_hosts_db_def empty_db_def zero_time_def
        nanos_per_sec_def insert_event_def insert_block_def find_host_def host_new_def next_rowid_def
        update_where_def count_event_def event_row_def)
  from InsertQueryEvent_atomic [OF run] run sample_events_ok show ?thesis
    by (simp add: sample_event_def) (simp add: sample_hosts_db_def empty_db_def)
qed

lemma PurgeOldEvents_exact_witness:
  "\<exists>n t. PurgeOldEvents (sample_store sample_hosts_db) = (Inr n, t) \<and> events_ok (s_db t)"
proof -
  have "works (purge_before c)" for c
    unfolding purge_before_def by (intro keeps_intro)
  then have pb: "\<exists>n t. purge_before c s = (Inr n, t)" if "faults (s_env s) = []" for c s
    using that by (rule worksE) blast
  have "\<exists>n t. PurgeOldEvents (sample_store sample_hosts_db) = (Inr n, t)"
    by (simp add: PurgeOldEvents_def RetentionDays_def read_setting_working andThen_def time_now_def pb)
  then obtain n t where run: "PurgeOldEvents (sample_store sample_hosts_db) = (Inr n, t)"
    by blast
  from PurgeOldEvents_exact [OF run _ refl] run sample_events_ok show ?thesis
    by auto
qed

lemma PurgeOldEvents_forgets_retention_witness:
  "\<exists>n t. PurgeOldEvents ((sample_store sample_hosts_db)\<lparr>s_env := \<lparr>faults = [True], clock = 0, readings = []\<rparr>\<rparr>) = (Inr n, t)"
  using PurgeOldEvents_forgets_retention
    [of "(sample_store sample_hosts_db)\<lparr>s_env := \<lparr>faults = [True], clock = 0, readings = []\<rparr>\<rparr>"]
    sample_events_ok by auto

section \<open>An event for a known host is stored\<close>

text \<open>\<open>achieves P m Q\<close>: from a state with \<open>P\<close>, when no call fails, \<open>m\<close> returns and \<open>Q\<close> holds of what it leaves.\<close>

definition achieves :: "(db \<Rightarrow> bool) \<Rightarrow> (store, 'a) comp \<Rightarrow> ('a \<Rightarrow> db \<Rightarrow> bool) \<Rightarrow> bool" where
  "achieves P m Q \<longleftrightarrow> (\<forall>s. unfailing s \<and> P (s_db s) \<longrightarrow> (\<exists>a t. m s = (Inr a, t) \<and> unfailing t \<and> Q a (s_db t)))"

lemma achievesE:
  assumes "achieves P m Q" and "unfailing s" and "P (s_db s)"
  obtains a t where "m s = (Inr a, t)" and "unfailing t" and "Q a (s_db t)"
  using assms by (auto simp: achieves_def)

lemma achieves_ret: "(\<And>d. P d \<Longrightarrow> Q a d) \<Longrightarrow> achieves P (ret a) Q"
  by (simp add: achieves_def ret_def)

lemma achieves_exec_db: "(\<And>d. P d \<Longrightarrow> \<exists>a d'. stmt d = Inr (a, d') \<and> Q a d') \<Longrightarrow> achieves P (exec_db stmt) Q"
  unfolding achieves_def
proof (intro allI impI)
  assume stmt: "\<And>d. P d \<Longrightarrow> \<exists>a d'. stmt d = Inr (a, d') \<and> Q a d'"
  fix s assume s: "unfailing s \<and> P (s_db s)"
  then obtain a d' where "stmt (s_db s) = Inr (a, d')" "Q a d'"
    using stmt by blast
  with s show "\<exists>a t. exec_db stmt s = (Inr a, t) \<and> unfailing t \<and> Q a (s_db t)"
    by (simp add: exec_db_def db_call_def unfailing_def)
qed

lemma achieves_andThen:
  assumes "achieves P m R" and "\<And>a. achieves (R a) (k a) Q"
  shows "achieves P (andThen m k) Q"
  unfolding achieves_def
proof (intro allI impI)
  fix s assume "unfailing s \<and> P (s_db s)"
  with assms(1) obtain a t where 1: "m s = (Inr a, t)" "unfailing t" "R a (s_db t)"
    by (auto elim: achievesE)
  from achievesE [OF assms(2) this(2,3)] obtain b u where "k a t = (Inr b, u)" "unfailing u" "Q b (s_db u)" .
  with 1(1) show "\<exists>b u. andThen m k s = (Inr b, u) \<and> unfailing u \<and> Q b (s_db u)"
    by (simp add: andThen_def)
qed

lemma achieves_transaction: "achieves P body Q \<Longrightarrow> achieves P (transaction body) Q"
  by (fastforce simp: achieves_def unfailing_def transaction_def db_call_def)

lemma achieves_InsertQueryEvent: "achieves (\<lambda>d. QE_HostID ev \<in> ho_id ` set (t_hosts d)) (InsertQueryEvent ev) (\<lambda>_ _. True)"
proof -
  let ?P = "\<lambda>d. QE_HostID ev \<in> ho_id ` set (t_hosts d)"
  let ?R = "\<lambda>i d. ?P d \<and> i \<in> qe_id ` set (t_query_events d)"
  have 1: "achieves ?P (exec_db (insert_event e)) ?R" if "QE_HostID e = QE_HostID ev" for e
    by (rule achieves_exec_db) (auto simp: insert_event_def Let_def event_row_def find_host_def that simp flip: find_host_mem)
  have 2: "achieves (?R i) (exec_stmt (\<lambda>d. d\<lparr>t_hosts := update_where Q (count_event e) (t_hosts d)\<rparr>)) (\<lambda>_. ?R i)" for i e Q
    unfolding exec_stmt_def by (rule achieves_exec_db) (simp add: ids_update_hosts count_event_def)
  have 3: "achieves (?R i) (exec_db (insert_block e i)) (\<lambda>_ _. True)" if "QE_HostID e = QE_HostID ev" for i e
    by (rule achieves_exec_db) (auto simp: insert_block_def that simp flip: find_host_mem)
  have stamp: "achieves ?P (if QE_Timestamp ev = zero_time then andThen time_now (\<lambda>now. ret (ev\<lparr>QE_Timestamp := now\<rparr>)) else ret ev)
      (\<lambda>e d. ?P d \<and> QE_HostID e = QE_HostID ev)"
    by (auto simp: achieves_def unfailing_def andThen_def ret_def time_now_def split: list.split)
  show ?thesis
    unfolding InsertQueryEvent_def
  proof (rule achieves_andThen [OF stamp])
    fix e
    show "achieves (\<lambda>d. ?P d \<and> QE_HostID e = QE_HostID ev) (transaction
       (andThen (exec_db (insert_event e)) (\<lambda>qid.
        andThen (exec_stmt (\<lambda>d. d\<lparr>t_hosts := update_where (\<lambda>h. ho_id h = QE_HostID e)
          (count_event e) (t_hosts d)\<rparr>)) (\<lambda>_.
        if QE_Action e = ''blocked'' then exec_db (insert_block e qid) else ret ())))) (\<lambda>_ _. True)"
    proof (cases "QE_HostID e = QE_HostID ev")
      case True
      show ?thesis
        by (intro achieves_transaction achieves_andThen [OF 1 [OF True]] achieves_andThen [OF 2]; simp add: True)
          (auto intro!: achieves_andThen [OF 1 [OF True]] achieves_andThen [OF 2] 3 True achieves_ret)
    qed (simp add: achieves_def)
  qed
qed

lemma InsertQueryEvent_stores:
  assumes "unfailing s" and "QE_HostID ev \<in> ho_id ` set (t_hosts (s_db s))"
  obtains t i e where "InsertQueryEvent ev s = (Inr (), t)" and "unfailing t"
    and "t_query_events (s_db t) = t_query_events (s_db s) @ [event_row e i]" and "e = ev\<lparr>QE_Timestamp := QE_Timestamp e\<rparr>"
    and "ho_id ` set (t_hosts (s_db t)) = ho_id ` set (t_hosts (s_db s))"
proof -
  obtain u t where t: "InsertQueryEvent ev s = (Inr u, t)" "unfailing t"
    using achieves_InsertQueryEvent assms by (rule achievesE)
  from t(1) show thesis
  proof (cases rule: InsertQueryEvent_cases)
    case (okay e x)
    with t that show thesis
      by (auto simp: event_stored_def Let_def ids_update_hosts count_event_def)
  qed simp
qed

lemma append_less_append: "(xs @ ys :: string) < xs @ zs \<longleftrightarrow> ys < zs"
  by (induction xs) simp_all

text \<open>
  The cutoff is compared as text, and the text of a time drops a fraction that is zero: of two times in one
  second, the whole second is the larger text. So an event less than a second younger than a cutoff that is
  a whole second is purged.
\<close>

lemma text_order_in_second:
  assumes "t mod nanos_per_sec = 0" and "0 < f" and "f < nanos_per_sec"
  shows "fmt_time (t + f) < fmt_time t"
proof -
  have "(t + f) div nanos_per_sec = t div nanos_per_sec" "(t + f) mod nanos_per_sec = f"
    using assms by (auto elim!: dvdE simp: mod_eq_0_iff_dvd nanos_per_sec_def)
  moreover have "CHR ''.'' < CHR ''Z''"
    by code_simp
  ultimately show ?thesis
    using assms by (simp add: fmt_time_def unix_secs_def fmt_frac_def append_less_append)
qed

lemma purge_takes_younger:
  assumes "t mod nanos_per_sec = 0" and "0 < f" and "f < nanos_per_sec" and "qe_ts r = fmt_time (t + f)"
  shows "r \<notin> set (t_query_events (purge_events (fmt_time t) d))"
  using text_order_in_second [OF assms(1-3)] by (simp add: purge_events_def Let_def delete_where_def assms(4))

end
