(* ===== verification/Store_Reports.thy ===== *)
theory Store_Reports
  imports Complex_Main "HOL-Library.Multiset" Store_Events
begin

text \<open>
  Dashboard and reports of internal/store/store.go: \<open>Dashboard\<close>, \<open>HostDetail\<close>, \<open>HostReport\<close> and the
  queries they share. Each query whose error is dropped contributes its zero value. A percentage, a
  \<open>float64\<close> in the code, is kept here as the exact quotient. Where SQL leaves the order of rows with
  the same count open, the rows are in the order of their keys.
\<close>

section \<open>Queries whose error is dropped\<close>

definition or_else :: "'a \<Rightarrow> (store, 'a) comp \<Rightarrow> (store, 'a) comp" where
  "or_else fallback m s = (case m s of (Inr a, t) \<Rightarrow> (Inr a, t) | (Inl _, t) \<Rightarrow> (Inr fallback, t))"

definition count_events :: "(query_event_row \<Rightarrow> bool) \<Rightarrow> db \<Rightarrow> int" where
  "count_events P d = int (length (filter P (t_query_events d)))"

definition count_distinct :: "(query_event_row \<Rightarrow> 'a) \<Rightarrow> (query_event_row \<Rightarrow> bool) \<Rightarrow> db \<Rightarrow> int" where
  "count_distinct f P d = int (length (remdups (map f (filter P (t_query_events d)))))"

section \<open>Rows with the largest counts\<close>

record TopRow =
  TR_Key :: string
  TR_Count :: int
  TR_Percent :: rat

definition grouped :: "string list \<Rightarrow> (string \<times> int) list" where
  \<comment> \<open>\<open>SELECT key, COUNT(*) ... GROUP BY key ORDER BY COUNT(*) DESC\<close>\<close>
  "grouped ks = sort_key (\<lambda>g. - snd g) (map (\<lambda>k. (k, int (count_list ks k))) (sort (remdups ks)))"

definition top_groups :: "nat option \<Rightarrow> string list \<Rightarrow> (string \<times> int) list" where
  \<comment> \<open>with a \<open>LIMIT\<close>, or none\<close>
  "top_groups limit ks = (case limit of None \<Rightarrow> grouped ks | Some n \<Rightarrow> take n (grouped ks))"

definition topRows :: "(db \<Rightarrow> (string \<times> int) list) \<Rightarrow> (store, TopRow list) comp" where
  "topRows q = query_db (\<lambda>d. map (\<lambda>(k, n). \<lparr>TR_Key = k, TR_Count = n, TR_Percent = 0\<rparr>) (q d))"

definition with_percent :: "int \<Rightarrow> TopRow list \<Rightarrow> TopRow list" where
  "with_percent everything out =
     (if everything \<le> 0 then out else map (\<lambda>r. r\<lparr>TR_Percent := of_int (TR_Count r) / of_int everything * 100\<rparr>) out)"

definition topRowsWithPercent :: "(db \<Rightarrow> (string \<times> int) list) \<Rightarrow> (db \<Rightarrow> int) \<Rightarrow> (store, TopRow list) comp" where
  \<comment> \<open>its callers drop the error and keep the rows, so the rows are the value in every case\<close>
  "topRowsWithPercent q everything s =
     (case topRows q s of
        (Inl _, s) \<Rightarrow> (Inr [], s)
      | (Inr out, s) \<Rightarrow>
          (case query_db everything s of (Inl _, s) \<Rightarrow> (Inr out, s) | (Inr n, s) \<Rightarrow> (Inr (with_percent n out), s)))"

record TopHostRow =
  TH_ID :: int
  TH_Key :: string
  TH_SourceIP :: string
  TH_Label :: string
  TH_Hostname :: string
  TH_MAC :: string
  TH_Vendor :: string
  TH_Count :: int

definition top_hosts :: "string \<Rightarrow> db \<Rightarrow> TopHostRow list" where
  "top_hosts since d =
     take 8 (sort_key (\<lambda>r. - TH_Count r)
       (List.map_filter (\<lambda>i. map_option (\<lambda>h.
            \<lparr>TH_ID = ho_id h, TH_Key = host_display (ho_source_ip h) h, TH_SourceIP = ho_source_ip h,
             TH_Label = ho_label h, TH_Hostname = ho_hostname h, TH_MAC = ho_mac h, TH_Vendor = ho_vendor h,
             TH_Count = count_events (\<lambda>r. since \<le> qe_ts r \<and> qe_host_id r = i) d\<rparr>) (find_host i d))
          (sort (remdups (map qe_host_id (filter (\<lambda>r. since \<le> qe_ts r) (t_query_events d)))))))"

definition topHostRows :: "string \<Rightarrow> (store, TopHostRow list) comp" where
  "topHostRows since = query_db (top_hosts since)"

section \<open>The dashboard\<close>

record Dashboard =
  DB_QueriesToday :: int
  DB_BlockedToday :: int
  DB_UniqueHosts :: int
  DB_Recent :: "QueryEvent list"
  DB_Blocked :: "QueryEvent list"
  DB_TopHosts :: "TopHostRow list"
  DB_TopDomains :: "TopRow list"
  DB_RuleHits :: "TopRow list"
  DB_DatabasePath :: string
  DB_EventStoreMode :: string
  DB_RetentionDays :: int

definition local_midnight :: "int \<Rightarrow> instant \<Rightarrow> string" where
  \<comment> \<open>\<open>time.Now().Format("2006-01-02") + "T00:00:00"\<close> in a zone \<open>zone\<close> seconds east of UTC\<close>
  "local_midnight zone now = fmt_date ((unix_secs now + zone) div 86400) @ ''T00:00:00''"

definition hours_ago :: "instant \<Rightarrow> int \<Rightarrow> instant" where
  "hours_ago now hours = now - hours * 3600 * nanos_per_sec"

definition domain_counts :: "nat option \<Rightarrow> (query_event_row \<Rightarrow> bool) \<Rightarrow> db \<Rightarrow> (string \<times> int) list" where
  "domain_counts limit P d = top_groups limit (map qe_query_name (filter P (t_query_events d)))"

definition action_counts :: "(query_event_row \<Rightarrow> bool) \<Rightarrow> db \<Rightarrow> (string \<times> int) list" where
  "action_counts P d = top_groups None (map qe_action (filter P (t_query_events d)))"

definition rule_hits :: "db \<Rightarrow> (string \<times> int) list" where
  "rule_hits d = take 8 (sort_key (\<lambda>g. - snd g)
     (map (\<lambda>r. (rr_target r @ '' ('' @ rr_action r @ '')'', rr_hit_count r)) (filter (\<lambda>r. 0 < rr_hit_count r) (t_rules d))))"

definition dashboard_queries :: "int \<Rightarrow> string \<Rightarrow> int \<Rightarrow> (store, Dashboard) comp" where
  \<comment> \<open>\<open>Dashboard\<close> once the retention period is read\<close>
  "dashboard_queries zone dbPath days =
        andThen time_now (\<lambda>now1.
         andThen time_now (\<lambda>now2.
           let today = local_midnight zone now1; last48 = fmt_time (hours_ago now2 48)
           in andThen (or_else 0 (query_db (count_events (\<lambda>r. today \<le> qe_ts r)))) (\<lambda>queries.
              andThen (or_else 0 (query_db (count_events (\<lambda>r. today \<le> qe_ts r \<and> qe_action r = ''blocked'')))) (\<lambda>blocked.
              andThen (or_else 0 (query_db (count_distinct qe_host_id (\<lambda>r. today \<le> qe_ts r)))) (\<lambda>uniq.
              andThen (or_else [] (RecentEvents '''' 30)) (\<lambda>recent.
              andThen (or_else [] (RecentEvents ''blocked'' 30)) (\<lambda>recentBlocked.
              andThen (or_else [] (topHostRows today)) (\<lambda>topHosts.
              andThen (topRowsWithPercent (domain_counts (Some 16) (\<lambda>r. last48 \<le> qe_ts r))
                 (count_events (\<lambda>r. last48 \<le> qe_ts r))) (\<lambda>topDomains.
              andThen (or_else [] (topRows rule_hits)) (\<lambda>hits.
              ret \<lparr>DB_QueriesToday = queries, DB_BlockedToday = blocked, DB_UniqueHosts = uniq, DB_Recent = recent,
                   DB_Blocked = recentBlocked, DB_TopHosts = topHosts, DB_TopDomains = topDomains, DB_RuleHits = hits,
                   DB_DatabasePath = dbPath, DB_EventStoreMode = ''sqlite-wal'', DB_RetentionDays = days\<rparr>))))))))))"

definition DashboardOf :: "int \<Rightarrow> string \<Rightarrow> (store, Dashboard) comp" where
  \<comment> \<open>the method \<open>Dashboard\<close>\<close>
  "DashboardOf zone dbPath s = (case RetentionDays s of (days, s) \<Rightarrow> dashboard_queries zone dbPath days s)"

section \<open>One host\<close>

record HostDetail =
  HD_Host :: host_row
  HD_WindowHours :: int
  HD_TotalQueries :: int
  HD_TotalBlocked :: int
  HD_UniqueDomains :: int
  HD_Recent :: "QueryEvent list"
  HD_Blocked :: "QueryEvent list"
  HD_TopDomains :: "TopRow list"
  HD_TopActions :: "TopRow list"

definition HostDetailOf :: "int \<Rightarrow> int \<Rightarrow> (store, HostDetail) comp" where
  \<comment> \<open>the method \<open>HostDetail\<close>\<close>
  "HostDetailOf hid hours =
     andThen (get_host hid) (\<lambda>host.
       let hours = (if hours \<noteq> 48 then 24 else hours)
       in andThen time_now (\<lambda>now.
       let since = fmt_time (hours_ago now hours); own = (\<lambda>r. qe_host_id r = hid \<and> since \<le> qe_ts r)
       in andThen (RecentEventsByHostSince hid '''' since 1000) (\<lambda>recent.
          andThen (RecentEventsByHostSince hid ''blocked'' since 1000) (\<lambda>blocked.
          andThen (or_else [] (topRows (domain_counts (Some 50) own))) (\<lambda>topDomains.
          andThen (or_else [] (topRows (action_counts own))) (\<lambda>topActions.
          andThen (or_else (0, 0) (query_db (\<lambda>d. (count_events own d, count_distinct qe_query_name own d)))) (\<lambda>(queries, uniq).
          andThen (or_else 0 (query_db (count_events (\<lambda>r. own r \<and> qe_action r = ''blocked'')))) (\<lambda>totalBlocked.
          ret \<lparr>HD_Host = host, HD_WindowHours = hours, HD_TotalQueries = queries, HD_TotalBlocked = totalBlocked,
               HD_UniqueDomains = uniq, HD_Recent = recent, HD_Blocked = blocked, HD_TopDomains = topDomains,
               HD_TopActions = topActions\<rparr>))))))))"

record HostReport =
  HR_Host :: host_row
  HR_Window :: string
  HR_TotalQueries :: int
  HR_TotalBlocked :: int
  HR_UniqueDomains :: int
  HR_TopDomains :: "TopRow list"
  HR_TopBlocked :: "TopRow list"
  HR_Actions :: "TopRow list"
  HR_FirstEventAt :: string
  HR_LastEventAt :: string
  HR_RecommendedNotes :: "string list"

definition hostReportNotes :: "int \<Rightarrow> int \<Rightarrow> int \<Rightarrow> string list" where
  \<comment> \<open>of the total, the blocked and the distinct count of the report\<close>
  "hostReportNotes queries blocked uniq =
     (if queries = 0 then [''No DNS activity has been recorded for this host yet.'']
      else (let notes = (if 0 < blocked then [''Review blocked domains and rule attribution before adding broad allow rules.''] else []);
                notes = notes @ (if 50 < uniq
                  then [''High unique-domain count for the selected window; inspect newly seen domains and top categories.''] else [])
            in if notes = [] then [''No immediate DNS policy concerns were detected from the recorded activity.''] else notes))"

definition first_text :: "string list \<Rightarrow> string" where
  \<comment> \<open>\<open>COALESCE(MIN(ts), '')\<close>\<close>
  "first_text xs = (case sort xs of [] \<Rightarrow> '''' | x # _ \<Rightarrow> x)"

definition last_text :: "string list \<Rightarrow> string" where
  "last_text xs = (case rev (sort xs) of [] \<Rightarrow> '''' | x # _ \<Rightarrow> x)"

definition HostReportOf :: "int \<Rightarrow> (store, HostReport) comp" where
  \<comment> \<open>the method \<open>HostReport\<close>\<close>
  "HostReportOf hid =
     (let own = (\<lambda>r. qe_host_id r = hid); times = (\<lambda>d. map qe_ts (filter own (t_query_events d)))
      in andThen (get_host hid) (\<lambda>host.
         andThen (or_else (0, 0, '''', '''') (query_db (\<lambda>d. (count_events own d, count_distinct qe_query_name own d,
           first_text (times d), last_text (times d))))) (\<lambda>(total, uniq, first, last).
         andThen (or_else 0 (query_db (count_events (\<lambda>r. own r \<and> qe_action r = ''blocked'')))) (\<lambda>blocked.
         andThen (or_else [] (topRows (domain_counts (Some 10) own))) (\<lambda>topDomains.
         andThen (or_else [] (topRows (domain_counts (Some 10) (\<lambda>r. own r \<and> qe_action r = ''blocked'')))) (\<lambda>topBlocked.
         andThen (or_else [] (topRows (action_counts own))) (\<lambda>actions.
         ret \<lparr>HR_Host = host, HR_Window = ''all'', HR_TotalQueries = total, HR_TotalBlocked = blocked,
              HR_UniqueDomains = uniq, HR_TopDomains = topDomains, HR_TopBlocked = topBlocked, HR_Actions = actions,
              HR_FirstEventAt = first, HR_LastEventAt = last,
              HR_RecommendedNotes = hostReportNotes total blocked uniq\<rparr>)))))))"

section \<open>What the groups are\<close>

lemma grouped_set: "(k, n) \<in> set (grouped ks) \<longleftrightarrow> k \<in> set ks \<and> n = int (count_list ks k)"
  by (auto simp: grouped_def)

lemma grouped_keys_distinct: "distinct (map fst (grouped ks))"
proof -
  have "mset (map fst (grouped ks)) = mset (sort (remdups ks))"
    unfolding grouped_def by (simp add: multiset.map_comp comp_def)
  then show ?thesis
    by (metis distinct_remdups distinct_sort mset_eq_imp_distinct_iff)
qed

lemma grouped_sorted: "sorted_wrt (\<lambda>g h. snd h \<le> snd g) (grouped ks)"
proof -
  have "sorted (map (\<lambda>g. - snd g) (grouped ks))"
    by (simp add: grouped_def)
  then show ?thesis
    unfolding sorted_map by (rule sorted_wrt_mono_rel [rotated]) simp
qed

lemma sum_count_list: "set ks \<subseteq> A \<Longrightarrow> finite A \<Longrightarrow> (\<Sum>k\<in>A. count_list ks k) = length ks"
  by (metis sum_count_set)

lemma grouped_total: "sum_list (map snd (grouped ks)) = int (length ks)"
proof -
  have "mset (map snd (grouped ks)) = mset (map (\<lambda>k. int (count_list ks k)) (remdups ks))"
    unfolding grouped_def by (simp add: multiset.map_comp comp_def)
  then have "sum_list (map snd (grouped ks)) = sum_list (map (\<lambda>k. int (count_list ks k)) (remdups ks))"
    by (metis sum_mset_sum_list)
  also have "\<dots> = (\<Sum>k\<in>set ks. int (count_list ks k))"
    by (simp add: sum_list_distinct_conv_sum_set)
  also have "\<dots> = int (length ks)"
    by (simp add: sum_count_list flip: of_nat_sum)
  finally show ?thesis .
qed

lemma grouped_pos: "g \<in> set (grouped ks) \<Longrightarrow> 0 < snd g"
  by (cases g) (simp add: grouped_set count_list_0_iff order_neq_le_trans)

text \<open>The first rows of a limited query beat every group that is left out.\<close>

lemma top_groups_best:
  assumes "g \<in> set (top_groups limit ks)" and "k \<in> set ks" and "k \<notin> fst ` set (top_groups limit ks)"
  shows "int (count_list ks k) \<le> snd g"
proof (cases limit)
  case None
  have "(k, int (count_list ks k)) \<in> set (grouped ks)"
    using assms(2) by (simp add: grouped_set)
  with assms(3) None show ?thesis
    by (force simp: top_groups_def)
next
  case (Some n)
  let ?e = "(k, int (count_list ks k))"
  have "?e \<in> set (take n (grouped ks)) \<union> set (drop n (grouped ks))"
    using assms(2) by (simp add: grouped_set flip: set_append)
  with assms(3) Some have "?e \<in> set (drop n (grouped ks))"
    by (force simp: top_groups_def)
  moreover have "sorted_wrt (\<lambda>g h. snd h \<le> snd g) (take n (grouped ks) @ drop n (grouped ks))"
    using grouped_sorted by simp
  ultimately have "snd ?e \<le> snd g"
    using assms(1) Some unfolding sorted_wrt_append top_groups_def by fastforce
  then show ?thesis
    by simp
qed

lemma take_sum_le:
  "(\<And>x. x \<in> set xs \<Longrightarrow> 0 \<le> x) \<Longrightarrow> sum_list (take n xs) \<le> sum_list (xs :: int list)"
proof (induction xs arbitrary: n)
  case (Cons x xs)
  then show ?case
    by (cases n) (simp_all add: sum_list_nonneg)
qed simp

lemma top_groups_total: "sum_list (map snd (top_groups limit ks)) \<le> int (length ks)"
proof (cases limit)
  case None
  then show ?thesis
    by (simp add: top_groups_def grouped_total)
next
  case (Some n)
  have "sum_list (take n (map snd (grouped ks))) \<le> sum_list (map snd (grouped ks))"
    by (rule take_sum_le) (use grouped_pos in force)
  then show ?thesis
    by (simp add: Some top_groups_def grouped_total take_map)
qed

section \<open>Reads\<close>

definition reads :: "(store, 'a) comp \<Rightarrow> bool" where
  \<comment> \<open>a computation that changes nothing but the environment\<close>
  "reads m \<longleftrightarrow> (\<forall>s. \<exists>e. snd (m s) = s\<lparr>s_env := e\<rparr>)"

lemma readsI: "(\<And>s r t. m s = (r, t) \<Longrightarrow> \<exists>e. t = s\<lparr>s_env := e\<rparr>) \<Longrightarrow> reads m"
  by (metis reads_def prod.collapse)

lemma readsD: "reads m \<Longrightarrow> m s = (r, t) \<Longrightarrow> \<exists>e. t = s\<lparr>s_env := e\<rparr>"
  by (metis reads_def snd_conv)

lemma reads_query [keeps_intro]: "reads (query_db q)" "reads (query_row p)"
  by (rule readsI, erule query_db_cases, auto) (rule readsI, erule query_row_cases, auto)

lemma reads_now [keeps_intro]: "reads time_now"
  by (rule readsI) (erule time_now_cases, auto)

lemma reads_ret [keeps_intro]: "reads (ret a)"
  by (simp add: reads_def ret_def)

lemma reads_or_else [keeps_intro]: "reads m \<Longrightarrow> reads (or_else a m)"
  by (auto simp: reads_def or_else_def split: prod.splits sum.splits) (metis snd_conv)+

lemma reads_andThen [keeps_intro]:
  assumes "reads m" and "\<And>a. reads (k a)"
  shows "reads (andThen m k)"
proof (rule readsI)
  fix s r t assume t: "andThen m k s = (r, t)"
  obtain r1 s1 where m: "m s = (r1, s1)"
    by fastforce
  with assms(1) obtain e where "s1 = s\<lparr>s_env := e\<rparr>"
    using readsD by blast
  moreover have "\<exists>e. t = s1\<lparr>s_env := e\<rparr>"
    using t m assms(2) by (cases r1) (auto simp: andThen_def dest: readsD)
  ultimately show "\<exists>e. t = s\<lparr>s_env := e\<rparr>"
    by auto
qed

lemma reads_case_prod [keeps_intro]: "(\<And>a b. reads (k a b)) \<Longrightarrow> reads (case p of (a, b) \<Rightarrow> k a b)"
  by (cases p) simp

lemma reads_lists [keeps_intro]:
  "reads (topRows q)" "reads (topHostRows since)" "reads (RecentEvents a n)" "reads (get_host hid)"
  "reads (RecentEventsByHostSince hid a since n)"
  unfolding topRows_def topHostRows_def RecentEvents_def get_host_def RecentEventsByHostSince_def
  by (intro keeps_intro)+

lemma reads_percent [keeps_intro]: "reads (topRowsWithPercent q everything)"
proof (rule readsI)
  fix s r t assume t: "topRowsWithPercent q everything s = (r, t)"
  obtain r1 s1 where 1: "topRows q s = (r1, s1)"
    by fastforce
  obtain r2 s2 where 2: "query_db everything s1 = (r2, s2)"
    by fastforce
  have "reads (topRows q)" "reads (query_db everything)"
    by (intro keeps_intro)+
  from readsD [OF this(1) 1] readsD [OF this(2) 2] obtain e1 e2 where "s1 = s\<lparr>s_env := e1\<rparr>" "s2 = s1\<lparr>s_env := e2\<rparr>"
    by blast
  moreover have "t = s1 \<or> t = s2"
    using t by (cases r1; cases r2) (simp_all add: topRowsWithPercent_def 1 2)
  ultimately show "\<exists>e. t = s\<lparr>s_env := e\<rparr>"
    by auto
qed

text \<open>Where the rows with percentages come from.\<close>

lemma topRowsWithPercent_cases:
  assumes "topRowsWithPercent q everything s = (r, t)"
  obtains "r = Inr []"
  | "r = Inr (map (\<lambda>(k, n). \<lparr>TR_Key = k, TR_Count = n, TR_Percent = 0\<rparr>) (q (s_db s)))"
  | "r = Inr (with_percent (everything (s_db s)) (map (\<lambda>(k, n). \<lparr>TR_Key = k, TR_Count = n, TR_Percent = 0\<rparr>) (q (s_db s))))"
proof -
  let ?rows = "\<lambda>d. map (\<lambda>(k, n). \<lparr>TR_Key = k, TR_Count = n, TR_Percent = 0\<rparr>) (q d)"
  obtain r1 s1 where 1: "query_db ?rows s = (r1, s1)"
    by fastforce
  obtain r2 s2 where 2: "query_db everything s1 = (r2, s2)"
    by fastforce
  from 1 show ?thesis
  proof (cases rule: query_db_cases)
    case (okay e)
    from 2 show ?thesis
    proof (cases rule: query_db_cases)
      case okay2: (okay e2)
      have "r = Inr (with_percent (everything (s_db s)) (?rows (s_db s)))"
        using assms unfolding topRowsWithPercent_def topRows_def 1 prod.case okay(1) sum.case 2 okay2(1) by (simp add: okay(2))
      then show ?thesis
        by (rule that(3))
    next
      case (failed e2 x)
      have "r = Inr (?rows (s_db s))"
        using assms unfolding topRowsWithPercent_def topRows_def 1 prod.case okay(1) sum.case 2 failed(1) by simp
      then show ?thesis
        by (rule that(2))
    qed
  next
    case (failed e x)
    have "r = Inr []"
      using assms unfolding topRowsWithPercent_def topRows_def 1 prod.case failed(1) sum.case by simp
    then show ?thesis
      by (rule that(1))
  qed
qed

text \<open>What a computation returns, whatever it runs on.\<close>

definition returns :: "('a \<Rightarrow> bool) \<Rightarrow> (store, 'a) comp \<Rightarrow> bool" where
  "returns P m \<longleftrightarrow> (\<forall>s a t. m s = (Inr a, t) \<longrightarrow> P a)"

lemma returns_ret: "P a \<Longrightarrow> returns P (ret a)"
  by (simp add: returns_def ret_def)

lemma returns_then: "(\<And>a. returns P (k a)) \<Longrightarrow> returns P (andThen m k)"
  by (auto simp: returns_def elim!: andThen_InrE)

lemma returns_bind: "returns Q m \<Longrightarrow> (\<And>a. Q a \<Longrightarrow> returns P (k a)) \<Longrightarrow> returns P (andThen m k)"
  unfolding returns_def by (metis andThen_InrE)

definition percents_ok :: "TopRow list \<Rightarrow> bool" where
  "percents_ok rows \<longleftrightarrow> length rows \<le> 16 \<and> (\<forall>r \<in> set rows. 0 \<le> TR_Percent r) \<and> sum_list (map TR_Percent rows) \<le> 100"

lemma percents_ok_zero:
  "length gs \<le> 16 \<Longrightarrow> percents_ok (map (\<lambda>(k, n). \<lparr>TR_Key = k, TR_Count = n, TR_Percent = 0\<rparr>) gs)"
  by (auto simp: percents_ok_def comp_def case_prod_beta sum_list_0)

lemma percents_ok_with:
  assumes "length gs \<le> 16" and "\<And>g. g \<in> set gs \<Longrightarrow> 0 < snd g" and "sum_list (map snd gs) \<le> n"
  shows "percents_ok (with_percent n (map (\<lambda>(k, n). \<lparr>TR_Key = k, TR_Count = n, TR_Percent = 0\<rparr>) gs))"
proof (cases "n \<le> 0")
  case True
  with percents_ok_zero [OF assms(1)] show ?thesis
    by (simp add: with_percent_def)
next
  case False
  let ?rows = "with_percent n (map (\<lambda>(k, n). \<lparr>TR_Key = k, TR_Count = n, TR_Percent = 0\<rparr>) gs)"
  have percents: "map TR_Percent ?rows = map (\<lambda>g. of_int (snd g) * (100 / of_int n)) gs"
    using False by (simp add: with_percent_def comp_def case_prod_beta)
  have "sum_list (map TR_Percent ?rows) = of_int (sum_list (map snd gs)) * (100 / of_int n)"
    unfolding percents by (induction gs) (simp_all add: algebra_simps add_divide_distrib)
  also have "\<dots> \<le> of_int n * (100 / of_int n)"
    using assms(3) False by (intro mult_right_mono) simp_all
  finally have "sum_list (map TR_Percent ?rows) \<le> 100"
    using False by simp
  moreover have "\<forall>p \<in> set (map TR_Percent ?rows). 0 \<le> p"
    unfolding percents using assms(2) False by (force intro: mult_nonneg_nonneg)
  ultimately show ?thesis
    using assms(1) False by (simp add: percents_ok_def) (simp add: with_percent_def)
qed

lemma returns_percents: "returns percents_ok (topRowsWithPercent (domain_counts (Some 16) P) (count_events P))"
  unfolding returns_def
proof (intro allI impI)
  fix s a t assume "topRowsWithPercent (domain_counts (Some 16) P) (count_events P) s = (Inr a, t)"
  then show "percents_ok a"
  proof (cases rule: topRowsWithPercent_cases)
    case 1
    then show ?thesis
      by (simp add: percents_ok_def)
  next
    case 2
    then show ?thesis
      by (simp add: percents_ok_zero domain_counts_def top_groups_def)
  next
    case 3
    have "percents_ok (with_percent (count_events P (s_db s)) (map (\<lambda>(k, n). \<lparr>TR_Key = k, TR_Count = n, TR_Percent = 0\<rparr>)
        (domain_counts (Some 16) P (s_db s))))"
    proof (rule percents_ok_with)
      show "length (domain_counts (Some 16) P (s_db s)) \<le> 16"
        by (simp add: domain_counts_def top_groups_def)
      show "sum_list (map snd (domain_counts (Some 16) P (s_db s))) \<le> count_events P (s_db s)"
        using top_groups_total [of "Some 16" "map qe_query_name (filter P (t_query_events (s_db s)))"]
        by (simp add: domain_counts_def count_events_def)
    next
      fix g assume "g \<in> set (domain_counts (Some 16) P (s_db s))"
      then show "0 < snd g"
        unfolding domain_counts_def top_groups_def option.case using grouped_pos in_set_takeD by fast
    qed
    with 3 show ?thesis
      by simp
  qed
qed


lemma or_else_query: "faults (s_env s) = [] \<Longrightarrow> or_else a (query_db q) s = (Inr (q (s_db s)), s)"
  by (simp add: or_else_def query_db_def exec_db_def db_call_def)

lemma HostReport_working:
  assumes "faults (s_env s) = []"
  shows "HostReportOf hid s =
    (case find_host hid (s_db s) of
       None \<Rightarrow> (Inl ErrNoRows, s)
     | Some host \<Rightarrow>
         (let own = (\<lambda>r. qe_host_id r = hid); events = filter own (t_query_events (s_db s));
              rows = (\<lambda>gs. map (\<lambda>(k, n). \<lparr>TR_Key = k, TR_Count = n, TR_Percent = 0\<rparr>) gs);
              queries = count_events own (s_db s); blocked = count_events (\<lambda>r. own r \<and> qe_action r = ''blocked'') (s_db s);
              uniq = count_distinct qe_query_name own (s_db s)
          in (Inr \<lparr>HR_Host = host, HR_Window = ''all'', HR_TotalQueries = queries, HR_TotalBlocked = blocked,
                HR_UniqueDomains = uniq, HR_TopDomains = rows (domain_counts (Some 10) own (s_db s)),
                HR_TopBlocked = rows (domain_counts (Some 10) (\<lambda>r. own r \<and> qe_action r = ''blocked'') (s_db s)),
                HR_Actions = rows (action_counts own (s_db s)), HR_FirstEventAt = first_text (map qe_ts events),
                HR_LastEventAt = last_text (map qe_ts events), HR_RecommendedNotes = hostReportNotes queries blocked uniq\<rparr>, s)))"
proof (cases "find_host hid (s_db s)")
  case None
  then show ?thesis
    using assms by (simp add: HostReportOf_def andThen_def get_host_def query_row_def exec_db_def db_call_def Let_def)
next
  case (Some host)
  then have host: "get_host hid s = (Inr host, s)"
    using assms by (simp add: get_host_def query_row_def exec_db_def db_call_def)
  have first: "andThen (get_host hid) k s = k host s" for k :: "host_row \<Rightarrow> (store, 'c) comp"
    by (rule andThen_Inr) (rule host)
  have step: "andThen (or_else a (query_db q)) k s = k (q (s_db s)) s" for a :: 'b and q and k :: "'b \<Rightarrow> (store, 'c) comp"
    by (rule andThen_Inr) (rule or_else_query [OF assms])
  show ?thesis
    unfolding HostReportOf_def Let_def topRows_def first step prod.case Some option.case
    by (simp only: ret_def)
qed

lemma count_le: "(\<And>r. P r \<Longrightarrow> Q r) \<Longrightarrow> count_events P d \<le> count_events Q d"
proof -
  assume "\<And>r. P r \<Longrightarrow> Q r"
  then have "length (filter P xs) \<le> length (filter Q xs)" for xs
    by (induction xs) (auto simp: le_Suc_eq)
  then show ?thesis
    by (simp add: count_events_def)
qed

lemma count_list_filter: "count_list (map f (filter P xs)) k = length (filter (\<lambda>x. P x \<and> f x = k) xs)"
  by (induction xs) auto

text \<open>
  A report adds up. With a database that answers, \<open>HostReport\<close> changes nothing, and for a host that is
  in the table: the actions listed account for all queries; no more queries are blocked, and no more
  names are distinct, than there are queries; each domain listed has as its count the number of the
  host's queries for it, and no domain of the host that is left out has a larger count; and the note
  that there is no activity appears exactly when there is none.
\<close>

lemma HostReport_adds_up:
  assumes "HostReportOf hid s = (Inr report, t)" and "faults (s_env s) = []"
  shows "t = s \<and> find_host hid (s_db s) = Some (HR_Host report) \<and>
    sum_list (map TR_Count (HR_Actions report)) = HR_TotalQueries report \<and>
    HR_TotalBlocked report \<le> HR_TotalQueries report \<and> HR_UniqueDomains report \<le> HR_TotalQueries report \<and>
    length (HR_TopDomains report) \<le> 10 \<and>
    (\<forall>row \<in> set (HR_TopDomains report).
       TR_Count row = count_events (\<lambda>r. qe_host_id r = hid \<and> qe_query_name r = TR_Key row) (s_db s) \<and>
       (\<forall>k. k \<notin> TR_Key ` set (HR_TopDomains report) \<longrightarrow>
          count_events (\<lambda>r. qe_host_id r = hid \<and> qe_query_name r = k) (s_db s) \<le> TR_Count row)) \<and>
    (''No DNS activity has been recorded for this host yet.'' \<in> set (HR_RecommendedNotes report) \<longleftrightarrow> HR_TotalQueries report = 0)"
proof -
  let ?own = "\<lambda>r. qe_host_id r = hid" and ?d = "s_db s"
  let ?names = "map qe_query_name (filter ?own (t_query_events ?d))"
  let ?rows = "\<lambda>gs. map (\<lambda>(k, n). \<lparr>TR_Key = k, TR_Count = n, TR_Percent = 0\<rparr>) gs"
  from assms(1) obtain host where host: "find_host hid ?d = Some host"
    unfolding HostReport_working [OF assms(2)] by (cases "find_host hid ?d") auto
  have t: "t = s" and rep: "HR_Host report = host" "HR_TotalQueries report = count_events ?own ?d"
      "HR_TotalBlocked report = count_events (\<lambda>r. ?own r \<and> qe_action r = ''blocked'') ?d"
      "HR_UniqueDomains report = count_distinct qe_query_name ?own ?d"
      "HR_TopDomains report = ?rows (top_groups (Some 10) ?names)"
      "HR_Actions report = ?rows (grouped (map qe_action (filter ?own (t_query_events ?d))))"
      "HR_RecommendedNotes report = hostReportNotes (HR_TotalQueries report) (HR_TotalBlocked report) (HR_UniqueDomains report)"
    using assms(1) unfolding HostReport_working [OF assms(2)] host option.case Let_def
    by (auto simp: domain_counts_def action_counts_def top_groups_def)
  have count: "int (count_list ?names k) = count_events (\<lambda>r. qe_host_id r = hid \<and> qe_query_name r = k) ?d" for k
    by (simp add: count_events_def count_list_filter)
  have keys: "TR_Key ` set (?rows gs) = fst ` set gs" for gs
    by force
  have tops: "TR_Count row = count_events (\<lambda>r. qe_host_id r = hid \<and> qe_query_name r = TR_Key row) ?d \<and>
       (\<forall>k. k \<notin> TR_Key ` set (HR_TopDomains report) \<longrightarrow>
          count_events (\<lambda>r. qe_host_id r = hid \<and> qe_query_name r = k) ?d \<le> TR_Count row)"
    if "row \<in> set (HR_TopDomains report)" for row
  proof -
    from that obtain k n where g: "(k, n) \<in> set (top_groups (Some 10) ?names)" and row: "TR_Key row = k" "TR_Count row = n"
      by (auto simp: rep)
    then have "(k, n) \<in> set (grouped ?names)"
      by (auto simp: top_groups_def dest: in_set_takeD)
    then have "n = int (count_list ?names k)"
      by (simp add: grouped_set)
    moreover have "int (count_list ?names k') \<le> n" if "k' \<notin> fst ` set (top_groups (Some 10) ?names)" for k'
    proof (cases "k' \<in> set ?names")
      case True
      with top_groups_best [OF g True that] show ?thesis
        by simp
    next
      case False
      then have "count_list ?names k' = 0"
        by (simp add: count_list_0_iff)
      with \<open>n = _\<close> show ?thesis
        by simp
    qed
    ultimately show ?thesis
      unfolding rep(5) keys row by (simp add: count)
  qed
  have "sum_list (map TR_Count (?rows gs)) = sum_list (map snd gs)" for gs
    by (induction gs) auto
  then have acts: "sum_list (map TR_Count (HR_Actions report)) = HR_TotalQueries report"
    by (simp add: rep grouped_total count_events_def)
  have uniq: "HR_UniqueDomains report \<le> HR_TotalQueries report"
    unfolding rep count_distinct_def count_events_def of_nat_le_iff by (metis length_remdups_leq length_map)
  have no_note: "(''No DNS activity has been recorded for this host yet.'' \<in> set (hostReportNotes q b u)) = (q = 0)" for q b u
    by (simp add: hostReportNotes_def Let_def)
  have blocked: "HR_TotalBlocked report \<le> HR_TotalQueries report"
    unfolding rep by (rule count_le) simp
  have len: "length (HR_TopDomains report) \<le> 10"
    by (simp add: rep top_groups_def)
  show ?thesis
    unfolding t rep(1) host by (intro conjI refl ballI acts uniq blocked len)
      ((drule tops, blast)+, simp only: rep(7) no_note)
qed

section \<open>The properties at a concrete input\<close>

definition report_db :: db where
  "report_db = empty_db\<lparr>t_hosts := [host_new ''10.0.0.7'' '''' []],
     t_query_events := [event_row (sample_event ''blocked'') 1, event_row (sample_event ''allowed'') 2]\<rparr>"

lemma HostReport_adds_up_witness:
  "\<exists>report t. HostReportOf 1 (sample_store report_db) = (Inr report, t) \<and> HR_TotalQueries report = 2 \<and>
     HR_TotalBlocked report \<le> 2 \<and> sum_list (map TR_Count (HR_Actions report)) = 2"
proof -
  have f: "faults (s_env (sample_store report_db)) = []"
    by simp
  have "find_host 1 report_db = Some (host_new ''10.0.0.7'' '''' [])"
    by (simp add: find_host_def report_db_def host_new_def next_rowid_def)
  then obtain report where run: "HostReportOf 1 (sample_store report_db) = (Inr report, sample_store report_db)"
    and q: "HR_TotalQueries report = count_events (\<lambda>r. qe_host_id r = 1) report_db"
    by (simp add: HostReport_working [OF f] Let_def)
  have "HR_TotalQueries report = 2"
    unfolding q by (simp add: count_events_def report_db_def event_row_def sample_event_def)
  with HostReport_adds_up [OF run f] run show ?thesis
    by auto
qed

lemma works_or_else [keeps_intro]: "works m \<Longrightarrow> works (or_else a m)"
  unfolding works_def or_else_def by fastforce

lemma works_lists [keeps_intro]:
  "works (topRows q)" "works (topHostRows since)" "works (RecentEvents a n)"
  unfolding topRows_def topHostRows_def RecentEvents_def by (intro keeps_intro)+

lemma works_percent [keeps_intro]: "works (topRowsWithPercent q everything)"
  by (simp add: works_def topRowsWithPercent_def topRows_def query_db_def exec_db_def db_call_def)


end
