(* ===== verification/System_Stats.thy ===== *)
theory System_Stats
  imports Go_Path Go_Time Complex_Main
begin

text \<open>
  internal/systemstats/stats.go: \<open>parsePMSetCustom\<close>, what the output of \<open>pmset -g custom\<close> says about
  system sleep, and the sampler over a record of what the operating system and the runtime answer. A
  float64 is a real number here: the rounding of its operations is not modelled.
\<close>

record Power =
  Supported :: bool
  SleepConfigured :: bool
  SystemSleepMinutes :: int
  Profile :: string
  Status :: string
  Detail :: string

text \<open>The variables of the loop: \<open>profile\<close>, \<open>bestSleep\<close>, \<open>foundSleep\<close> and \<open>power.Profile\<close>.\<close>

record pm_state =
  pm_profile :: string
  pm_best :: int
  pm_found :: bool
  pm_best_profile :: string

definition pm_line :: "string \<Rightarrow> pm_state \<Rightarrow> pm_state" where
  "pm_line line st =
     (let trimmed = trim_space line
      in if trimmed = '''' then st
         else if has_suffix trimmed ''Power:'' then st\<lparr>pm_profile := trim_suffix trimmed '':''\<rparr>
         else (let fs = Go_Strings.fields trimmed
               in if length fs < 2 \<or> fs ! 0 \<noteq> ''sleep'' then st
                  else (case atoi (fs ! 1) of
                          None \<Rightarrow> st
                        | Some minutes \<Rightarrow>
                            (let st = st\<lparr>pm_found := True\<rparr>; sleepConfigured = False
                             in if 0 < minutes \<and> (\<not> sleepConfigured \<or> minutes < pm_best st \<or> pm_best st = 0)
                                then st\<lparr>pm_best := minutes, pm_best_profile := pm_profile st\<rparr>
                                else st))))"

definition parsePMSetCustom :: "string \<Rightarrow> Power" where
  "parsePMSetCustom out =
     (let power = \<lparr>Supported = True, SleepConfigured = False, SystemSleepMinutes = 0, Profile = '''',
            Status = ''ok'', Detail = ''System sleep is disabled.''\<rparr>;
          st = fold pm_line (split_on out (CHR 0x0A))
            \<lparr>pm_profile = '''', pm_best = 0, pm_found = False, pm_best_profile = ''''\<rparr>;
          power = power\<lparr>Profile := pm_best_profile st\<rparr>
      in if \<not> pm_found st
         then power\<lparr>Status := ''unknown'', Detail := ''Could not find system sleep settings in pmset output.''\<rparr>
         else if 0 < pm_best st
         then power\<lparr>SleepConfigured := True, SystemSleepMinutes := pm_best st, Status := ''warning'',
                Detail := ''System sleep is enabled. This Mac can stop answering DNS requests if it sleeps.''\<rparr>
         else power)"

text \<open>The sleep minutes a line sets, if it is a \<open>sleep\<close> line.\<close>

definition sleep_minutes :: "string \<Rightarrow> int option" where
  "sleep_minutes line =
     (let trimmed = trim_space line; fs = Go_Strings.fields trimmed
      in if trimmed = '''' \<or> has_suffix trimmed ''Power:'' \<or> length fs < 2 \<or> fs ! 0 \<noteq> ''sleep'' then None
         else atoi (fs ! 1))"

definition last_positive :: "int list \<Rightarrow> int" where
  "last_positive ms = (case rev (filter (\<lambda>m. 0 < m) ms) of [] \<Rightarrow> 0 | m # _ \<Rightarrow> m)"

lemma pm_line_fields:
  "pm_found (pm_line line st) \<longleftrightarrow> pm_found st \<or> sleep_minutes line \<noteq> None"
  "pm_best (pm_line line st) = (case sleep_minutes line of Some m \<Rightarrow> if 0 < m then m else pm_best st | None \<Rightarrow> pm_best st)"
  by (auto simp: pm_line_def sleep_minutes_def Let_def split: option.split)

lemma last_positive_cases:
  obtains "filter (\<lambda>m. 0 < m) ms = []" "last_positive ms = 0"
  | ks m where "filter (\<lambda>m. 0 < m) ms = ks @ [m]" "last_positive ms = m" "0 < m"
proof (cases "filter (\<lambda>m. 0 < m) ms" rule: rev_cases)
  case Nil
  then show ?thesis
    by (intro that(1)) (simp_all add: last_positive_def)
next
  case (snoc ks m)
  then have "m \<in> set (filter (\<lambda>m. 0 < m) ms)"
    by simp
  then have "0 < m"
    by simp
  with snoc show ?thesis
    by (intro that(2)) (simp_all add: last_positive_def)
qed

lemma last_positive_Cons:
  "last_positive (m # ms) = (if last_positive ms = 0 \<and> 0 < m then m else last_positive ms)"
  by (cases ms rule: last_positive_cases) (auto simp: last_positive_def)

lemma last_positive_nonneg: "0 \<le> last_positive ms"
  by (cases ms rule: last_positive_cases) auto

lemma fold_pm_line:
  "pm_found (fold pm_line ls st) \<longleftrightarrow> pm_found st \<or> (\<exists>l \<in> set ls. sleep_minutes l \<noteq> None)"
  "pm_best (fold pm_line ls st) =
     (let p = last_positive (List.map_filter sleep_minutes ls) in if p = 0 then pm_best st else p)"
proof (induction ls arbitrary: st)
  case (Cons l ls)
  { case 1
    show ?case
      by (auto simp: Cons.IH(1) pm_line_fields)
  next
    case 2
    show ?case
      by (cases "sleep_minutes l")
        (auto simp: Cons.IH(2) pm_line_fields Let_def map_filter_simps last_positive_Cons)
  }
qed (simp_all add: map_filter_simps last_positive_def)

text \<open>
  The minutes reported are those of the last \<open>sleep\<close> line with a positive value, not the smallest
  of them: the guard \<open>!power.SleepConfigured\<close> never fails inside the loop. A warning is raised exactly
  when some line sets a positive value.
\<close>

lemma parsePMSetCustom_last_profile:
  "SystemSleepMinutes (parsePMSetCustom out) =
     last_positive (List.map_filter sleep_minutes (split_on out (CHR 0x0A))) \<and>
   (SleepConfigured (parsePMSetCustom out) \<longleftrightarrow>
     0 < last_positive (List.map_filter sleep_minutes (split_on out (CHR 0x0A))))"
proof -
  let ?ls = "split_on out (CHR 0x0A)"
  have none: "last_positive (List.map_filter sleep_minutes ls) = 0" if "\<forall>l \<in> set ls. sleep_minutes l = None" for ls
    using that by (induction ls) (simp_all add: map_filter_simps last_positive_def)
  show ?thesis
    using none [of ?ls] last_positive_nonneg [of "List.map_filter sleep_minutes ?ls"]
    by (auto simp: parsePMSetCustom_def Let_def fold_pm_line)
qed


section \<open>The sampler\<close>

text \<open>
  What \<open>Getrusage\<close> (seconds and microseconds of user and system time), \<open>ReadMemStats\<close>, \<open>NumGoroutine\<close>,
  \<open>Getwd\<close>, \<open>Statfs\<close> (block size, blocks, available blocks), \<open>Stat\<close> and the command \<open>pmset\<close> answer; \<open>None\<close>
  is an error, and \<open>pmset\<close> comes with whether it succeeded.
\<close>

record os_reading =
  os_cpu :: "(int \<times> int \<times> int \<times> int) option"
  os_maxrss :: "int option"
  os_alloc :: int
  os_goroutines :: int
  os_getwd :: "string option"
  os_statfs :: "string \<Rightarrow> (int \<times> int \<times> int) option"
  os_size :: "string \<Rightarrow> int option"
  os_darwin :: bool
  os_pmset :: "string \<times> bool"

record Stats =
  CPUPercent :: real
  ResidentMB :: real
  HeapMB :: real
  Goroutines :: int
  AppStorageMB :: real
  DBSizeMB :: real
  WALSizeMB :: real
  SHMSizeMB :: real
  DataDir :: string
  DiskTotalGB :: real
  DiskUsedGB :: real
  DiskFreeGB :: real
  DiskUsedPercent :: real
  StatsPower :: Power
  SampleWindowSecs :: real

record Sampler =
  sa_dbPath :: string
  sa_lastAt :: instant
  sa_lastCPUSecs :: real
  sa_lastCPU :: real

definition NewSampler :: "string \<Rightarrow> Sampler" where
  "NewSampler dbPath = \<lparr>sa_dbPath = dbPath, sa_lastAt = zero_time, sa_lastCPUSecs = 0, sa_lastCPU = 0\<rparr>"

definition go_round :: "real \<Rightarrow> real" where
  \<comment> \<open>\<open>round\<close>: the conversion to \<open>int\<close> drops the fraction\<close>
  "go_round v = (let x = v * 100 + 1 / 2 in real_of_int (if x < 0 then \<lceil>x\<rceil> else \<lfloor>x\<rfloor>) / 100)"

definition processCPUSeconds :: "os_reading \<Rightarrow> real" where
  "processCPUSeconds os =
     (case os_cpu os of
        None \<Rightarrow> 0
      | Some (us, uus, ss, sus) \<Rightarrow> (real_of_int us + real_of_int uus / 1000000) + (real_of_int ss + real_of_int sus / 1000000))"

definition residentMB :: "os_reading \<Rightarrow> real" where
  "residentMB os = (case os_maxrss os of None \<Rightarrow> 0 | Some n \<Rightarrow> real_of_int n / 1024 / 1024)"

definition diskUsage :: "os_reading \<Rightarrow> string \<Rightarrow> real \<times> real" where
  "diskUsage os path =
     (case os_statfs os path of
        None \<Rightarrow> (0, 0)
      | Some (bsize, blocks, bavail) \<Rightarrow> (real_of_int blocks * real_of_int bsize, real_of_int bavail * real_of_int bsize))"

definition fileSizeMB :: "os_reading \<Rightarrow> string \<Rightarrow> real" where
  "fileSizeMB os path = (case os_size os path of None \<Rightarrow> 0 | Some n \<Rightarrow> real_of_int n / 1024 / 1024)"

definition bytesToMB :: "real \<Rightarrow> real" where
  "bytesToMB v = v / 1024 / 1024"

definition bytesToGB :: "real \<Rightarrow> real" where
  "bytesToGB v = v / 1024 / 1024 / 1024"

definition powerSettings :: "os_reading \<Rightarrow> Power" where
  "powerSettings os =
     (if \<not> os_darwin os
      then \<lparr>Supported = False, SleepConfigured = False, SystemSleepMinutes = 0, Profile = '''',
             Status = ''unsupported'', Detail = ''Power sleep inspection is only available on macOS.''\<rparr>
      else (case os_pmset os of
          (out, False) \<Rightarrow> \<lparr>Supported = True, SleepConfigured = False, SystemSleepMinutes = 0, Profile = '''',
             Status = ''unknown'', Detail = trim_space out\<rparr>
        | (out, True) \<Rightarrow> parsePMSetCustom out))"

definition window_secs :: "instant \<Rightarrow> Sampler \<Rightarrow> real" where
  "window_secs now s = real_of_int (time_since now (sa_lastAt s)) / real_of_int nanos_per_sec"

definition cpu_percent :: "os_reading \<Rightarrow> instant \<Rightarrow> Sampler \<Rightarrow> real" where
  "cpu_percent os now s =
     (if sa_lastAt s \<noteq> zero_time \<and> 0 < window_secs now s
      then (let cpuPercent = (processCPUSeconds os - sa_lastCPUSecs s) / window_secs now s * 100
            in if cpuPercent < 0 then 0 else cpuPercent)
      else sa_lastCPU s)"

definition data_dir :: "os_reading \<Rightarrow> string \<Rightarrow> string" where
  "data_dir os dbPath =
     (let dataDir = Dir dbPath
      in if dataDir = ''.'' \<or> dataDir = '''' then (case os_getwd os of Some cwd \<Rightarrow> cwd | None \<Rightarrow> dataDir) else dataDir)"

definition Snapshot :: "os_reading \<Rightarrow> instant \<Rightarrow> Sampler \<Rightarrow> Stats \<times> Sampler" where
  "Snapshot os now s =
     (let cpuSecs = processCPUSeconds os; window = window_secs now s; cpuPercent = cpu_percent os now s;
          dataDir = data_dir os (sa_dbPath s);
          (total, free) = diskUsage os dataDir; used = total - free;
          usedPct = (if 0 < total then used / total * 100 else 0);
          dbSize = fileSizeMB os (sa_dbPath s); walSize = fileSizeMB os (sa_dbPath s @ ''-wal'');
          shmSize = fileSizeMB os (sa_dbPath s @ ''-shm'')
      in (\<lparr>CPUPercent = go_round cpuPercent, ResidentMB = go_round (residentMB os),
            HeapMB = go_round (bytesToMB (real_of_int (os_alloc os))), Goroutines = os_goroutines os,
            AppStorageMB = go_round (dbSize + walSize + shmSize), DBSizeMB = go_round dbSize,
            WALSizeMB = go_round walSize, SHMSizeMB = go_round shmSize, DataDir = dataDir,
            DiskTotalGB = go_round (bytesToGB total), DiskUsedGB = go_round (bytesToGB used),
            DiskFreeGB = go_round (bytesToGB free), DiskUsedPercent = go_round usedPct,
            StatsPower = powerSettings os, SampleWindowSecs = go_round window\<rparr>,
          s\<lparr>sa_lastAt := now, sa_lastCPUSecs := cpuSecs, sa_lastCPU := cpuPercent\<rparr>))"

section \<open>The figures of the sampler\<close>

fun samples :: "(os_reading \<times> instant) list \<Rightarrow> Sampler \<Rightarrow> Stats list" where
  "samples [] s = []"
| "samples ((os, now) # rest) s = (case Snapshot os now s of (st, t) \<Rightarrow> st # samples rest t)"

definition disk_sane :: "os_reading \<Rightarrow> bool" where
  \<comment> \<open>no file system has more blocks available than blocks\<close>
  "disk_sane os \<longleftrightarrow> (\<forall>p b n a. os_statfs os p = Some (b, n, a) \<longrightarrow> 0 < b \<and> 0 \<le> a \<and> a \<le> n)"

lemma go_round_nonneg: "0 \<le> v \<Longrightarrow> 0 \<le> go_round v"
  by (simp add: go_round_def Let_def)

lemma go_round_zero: "go_round 0 = 0"
  by (simp add: go_round_def Let_def)

lemma go_round_le:
  assumes "v \<le> of_int n" and "0 \<le> v"
  shows "go_round v \<le> of_int n"
proof -
  have "\<lfloor>v * 100 + 1 / 2\<rfloor> \<le> 100 * n"
    using assms(1) by linarith
  then have "real_of_int \<lfloor>v * 100 + 1 / 2\<rfloor> \<le> 100 * real_of_int n"
    by (metis of_int_le_iff of_int_mult of_int_numeral)
  with assms(2) show ?thesis
    by (simp add: go_round_def Let_def)
qed

lemma cpu_percent_nonneg: "0 \<le> sa_lastCPU s \<Longrightarrow> 0 \<le> cpu_percent os now s"
  by (simp add: cpu_percent_def Let_def)

lemma Snapshot_fields:
  assumes "Snapshot os now s = (st, t)"
  shows "CPUPercent st = go_round (cpu_percent os now s)" and "sa_lastCPU t = cpu_percent os now s"
    and "DiskUsedPercent st = go_round (case diskUsage os (data_dir os (sa_dbPath s)) of (n, free) \<Rightarrow>
      if 0 < n then (n - free) / n * 100 else 0)"
  using assms by (auto simp: Snapshot_def Let_def split: prod.splits)

lemma used_percent_range:
  assumes "disk_sane os" and "diskUsage os p = (n, free)" and "0 < n"
  shows "0 \<le> (n - free) / n * 100" and "(n - free) / n * 100 \<le> 100"
proof -
  have "0 \<le> free \<and> free \<le> n"
    using assms unfolding diskUsage_def disk_sane_def
    by (fastforce split: option.splits prod.splits simp: mult_right_mono)
  with assms(3) show "0 \<le> (n - free) / n * 100" and "(n - free) / n * 100 \<le> 100"
    by (simp_all add: divide_le_eq)
qed

lemma Snapshot_range:
  assumes "Snapshot os now s = (st, t)" and "0 \<le> sa_lastCPU s" and "disk_sane os"
  shows "0 \<le> CPUPercent st" and "0 \<le> DiskUsedPercent st" and "DiskUsedPercent st \<le> 100" and "0 \<le> sa_lastCPU t"
proof -
  note f = Snapshot_fields [OF assms(1)]
  show "0 \<le> CPUPercent st" and "0 \<le> sa_lastCPU t"
    using cpu_percent_nonneg [OF assms(2)] by (simp_all add: f go_round_nonneg)
  obtain n free where d: "diskUsage os (data_dir os (sa_dbPath s)) = (n, free)"
    by fastforce
  show "0 \<le> DiskUsedPercent st"
    using used_percent_range [OF assms(3) d] by (auto simp: f d go_round_zero intro: go_round_nonneg)
  show "DiskUsedPercent st \<le> 100"
    using used_percent_range [OF assms(3) d] go_round_le [of _ 100] by (auto simp: f d go_round_zero)
qed

lemma samples_range:
  assumes "0 \<le> sa_lastCPU s" and "\<forall>r \<in> set rs. disk_sane (fst r)" and "st \<in> set (samples rs s)"
  shows "0 \<le> CPUPercent st \<and> 0 \<le> DiskUsedPercent st \<and> DiskUsedPercent st \<le> 100"
  using assms
proof (induction rs s rule: samples.induct)
  case (2 os now rest s)
  obtain x t where x: "Snapshot os now s = (x, t)"
    by fastforce
  note range = Snapshot_range [OF x 2(2)]
  from 2(4) x have "st = x \<or> st \<in> set (samples rest t)"
    by simp
  then show ?case
    using 2(1) [OF x [symmetric]] range 2(3) by auto
qed simp


definition sample_reading :: os_reading where
  "sample_reading = \<lparr>os_cpu = Some (1, 0, 1, 0), os_maxrss = Some 1048576, os_alloc = 0, os_goroutines = 9,
     os_getwd = None, os_statfs = (\<lambda>_. Some (1, 4, 1)), os_size = (\<lambda>_. None), os_darwin = False, os_pmset = ('''', False)\<rparr>"


end
