(* ===== verification/DNS_Server.thy ===== *)
theory DNS_Server
  imports Store_Static Store_Rules Store_Blocklist Store_Events Config
begin

text \<open>
  internal/dnsserver/server.go: the resolver's handler with the policy decision, static answers, the
  sinkhole, forwarding, the bounded event queue with its writer, and the rate limit on host
  enrichment. The package github.com/miekg/dns is a parameter: the record \<open>dns_lib\<close> holds what the
  handler uses of it, and an exchange with the upstream is a function of the network, the query and
  the server. Type, class and response codes are the numbers of the DNS protocol.
\<close>

section \<open>Messages\<close>

record RR_Header =
  h_Name :: string
  h_Rrtype :: "16 word"
  h_Class :: "16 word"
  h_Ttl :: "32 word"

datatype RR = RR_A RR_Header ip | RR_AAAA RR_Header ip | RR_CNAME RR_Header string
  | RR_TXT RR_Header "string list" | RR_Other string

record Question =
  q_Name :: string
  q_Qtype :: "16 word"
  q_Qclass :: "16 word"

record Msg =
  m_Id :: "16 word"
  m_Response :: bool
  m_Authoritative :: bool
  m_Rcode :: int
  m_Question :: "Question list"
  m_Answer :: "RR list"

record dns_lib =
  TypeToString :: "16 word \<Rightarrow> string"
  RcodeToString :: "int \<Rightarrow> string"
  SetReply :: "Msg \<Rightarrow> Msg"
  RR_String :: "RR \<Rightarrow> string"
  Exchange :: "string \<Rightarrow> Msg \<Rightarrow> string \<Rightarrow> error + Msg"

definition TypeA :: "16 word" where "TypeA = 1"
definition TypeCNAME :: "16 word" where "TypeCNAME = 5"
definition TypeTXT :: "16 word" where "TypeTXT = 16"
definition TypeAAAA :: "16 word" where "TypeAAAA = 28"
definition ClassINET :: "16 word" where "ClassINET = 1"
definition RcodeFormatError :: int where "RcodeFormatError = 1"
definition RcodeServerFailure :: int where "RcodeServerFailure = 2"
definition RcodeNameError :: int where "RcodeNameError = 3"

section \<open>The server\<close>

text \<open>
  \<open>sv_sent\<close>, \<open>sv_asked\<close> and \<open>sv_spawned\<close> record what leaves the handler: the replies written, the
  exchanges with the upstream, and the enrichments started.
\<close>

record Server =
  sv_store :: store
  sv_events :: "QueryEvent list"
  sv_dropped :: int
  sv_queries :: int
  sv_blocked :: int
  sv_enrichNext :: "string \<rightharpoonup> instant"
  sv_enrichInFlight :: "string list"
  sv_sent :: "Msg list"
  sv_asked :: "(string \<times> Msg) list"
  sv_spawned :: "(int \<times> string) list"
  sv_startedAt :: instant

definition New :: "store \<Rightarrow> Server" where
  "New st = \<lparr>sv_store = snd (time_now st), sv_events = [], sv_dropped = 0, sv_queries = 0, sv_blocked = 0,
     sv_enrichNext = (\<lambda>_. None), sv_enrichInFlight = [], sv_sent = [], sv_asked = [], sv_spawned = [],
     sv_startedAt = next_time st\<rparr>"

definition on_store :: "(store, 'a) comp \<Rightarrow> Server \<Rightarrow> (error + 'a) \<times> Server" where
  "on_store m s = (case m (sv_store s) of (r, st) \<Rightarrow> (r, s\<lparr>sv_store := st\<rparr>))"

definition now_of :: "Server \<Rightarrow> instant \<times> Server" where
  "now_of s = (case on_store time_now s of (r, s') \<Rightarrow> (next_time (sv_store s), s'))"

definition remoteIP :: "string option \<Rightarrow> string" where
  \<comment> \<open>\<open>None\<close> is a nil address, \<open>Some\<close> the text of one\<close>
  "remoteIP addr =
     (case addr of
        None \<Rightarrow> ''unknown''
      | Some a \<Rightarrow> (case SplitHostPort a of None \<Rightarrow> a | Some (host, _) \<Rightarrow> host))"

section \<open>Enrichment\<close>

definition enqueueHostEnrichment :: "int \<Rightarrow> string \<Rightarrow> Server \<Rightarrow> Server" where
  "enqueueHostEnrichment hostID sourceIP s =
     (let ip = ParseIP sourceIP
      in if hostID = 0 \<or> ip = [] \<or> IsLoopback ip \<or> IsUnspecified ip then s
         else (case now_of s of (now, s) \<Rightarrow>
            if sourceIP \<in> set (sv_enrichInFlight s) then s
            else if now < (case sv_enrichNext s sourceIP of Some next \<Rightarrow> next | None \<Rightarrow> zero_time) then s
            else s\<lparr>sv_enrichInFlight := sourceIP # sv_enrichInFlight s,
                   sv_enrichNext := (sv_enrichNext s)(sourceIP \<mapsto> now + 15 * 60 * nanos_per_sec),
                   sv_spawned := sv_spawned s @ [(hostID, sourceIP)]\<rparr>))"

definition enrichment_done :: "lookups \<Rightarrow> int \<Rightarrow> string \<Rightarrow> Server \<Rightarrow> Server" where
  \<comment> \<open>the goroutine: its error is only logged\<close>
  "enrichment_done lk hostID sourceIP s =
     (case on_store (EnrichHostIdentity lk hostID sourceIP) s of (_, s) \<Rightarrow>
        s\<lparr>sv_enrichInFlight := removeAll sourceIP (sv_enrichInFlight s)\<rparr>)"

section \<open>Answers\<close>

definition uint32 :: "int \<Rightarrow> 32 word" where
  "uint32 i = word_of_int i"

definition record_answer :: "Question \<Rightarrow> string \<Rightarrow> string \<Rightarrow> StaticRecord \<Rightarrow> RR list" where
  \<comment> \<open>the body of the loop of \<open>staticAnswer\<close>\<close>
  "record_answer q qname qtype record =
     (if SR_Name record \<noteq> qname \<or> SR_Type record \<noteq> qtype then []
      else (let header = \<lparr>h_Name = qname, h_Rrtype = q_Qtype q, h_Class = ClassINET, h_Ttl = uint32 (SR_TTL record)\<rparr>
            in if q_Qtype q = TypeA then
                 (let ip = To4 (ParseIP (SR_Value record)) in if ip \<noteq> [] then [RR_A header ip] else [])
               else if q_Qtype q = TypeAAAA then
                 (let ip = ParseIP (SR_Value record) in if ip \<noteq> [] then [RR_AAAA header ip] else [])
               else if q_Qtype q = TypeCNAME then [RR_CNAME header (NormalizeName (SR_Value record))]
               else if q_Qtype q = TypeTXT then [RR_TXT header [SR_Value record]]
               else []))"

definition staticAnswer :: "dns_lib \<Rightarrow> Question \<Rightarrow> Server \<Rightarrow> (RR list \<times> bool) \<times> Server" where
  "staticAnswer lib q s =
     (case on_store StaticRecords s of
        (Inl _, s) \<Rightarrow> (([], False), s)
      | (Inr records, s) \<Rightarrow>
          (let qname = NormalizeName (q_Name q); qtype = TypeToString lib (q_Qtype q);
               answers = concat (map (record_answer q qname qtype) records)
           in ((answers, answers \<noteq> []), s)))"

definition addSinkholeAnswer :: "Config \<Rightarrow> Question \<Rightarrow> Msg \<Rightarrow> Msg" where
  "addSinkholeAnswer cfg q msg =
     (let header = \<lparr>h_Name = q_Name q, h_Rrtype = q_Qtype q, h_Class = ClassINET, h_Ttl = 30\<rparr>
      in if q_Qtype q = TypeA then
           msg\<lparr>m_Answer := m_Answer msg @ [RR_A header (To4 (ParseIP (SinkholeIPv4 cfg)))]\<rparr>
         else if q_Qtype q = TypeAAAA then
           msg\<lparr>m_Answer := m_Answer msg @ [RR_AAAA header (ParseIP (SinkholeIPv6 cfg))]\<rparr>
         else msg\<lparr>m_Rcode := RcodeNameError\<rparr>)"

definition forward :: "dns_lib \<Rightarrow> Config \<Rightarrow> Msg \<Rightarrow> Server \<Rightarrow> (error + Msg) \<times> Server" where
  \<comment> \<open>when both exchanges fail, the error is that of the first\<close>
  "forward lib cfg r s =
     (let s = s\<lparr>sv_asked := sv_asked s @ [(''udp'', r)]\<rparr>
      in case Exchange lib ''udp'' r (Upstream cfg) of
           Inr resp \<Rightarrow> (Inr resp, s)
         | Inl err \<Rightarrow>
             (let s = s\<lparr>sv_asked := sv_asked s @ [(''tcp'', r)]\<rparr>
              in case Exchange lib ''tcp'' r (Upstream cfg) of
                   Inr resp \<Rightarrow> (Inr resp, s)
                 | Inl _ \<Rightarrow> (Inl err, s)))"

definition answer_part :: "dns_lib \<Rightarrow> RR \<Rightarrow> string list" where
  "answer_part lib answer =
     (case answer of
        RR_A _ a \<Rightarrow> [ip_string a]
      | RR_AAAA _ a \<Rightarrow> [ip_string a]
      | RR_CNAME _ target \<Rightarrow> [target]
      | _ \<Rightarrow> (let fs = Go_Strings.fields (RR_String lib answer) in if fs \<noteq> [] then [last fs] else []))"

fun answer_parts :: "dns_lib \<Rightarrow> RR list \<Rightarrow> string list \<Rightarrow> string list" where
  "answer_parts lib [] parts = parts"
| "answer_parts lib (answer # rest) parts =
     (let parts = parts @ answer_part lib answer
      in if 3 \<le> length parts then parts else answer_parts lib rest parts)"

definition summarizeAnswers :: "dns_lib \<Rightarrow> RR list \<Rightarrow> string" where
  "summarizeAnswers lib answers =
     (if answers = [] then '''' else join (answer_parts lib answers []) '', '')"

section \<open>The handler\<close>

text \<open>The local variables of \<open>handleDNS\<close>.\<close>

record Query =
  v_action :: string
  v_matchedSource :: string
  v_matchedRuleID :: "int option"
  v_upstream :: string
  v_answerSummary :: string
  v_responseCode :: string
  v_msg :: Msg

definition admit_host :: "string \<Rightarrow> Server \<Rightarrow> (int \<times> string) \<times> Server" where
  "admit_host sourceIP s =
     (case on_store (EnsureHost sourceIP) s of
        (Inl _, s) \<Rightarrow> ((0, ''''), s)
      | (Inr (hostID, hostLabel), s) \<Rightarrow> ((hostID, hostLabel), enqueueHostEnrichment hostID sourceIP s))"

definition sinkhole :: "Config \<Rightarrow> Question \<Rightarrow> Query \<times> Server \<Rightarrow> Query \<times> Server" where
  "sinkhole cfg q vs =
     (case vs of (v, s) \<Rightarrow>
        (v\<lparr>v_action := ''blocked'', v_msg := addSinkholeAnswer cfg q (v_msg v), v_answerSummary := ''sinkhole''\<rparr>,
         s\<lparr>sv_blocked := sv_blocked s + 1\<rparr>))"

definition apply_rule :: "Config \<Rightarrow> Question \<Rightarrow> string \<Rightarrow> Query \<times> Server \<Rightarrow> Query \<times> Server" where
  "apply_rule cfg q qname vs =
     (case vs of (v, s) \<Rightarrow>
        (case on_store (MatchRule qname) s of
           (Inr (Some rule), s) \<Rightarrow>
             (let v = v\<lparr>v_matchedRuleID := Some (R_ID rule), v_matchedSource := ''rule:'' @ R_Target rule\<rparr>;
                  s = snd (on_store (RecordRuleHit (R_ID rule)) s)
              in if R_Action rule = ''allow'' then (v\<lparr>v_action := ''allowed''\<rparr>, s) else sinkhole cfg q (v, s))
         | (_, s) \<Rightarrow> (v, s)))"

definition apply_blocklist :: "Config \<Rightarrow> Question \<Rightarrow> string \<Rightarrow> Query \<times> Server \<Rightarrow> Query \<times> Server" where
  "apply_blocklist cfg q qname vs =
     (case vs of (v, s) \<Rightarrow>
        if v_action v \<noteq> ''blocked'' \<and> v_matchedRuleID v = None then
          (case on_store (MatchBlocklist qname) s of
             (Inr (Some m), s) \<Rightarrow>
               sinkhole cfg q (v\<lparr>v_matchedSource := BM_SourceType m @ '':'' @ BM_SourceName m\<rparr>, s)
           | (_, s) \<Rightarrow> (v, s))
        else (v, s))"

definition apply_static :: "dns_lib \<Rightarrow> Question \<Rightarrow> Query \<times> Server \<Rightarrow> Query \<times> Server" where
  "apply_static lib q vs =
     (case vs of (v, s) \<Rightarrow>
        if v_action v \<noteq> ''blocked'' \<and> m_Answer (v_msg v) = [] then
          (case staticAnswer lib q s of
             ((answers, True), s) \<Rightarrow>
               (let msg = (v_msg v)\<lparr>m_Answer := m_Answer (v_msg v) @ answers\<rparr>
                in (v\<lparr>v_msg := msg, v_action := ''static'', v_answerSummary := summarizeAnswers lib (m_Answer msg)\<rparr>, s))
           | ((_, False), s) \<Rightarrow> (v, s))
        else (v, s))"

definition apply_forward :: "dns_lib \<Rightarrow> Config \<Rightarrow> Msg \<Rightarrow> Query \<times> Server \<Rightarrow> Query \<times> Server" where
  "apply_forward lib cfg r vs =
     (case vs of (v, s) \<Rightarrow>
        if v_action v \<noteq> ''blocked'' \<and> v_action v \<noteq> ''static'' then
          (let v = v\<lparr>v_upstream := Upstream cfg\<rparr>
           in case forward lib cfg r s of
                (Inl _, s) \<Rightarrow>
                  (v\<lparr>v_msg := (v_msg v)\<lparr>m_Rcode := RcodeServerFailure\<rparr>,
                     v_responseCode := RcodeToString lib RcodeServerFailure, v_action := ''upstream_failed''\<rparr>, s)
              | (Inr resp, s) \<Rightarrow>
                  (v\<lparr>v_msg := resp, v_responseCode := RcodeToString lib (m_Rcode resp),
                     v_answerSummary := summarizeAnswers lib (m_Answer resp)\<rparr>, s))
        else (v, s))"

definition response_code :: "dns_lib \<Rightarrow> Query \<Rightarrow> string" where
  "response_code lib v =
     (let rc = (if v_responseCode v = ''NOERROR'' then RcodeToString lib (m_Rcode (v_msg v)) else v_responseCode v)
      in if rc = '''' then ''RCODE'' @ itoa (m_Rcode (v_msg v)) else rc)"

definition milliseconds :: "int \<Rightarrow> int" where
  \<comment> \<open>\<open>Duration.Milliseconds\<close>: division that truncates toward zero\<close>
  "milliseconds d = (if d < 0 then - ((- d) div 1000000) else d div 1000000)"

definition enqueue_event :: "Config \<Rightarrow> QueryEvent \<Rightarrow> Server \<Rightarrow> Server" where
  \<comment> \<open>\<open>select { case s.events <- event: default: dropped }\<close> on a channel of capacity \<open>EventQueueCap\<close>\<close>
  "enqueue_event cfg event s =
     (if int (length (sv_events s)) < EventQueueCap cfg then s\<lparr>sv_events := sv_events s @ [event]\<rparr>
      else s\<lparr>sv_dropped := sv_dropped s + 1\<rparr>)"

definition write_msg :: "Msg \<Rightarrow> Server \<Rightarrow> Server" where
  \<comment> \<open>\<open>w.WriteMsg(msg)\<close>: its error is only logged\<close>
  "write_msg msg s = s\<lparr>sv_sent := sv_sent s @ [msg]\<rparr>"

definition start_query :: "dns_lib \<Rightarrow> Msg \<Rightarrow> Query" where
  "start_query lib r = \<lparr>v_action = ''allowed'', v_matchedSource = '''', v_matchedRuleID = None,
     v_upstream = '''', v_answerSummary = '''', v_responseCode = ''NOERROR'',
     v_msg = (SetReply lib r)\<lparr>m_Authoritative := False\<rparr>\<rparr>"

definition answer_query :: "dns_lib \<Rightarrow> Config \<Rightarrow> Msg \<Rightarrow> Question \<Rightarrow> Server \<Rightarrow> Query \<times> Server" where
  \<comment> \<open>the decision: rules, then blocklists, then static records, then the upstream\<close>
  "answer_query lib cfg r q s =
     (let qname = NormalizeName (q_Name q)
      in apply_forward lib cfg r (apply_static lib q (apply_blocklist cfg q qname
           (apply_rule cfg q qname (start_query lib r, s)))))"

definition qtype_text :: "dns_lib \<Rightarrow> Question \<Rightarrow> string" where
  "qtype_text lib q =
     (if TypeToString lib (q_Qtype q) = '''' then ''TYPE'' @ digits (unat (q_Qtype q)) else TypeToString lib (q_Qtype q))"

definition finish_query ::
  "dns_lib \<Rightarrow> Config \<Rightarrow> instant \<Rightarrow> int \<times> string \<Rightarrow> string \<Rightarrow> Question \<Rightarrow> Query \<times> Server \<Rightarrow> Server" where
  "finish_query lib cfg start host sourceIP q vs =
     (case vs of (v, s) \<Rightarrow>
        let s = write_msg (v_msg v) s; s = s\<lparr>sv_queries := sv_queries s + 1\<rparr>
        in case now_of s of (timestamp, s) \<Rightarrow>
           case now_of s of (stop, s) \<Rightarrow>
             enqueue_event cfg
               \<lparr>QE_Timestamp = timestamp, QE_HostID = fst host, QE_SourceIP = sourceIP, QE_HostLabel = snd host,
                QE_QueryName = NormalizeName (q_Name q), QE_QueryType = qtype_text lib q, QE_Action = v_action v,
                QE_MatchedRuleID = v_matchedRuleID v, QE_MatchedSource = v_matchedSource v,
                QE_ResponseCode = response_code lib v, QE_Upstream = v_upstream v,
                QE_LatencyMS = milliseconds (time_since stop start), QE_AnswerSummary = v_answerSummary v\<rparr> s)"

definition handleDNS :: "dns_lib \<Rightarrow> Config \<Rightarrow> string option \<Rightarrow> Msg \<Rightarrow> Server \<Rightarrow> Server" where
  "handleDNS lib cfg addr r s =
     (case now_of s of (start, s) \<Rightarrow>
        let sourceIP = remoteIP addr
        in case admit_host sourceIP s of (host, s) \<Rightarrow>
             (case m_Question r of
                [] \<Rightarrow> write_msg ((SetReply lib r)\<lparr>m_Authoritative := False, m_Rcode := RcodeFormatError\<rparr>) s
              | q # _ \<Rightarrow> finish_query lib cfg start host sourceIP q (answer_query lib cfg r q s)))"

definition write_event :: "Server \<Rightarrow> Server" where
  \<comment> \<open>one turn of \<open>eventWriter\<close>: its error is only logged, the event is gone\<close>
  "write_event s =
     (case sv_events s of
        [] \<Rightarrow> s
      | event # rest \<Rightarrow> snd (on_store (InsertQueryEvent event) (s\<lparr>sv_events := rest\<rparr>)))"

record ServerStatus =
  St_StartedAt :: instant
  St_UptimeSeconds :: int
  St_Queries :: int
  St_Blocked :: int
  St_DroppedEvents :: int
  St_DNSAddr :: string
  St_Upstream :: string
  St_EventQueueDepth :: nat

definition Status :: "Config \<Rightarrow> Server \<Rightarrow> ServerStatus \<times> Server" where
  "Status cfg s =
     (case now_of s of (now, s) \<Rightarrow>
        (\<lparr>St_StartedAt = sv_startedAt s, St_UptimeSeconds = whole_seconds (time_since now (sv_startedAt s)), St_Queries = sv_queries s,
          St_Blocked = sv_blocked s, St_DroppedEvents = sv_dropped s, St_DNSAddr = DNSAddr cfg,
          St_Upstream = Upstream cfg, St_EventQueueDepth = length (sv_events s)\<rparr>, s))"

section \<open>What a step touches\<close>

lemma on_store_frame: "on_store m s = (r, t) \<Longrightarrow> \<exists>st. t = s\<lparr>sv_store := st\<rparr>"
  by (auto simp: on_store_def split: prod.splits)

lemma now_of_frame: "now_of s = (n, t) \<Longrightarrow> \<exists>st. t = s\<lparr>sv_store := st\<rparr>"
  by (auto simp: now_of_def dest: on_store_frame split: prod.splits)

lemma admit_host_frame:
  assumes "admit_host ip s = (host, t)"
  shows "sv_sent t = sv_sent s" "sv_events t = sv_events s" "sv_dropped t = sv_dropped s"
    "sv_queries t = sv_queries s" "sv_blocked t = sv_blocked s" "sv_asked t = sv_asked s"
  using assms
  by (auto simp: admit_host_def enqueueHostEnrichment_def Let_def
      dest!: on_store_frame now_of_frame split: prod.splits sum.splits if_splits)

text \<open>The steps of the decision change the store, the count of blocked queries and the exchanges only.\<close>

definition decides :: "Server \<Rightarrow> Server \<Rightarrow> bool" where
  "decides s t \<longleftrightarrow> t = s\<lparr>sv_store := sv_store t, sv_blocked := sv_blocked t, sv_asked := sv_asked t\<rparr>"

lemma decides_refl [simp]: "decides s s"
  by (simp add: decides_def)

lemma decides_trans: "decides s t \<Longrightarrow> decides t u \<Longrightarrow> decides s u"
  unfolding decides_def by (cases s, cases t, cases u) simp

lemma decides_update [simp]:
  "decides s (s\<lparr>sv_store := st\<rparr>)" "decides s (s\<lparr>sv_store := st, sv_blocked := b\<rparr>)"
  "decides s (s\<lparr>sv_asked := a\<rparr>)"
  by (simp_all add: decides_def)

lemma decides_fields:
  assumes "decides s t"
  shows "sv_sent t = sv_sent s" "sv_events t = sv_events s" "sv_dropped t = sv_dropped s" "sv_queries t = sv_queries s"
proof -
  have t: "t = s\<lparr>sv_store := sv_store t, sv_blocked := sv_blocked t, sv_asked := sv_asked t\<rparr>"
    using assms by (simp add: decides_def)
  show "sv_sent t = sv_sent s" "sv_events t = sv_events s" "sv_dropped t = sv_dropped s" "sv_queries t = sv_queries s"
    by (subst t, simp)+
qed

text \<open>The outcomes of each step.\<close>

lemma apply_rule_cases:
  assumes "apply_rule cfg q qname (v, s) = (v', s')"
  obtains (none) r st where "on_store (MatchRule qname) s = (r, s')" "r = Inr None \<or> (\<exists>e. r = Inl e)"
      "v' = v" "s' = s\<lparr>sv_store := st\<rparr>"
  | (allow) rule s1 st where "on_store (MatchRule qname) s = (Inr (Some rule), s1)" "R_Action rule = ''allow''"
      "v' = v\<lparr>v_matchedRuleID := Some (R_ID rule), v_matchedSource := ''rule:'' @ R_Target rule, v_action := ''allowed''\<rparr>"
      "s' = s\<lparr>sv_store := st\<rparr>"
  | (block) rule s1 st where "on_store (MatchRule qname) s = (Inr (Some rule), s1)" "R_Action rule \<noteq> ''allow''"
      "v' = v\<lparr>v_matchedRuleID := Some (R_ID rule), v_matchedSource := ''rule:'' @ R_Target rule, v_action := ''blocked'',
         v_msg := addSinkholeAnswer cfg q (v_msg v), v_answerSummary := ''sinkhole''\<rparr>"
      "s' = s\<lparr>sv_store := st, sv_blocked := sv_blocked s + 1\<rparr>"
proof -
  obtain r s1 where m: "on_store (MatchRule qname) s = (r, s1)"
    by fastforce
  then obtain st where s1: "s1 = s\<lparr>sv_store := st\<rparr>"
    using on_store_frame by blast
  show ?thesis
  proof (cases "\<exists>rule. r = Inr (Some rule)")
    case True
    then obtain rule where r: "r = Inr (Some rule)"
      by blast
    obtain r2 s2 where h: "on_store (RecordRuleHit (R_ID rule)) s1 = (r2, s2)"
      by fastforce
    then obtain st2 where s2: "s2 = s\<lparr>sv_store := st2\<rparr>"
      using on_store_frame s1 by fastforce
    show ?thesis
    proof (cases "R_Action rule = ''allow''")
      case True
      with assms m r h s2 show ?thesis
        by (intro allow [of rule s1 st2]) (simp_all add: apply_rule_def Let_def)
    next
      case False
      with assms m r h s2 show ?thesis
        by (intro block [of rule s1 st2]) (simp_all add: apply_rule_def sinkhole_def Let_def)
    qed
  next
    case False
    then have r: "r = Inr None \<or> (\<exists>e. r = Inl e)"
      by (cases r) (auto split: option.splits)
    with assms m have "v' = v" "s' = s1"
      by (auto simp: apply_rule_def)
    with m r s1 show ?thesis
      by (intro none [of r st]) auto
  qed
qed

lemma apply_blocklist_cases:
  assumes "apply_blocklist cfg q qname (v, s) = (v', s')"
  obtains (skipped) "v_action v = ''blocked'' \<or> v_matchedRuleID v \<noteq> None" "v' = v" "s' = s"
  | (none) r st where "v_action v \<noteq> ''blocked''" "v_matchedRuleID v = None" "on_store (MatchBlocklist qname) s = (r, s')"
      "r = Inr None \<or> (\<exists>e. r = Inl e)" "v' = v" "s' = s\<lparr>sv_store := st\<rparr>"
  | (block) m s1 st where "v_action v \<noteq> ''blocked''" "v_matchedRuleID v = None" "on_store (MatchBlocklist qname) s = (Inr (Some m), s1)"
      "v' = v\<lparr>v_matchedSource := BM_SourceType m @ '':'' @ BM_SourceName m, v_action := ''blocked'',
         v_msg := addSinkholeAnswer cfg q (v_msg v), v_answerSummary := ''sinkhole''\<rparr>"
      "s' = s\<lparr>sv_store := st, sv_blocked := sv_blocked s + 1\<rparr>"
proof (cases "v_action v = ''blocked'' \<or> v_matchedRuleID v \<noteq> None")
  case True
  with assms show ?thesis
    by (intro skipped) (auto simp: apply_blocklist_def)
next
  case False
  obtain r s1 where m: "on_store (MatchBlocklist qname) s = (r, s1)"
    by fastforce
  then obtain st where s1: "s1 = s\<lparr>sv_store := st\<rparr>"
    using on_store_frame by blast
  show ?thesis
  proof (cases "\<exists>x. r = Inr (Some x)")
    case True
    then obtain x where "r = Inr (Some x)"
      by blast
    with assms m False s1 show ?thesis
      by (intro block [of x s1 st]) (simp_all add: apply_blocklist_def sinkhole_def)
  next
    case none_found: False
    then have r: "r = Inr None \<or> (\<exists>e. r = Inl e)"
      by (cases r) (auto split: option.splits)
    with assms m False have "v' = v" "s' = s1"
      by (auto simp: apply_blocklist_def)
    with m r s1 False show ?thesis
      by (intro none [of r st]) auto
  qed
qed

lemma apply_static_cases:
  assumes "apply_static lib q (v, s) = (v', s')"
  obtains (kept) st where "v' = v" "s' = s\<lparr>sv_store := st\<rparr>"
  | (answered) answers st where "v_action v \<noteq> ''blocked''" "answers \<noteq> []" "m_Answer (v_msg v) = []"
      "v' = v\<lparr>v_msg := (v_msg v)\<lparr>m_Answer := answers\<rparr>, v_action := ''static'',
         v_answerSummary := summarizeAnswers lib answers\<rparr>" "s' = s\<lparr>sv_store := st\<rparr>"
proof (cases "v_action v \<noteq> ''blocked'' \<and> m_Answer (v_msg v) = []")
  case True
  obtain answers found s1 where st: "staticAnswer lib q s = ((answers, found), s1)"
    by (metis surj_pair)
  then have found: "found \<longrightarrow> answers \<noteq> []" and "\<exists>st. s1 = s\<lparr>sv_store := st\<rparr>"
    by (auto simp: staticAnswer_def Let_def dest!: on_store_frame split: prod.splits sum.splits)
  then obtain st' where s1: "s1 = s\<lparr>sv_store := st'\<rparr>"
    by blast
  show ?thesis
  proof (cases found)
    case True
    with assms \<open>v_action v \<noteq> ''blocked'' \<and> m_Answer (v_msg v) = []\<close> st s1 found show ?thesis
      by (intro answered [of answers st']) (simp_all add: apply_static_def Let_def)
  next
    case False
    with assms \<open>v_action v \<noteq> ''blocked'' \<and> m_Answer (v_msg v) = []\<close> st s1 show ?thesis
      by (intro kept [of st']) (simp_all add: apply_static_def)
  qed
next
  case False
  with assms have "v' = v" and "s' = s\<lparr>sv_store := sv_store s\<rparr>"
    by (auto simp: apply_static_def)
  then show ?thesis
    by (rule kept)
qed

lemma apply_forward_cases:
  assumes "apply_forward lib cfg r (v, s) = (v', s')"
  obtains (kept) "v_action v \<in> {''blocked'', ''static''}" "v' = v" "s' = s"
  | (failed) e where "v_action v \<notin> {''blocked'', ''static''}" "Exchange lib ''udp'' r (Upstream cfg) = Inl e"
      "\<exists>e'. Exchange lib ''tcp'' r (Upstream cfg) = Inl e'"
      "v_action v' = ''upstream_failed''" "v_msg v' = (v_msg v)\<lparr>m_Rcode := RcodeServerFailure\<rparr>"
      "v_upstream v' = Upstream cfg" "v_matchedRuleID v' = v_matchedRuleID v"
      "s' = s\<lparr>sv_asked := sv_asked s @ [(''udp'', r), (''tcp'', r)]\<rparr>"
  | (answered) resp where "v_action v \<notin> {''blocked'', ''static''}" "v_action v' = v_action v" "v_msg v' = resp"
      "v_upstream v' = Upstream cfg" "v_matchedRuleID v' = v_matchedRuleID v"
      "Exchange lib ''udp'' r (Upstream cfg) = Inr resp \<and> s' = s\<lparr>sv_asked := sv_asked s @ [(''udp'', r)]\<rparr> \<or>
       (\<exists>e. Exchange lib ''udp'' r (Upstream cfg) = Inl e) \<and> Exchange lib ''tcp'' r (Upstream cfg) = Inr resp \<and>
         s' = s\<lparr>sv_asked := sv_asked s @ [(''udp'', r), (''tcp'', r)]\<rparr>"
proof (cases "v_action v \<in> {''blocked'', ''static''}")
  case True
  with assms show ?thesis
    by (intro kept) (auto simp: apply_forward_def)
next
  case False
  show ?thesis
  proof (cases "Exchange lib ''udp'' r (Upstream cfg)")
    case (Inr resp)
    with assms False show ?thesis
      by (intro answered [of resp]) (auto simp: apply_forward_def forward_def Let_def)
  next
    case udp: (Inl e)
    show ?thesis
    proof (cases "Exchange lib ''tcp'' r (Upstream cfg)")
      case (Inr resp)
      with assms False udp show ?thesis
        by (intro answered [of resp]) (auto simp: apply_forward_def forward_def Let_def)
    next
      case (Inl e')
      with assms False udp show ?thesis
        by (intro failed [of e]) (auto simp: apply_forward_def forward_def Let_def)
    qed
  qed
qed

section \<open>The decision\<close>

abbreviation reply_to :: "dns_lib \<Rightarrow> Msg \<Rightarrow> Msg" where
  "reply_to lib r \<equiv> (SetReply lib r)\<lparr>m_Authoritative := False\<rparr>"

lemma start_query_simps [simp]:
  "v_action (start_query lib r) = ''allowed''" "v_matchedRuleID (start_query lib r) = None"
  "v_upstream (start_query lib r) = ''''" "v_msg (start_query lib r) = reply_to lib r"
  by (simp_all add: start_query_def)

text \<open>After the rules and the blocklists: either blocked with the sinkhole answer, or still to be answered.\<close>

lemma policy_outcome:
  assumes "apply_rule cfg q qname (start_query lib r, s) = (v1, s1)" and "apply_blocklist cfg q qname (v1, s1) = (v, t)"
  obtains (blocked) st where "v_action v = ''blocked''" "v_msg v = addSinkholeAnswer cfg q (reply_to lib r)"
      "v_upstream v = ''''" "v_answerSummary v = ''sinkhole''"
      "t = s\<lparr>sv_store := st, sv_blocked := sv_blocked s + 1\<rparr>"
  | (passed) st where "v_action v = ''allowed''" "v_msg v = reply_to lib r" "v_upstream v = ''''" "t = s\<lparr>sv_store := st\<rparr>"
  using assms(1)
proof (cases rule: apply_rule_cases)
  case (none r1 st)
  from assms(2) show ?thesis
  proof (cases rule: apply_blocklist_cases)
    case skipped
    with none show ?thesis
      by (intro passed [of st]) simp_all
  next
    case 2: (none r2 st2)
    with none show ?thesis
      by (intro passed [of st2]) simp_all
  next
    case (block m s2 st2)
    with none show ?thesis
      by (intro blocked [of st2]) simp_all
  qed
next
  case (allow rule s2 st)
  with assms(2) have "v = v1" and "t = s1"
    by (auto simp: apply_blocklist_def)
  with allow show ?thesis
    by (intro passed [of st]) simp_all
next
  case (block rule s2 st)
  with assms(2) have "v = v1" and "t = s1"
    by (auto simp: apply_blocklist_def)
  with block show ?thesis
    by (intro blocked [of st]) simp_all
qed

lemma answer_query_steps:
  assumes "answer_query lib cfg r q s = (v, t)"
  obtains v1 s1 v2 s2 v3 s3 where
    "apply_rule cfg q (NormalizeName (q_Name q)) (start_query lib r, s) = (v1, s1)"
    "apply_blocklist cfg q (NormalizeName (q_Name q)) (v1, s1) = (v2, s2)"
    "apply_static lib q (v2, s2) = (v3, s3)" "apply_forward lib cfg r (v3, s3) = (v, t)"
  using assms unfolding answer_query_def Let_def by (metis surj_pair)

lemma answer_query_cases:
  assumes "answer_query lib cfg r q s = (v, t)"
  obtains (blocked) st where "v_action v = ''blocked''" "v_msg v = addSinkholeAnswer cfg q (reply_to lib r)"
      "v_upstream v = ''''" "v_answerSummary v = ''sinkhole''"
      "t = s\<lparr>sv_store := st, sv_blocked := sv_blocked s + 1\<rparr>"
  | (static) answers st where "v_action v = ''static''" "v_msg v = (reply_to lib r)\<lparr>m_Answer := answers\<rparr>" "answers \<noteq> []"
      "v_upstream v = ''''" "t = s\<lparr>sv_store := st\<rparr>"
  | (resolved) st asked where "v_action v = ''allowed''" "v_upstream v = Upstream cfg" "asked \<noteq> []"
      "t = s\<lparr>sv_store := st, sv_asked := sv_asked s @ asked\<rparr>"
      "Exchange lib ''udp'' r (Upstream cfg) = Inr (v_msg v) \<or>
       (\<exists>e. Exchange lib ''udp'' r (Upstream cfg) = Inl e) \<and> Exchange lib ''tcp'' r (Upstream cfg) = Inr (v_msg v)"
  | (unresolved) st asked e e' where "v_action v = ''upstream_failed''" "v_upstream v = Upstream cfg" "asked \<noteq> []"
      "v_msg v = (reply_to lib r)\<lparr>m_Rcode := RcodeServerFailure\<rparr>"
      "t = s\<lparr>sv_store := st, sv_asked := sv_asked s @ asked\<rparr>"
      "Exchange lib ''udp'' r (Upstream cfg) = Inl e" "Exchange lib ''tcp'' r (Upstream cfg) = Inl e'"
proof -
  obtain v1 s1 v2 s2 v3 s3 where
    1: "apply_rule cfg q (NormalizeName (q_Name q)) (start_query lib r, s) = (v1, s1)"
    and 2: "apply_blocklist cfg q (NormalizeName (q_Name q)) (v1, s1) = (v2, s2)"
    and 3: "apply_static lib q (v2, s2) = (v3, s3)" and 4: "apply_forward lib cfg r (v3, s3) = (v, t)"
    using assms by (rule answer_query_steps)
  from 1 2 show ?thesis
  proof (cases rule: policy_outcome)
    case blk: (blocked st)
    with 3 have "v3 = v2" "s3 = s2"
      by (auto simp: apply_static_def)
    with 4 blk show ?thesis
      by (intro blocked [of st]) (auto simp: apply_forward_def)
  next
    case (passed st)
    from 3 show ?thesis
    proof (cases rule: apply_static_cases)
      case (kept st3)
      from 4 show ?thesis
      proof (cases rule: apply_forward_cases)
        case fwd: kept
        with kept passed show ?thesis
          by simp
      next
        case (failed e)
        then obtain e' where "Exchange lib ''tcp'' r (Upstream cfg) = Inl e'"
          by blast
        with failed kept passed show ?thesis
          by (intro unresolved [of "[(''udp'', r), (''tcp'', r)]" st3 e e']) simp_all
      next
        case (answered resp)
        have s3: "s3 = s\<lparr>sv_store := st3\<rparr>"
          using kept(2) passed(4) by simp
        from answered(6) obtain asked where asked: "asked \<noteq> []" "t = s3\<lparr>sv_asked := sv_asked s3 @ asked\<rparr>"
          by blast
        show ?thesis
        proof (rule resolved [of asked st3])
          show "v_action v = ''allowed''"
            using answered(2) kept(1) passed(1) by simp
          show "v_upstream v = Upstream cfg" and "asked \<noteq> []"
            using answered(4) asked(1) by simp_all
          show "t = s\<lparr>sv_store := st3, sv_asked := sv_asked s @ asked\<rparr>"
            using asked(2) s3 by simp
          show "Exchange lib ''udp'' r (Upstream cfg) = Inr (v_msg v) \<or>
              (\<exists>e. Exchange lib ''udp'' r (Upstream cfg) = Inl e) \<and> Exchange lib ''tcp'' r (Upstream cfg) = Inr (v_msg v)"
            using answered(3,6) by blast
        qed
      qed
    next
      case (answered answers st3)
      with 4 have "v = v3" "t = s3"
        by (auto simp: apply_forward_def)
      with answered passed show ?thesis
        by (intro static [of answers st3]) simp_all
    qed
  qed
qed

text \<open>
  C13. A blocked query never leaves the machine: no exchange with the upstream is made, the reply is the
  fresh reply with the sinkhole answer for its type and nothing else, no upstream is recorded, and the
  count of blocked queries goes up by one; a query that is not blocked does not change that count.
\<close>

theorem blocked_never_forwarded:
  assumes "answer_query lib cfg r q s = (v, t)"
  shows "(v_action v = ''blocked'' \<longrightarrow> sv_asked t = sv_asked s \<and> v_upstream v = '''' \<and>
      v_msg v = addSinkholeAnswer cfg q ((SetReply lib r)\<lparr>m_Authoritative := False\<rparr>) \<and>
      sv_blocked t = sv_blocked s + 1) \<and>
    (v_action v \<noteq> ''blocked'' \<longrightarrow> sv_blocked t = sv_blocked s)"
  using assms by (cases rule: answer_query_cases) auto

text \<open>
  C14. The upstream is asked exactly for the queries that are neither blocked nor answered from a static
  record. Its first answer, over UDP or else over TCP, is the reply; when both fail the client gets
  SERVFAIL on its own reply.
\<close>

theorem forwards_the_rest:
  assumes "answer_query lib cfg r q s = (v, t)"
  shows "(sv_asked t = sv_asked s \<longleftrightarrow> v_action v \<in> {''blocked'', ''static''}) \<and>
    v_action v \<in> {''blocked'', ''static'', ''allowed'', ''upstream_failed''} \<and>
    (v_action v = ''allowed'' \<longrightarrow> Exchange lib ''udp'' r (Upstream cfg) = Inr (v_msg v) \<or>
       Exchange lib ''tcp'' r (Upstream cfg) = Inr (v_msg v)) \<and>
    (v_action v = ''upstream_failed'' \<longrightarrow> m_Rcode (v_msg v) = RcodeServerFailure \<and>
       isl (Exchange lib ''udp'' r (Upstream cfg)) \<and> isl (Exchange lib ''tcp'' r (Upstream cfg)))"
  using assms by (cases rule: answer_query_cases) auto

lemma matched_rule_decides:
  assumes "MatchRule (NormalizeName (q_Name q)) (sv_store s) = (Inr (Some rule), st)"
    and "answer_query lib cfg r q s = (v, t)"
  shows "v_matchedRuleID v = Some (R_ID rule) \<and> (v_action v = ''blocked'' \<longleftrightarrow> R_Action rule \<noteq> ''allow'')"
proof -
  obtain v1 s1 v2 s2 v3 s3 where
    1: "apply_rule cfg q (NormalizeName (q_Name q)) (start_query lib r, s) = (v1, s1)"
    and 2: "apply_blocklist cfg q (NormalizeName (q_Name q)) (v1, s1) = (v2, s2)"
    and 3: "apply_static lib q (v2, s2) = (v3, s3)" and 4: "apply_forward lib cfg r (v3, s3) = (v, t)"
    using assms(2) by (rule answer_query_steps)
  from 1 have v1: "v_matchedRuleID v1 = Some (R_ID rule) \<and> (v_action v1 = ''blocked'' \<longleftrightarrow> R_Action rule \<noteq> ''allow'')"
    by (cases rule: apply_rule_cases) (auto simp: on_store_def assms(1))
  with 2 have "v2 = v1"
    by (auto simp: apply_blocklist_def)
  with 3 v1 have v3: "v_matchedRuleID v3 = Some (R_ID rule) \<and> (v_action v3 = ''blocked'' \<longleftrightarrow> R_Action rule \<noteq> ''allow'')"
    by (cases rule: apply_static_cases) auto
  from 4 v3 show ?thesis
    by (cases rule: apply_forward_cases) auto
qed

text \<open>
  The rules come first: when one matches, it alone decides whether the query is blocked, whatever the
  blocklists and the static records hold, and its id is recorded. In particular an allow rule lets a
  name through that a blocklist holds.
\<close>

lemma rule_decides_alone:
  assumes "MatchRule (NormalizeName (q_Name q)) (sv_store s) = (Inr (Some rule), st)"
    and "answer_query lib cfg r q s = (v, t)"
  shows "v_matchedRuleID v = Some (R_ID rule) \<and> (v_action v = ''blocked'' \<longleftrightarrow> R_Action rule \<noteq> ''allow'')"
  using assms by (rule matched_rule_decides)

text \<open>
  Blocklists come before static records: a name that no rule matches and some entry covers is blocked
  even where a static record answers it.
\<close>

lemma blocklist_before_static:
  assumes "MatchRule (NormalizeName (q_Name q)) (sv_store s) = (r1, st1)" and "r1 = Inr None \<or> isl r1"
    and "MatchBlocklist (NormalizeName (q_Name q)) st1 = (Inr (Some m), st2)"
    and "answer_query lib cfg r q s = (v, t)"
  shows "v_action v = ''blocked'' \<and> v_matchedRuleID v = None"
proof -
  obtain v1 s1 v2 s2 v3 s3 where
    1: "apply_rule cfg q (NormalizeName (q_Name q)) (start_query lib r, s) = (v1, s1)"
    and 2: "apply_blocklist cfg q (NormalizeName (q_Name q)) (v1, s1) = (v2, s2)"
    and 3: "apply_static lib q (v2, s2) = (v3, s3)" and 4: "apply_forward lib cfg r (v3, s3) = (v, t)"
    using assms(4) by (rule answer_query_steps)
  have "v1 = start_query lib r" and "s1 = s\<lparr>sv_store := st1\<rparr>"
    using 1 assms(1,2) by (cases r1; force simp: apply_rule_def on_store_def)+
  with 2 assms(3) have "v_action v2 = ''blocked''" and "v_matchedRuleID v2 = None"
    by (auto simp: apply_blocklist_def on_store_def sinkhole_def)
  with 3 4 show ?thesis
    by (auto simp: apply_static_def apply_forward_def)
qed

text \<open>
  C18. The policy fails open: when the rules, the blocklists and the static records cannot be read, the
  query is still forwarded.
\<close>

theorem policy_fails_open:
  assumes "MatchRule (NormalizeName (q_Name q)) (sv_store s) = (Inl e1, st1)"
    and "MatchBlocklist (NormalizeName (q_Name q)) st1 = (Inl e2, st2)"
    and "StaticRecords st2 = (Inl e3, st3)" and "answer_query lib cfg r q s = (v, t)"
  shows "v_action v \<in> {''allowed'', ''upstream_failed''} \<and> sv_asked t \<noteq> sv_asked s \<and> sv_blocked t = sv_blocked s"
proof -
  obtain v1 s1 v2 s2 v3 s3 where
    1: "apply_rule cfg q (NormalizeName (q_Name q)) (start_query lib r, s) = (v1, s1)"
    and 2: "apply_blocklist cfg q (NormalizeName (q_Name q)) (v1, s1) = (v2, s2)"
    and 3: "apply_static lib q (v2, s2) = (v3, s3)" and 4: "apply_forward lib cfg r (v3, s3) = (v, t)"
    using assms(4) by (rule answer_query_steps)
  from 1 assms(1) have "v1 = start_query lib r" and "s1 = s\<lparr>sv_store := st1\<rparr>"
    by (auto simp: apply_rule_def on_store_def)
  with 2 assms(2) have "v2 = start_query lib r" and "s2 = s\<lparr>sv_store := st2\<rparr>"
    by (auto simp: apply_blocklist_def on_store_def)
  with 3 assms(3) have v3: "v3 = start_query lib r" and "\<exists>st. s3 = s\<lparr>sv_store := st\<rparr>"
    by (auto simp: apply_static_def staticAnswer_def on_store_def split: if_splits)
  then obtain st where "s3 = s\<lparr>sv_store := st\<rparr>"
    by blast
  with 4 v3 show ?thesis
    by (cases rule: apply_forward_cases) auto
qed

section \<open>Replies, counters and the queue\<close>

interpretation event_queue: bounded_queue sv_events sv_dropped "EventQueueCap cfg" "enqueue_event cfg"
  by unfold_locales (simp_all add: enqueue_event_def)

lemma enqueue_event_frame:
  "sv_sent (enqueue_event cfg e s) = sv_sent s" "sv_queries (enqueue_event cfg e s) = sv_queries s"
  by (simp_all add: enqueue_event_def)

lemma answer_query_frame:
  assumes "answer_query lib cfg r q s = (v, t)"
  shows "sv_sent t = sv_sent s" "sv_events t = sv_events s" "sv_dropped t = sv_dropped s" "sv_queries t = sv_queries s"
  using assms by (cases rule: answer_query_cases; simp)+

lemma finish_query_outcome:
  assumes "finish_query lib cfg start host ip q (v, s) = t"
  obtains event st where "t = enqueue_event cfg event (s\<lparr>sv_sent := sv_sent s @ [v_msg v],
      sv_queries := sv_queries s + 1, sv_store := st\<rparr>)" "QE_Action event = v_action v" "QE_MatchedRuleID event = v_matchedRuleID v"
    "QE_HostID event = fst host" "QE_QueryName event = NormalizeName (q_Name q)"
proof -
  let ?s = "(write_msg (v_msg v) s)\<lparr>sv_queries := sv_queries s + 1\<rparr>"
  obtain ts s1 where 1: "now_of ?s = (ts, s1)"
    by fastforce
  obtain stop s2 where 2: "now_of s1 = (stop, s2)"
    by fastforce
  from now_of_frame [OF 1] now_of_frame [OF 2] obtain st where
    s2: "s2 = s\<lparr>sv_sent := sv_sent s @ [v_msg v], sv_queries := sv_queries s + 1, sv_store := st\<rparr>"
    by (auto simp: write_msg_def)
  show ?thesis
    by (rule that [where st = st and event = "\<lparr>QE_Timestamp = ts, QE_HostID = fst host, QE_SourceIP = ip, QE_HostLabel = snd host,
                QE_QueryName = NormalizeName (q_Name q), QE_QueryType = qtype_text lib q, QE_Action = v_action v,
                QE_MatchedRuleID = v_matchedRuleID v, QE_MatchedSource = v_matchedSource v,
                QE_ResponseCode = response_code lib v, QE_Upstream = v_upstream v,
                QE_LatencyMS = milliseconds (time_since stop start), QE_AnswerSummary = v_answerSummary v\<rparr>"])
      (use assms 1 2 in \<open>simp_all add: finish_query_def write_msg_def Let_def s2\<close>)
qed

lemma handleDNS_cases:
  assumes "handleDNS lib cfg addr r s = t"
  obtains (no_question) s1 where "m_Question r = []" "sv_sent s1 = sv_sent s" "sv_events s1 = sv_events s"
      "sv_dropped s1 = sv_dropped s" "sv_queries s1 = sv_queries s" "sv_blocked s1 = sv_blocked s"
      "t = write_msg ((SetReply lib r)\<lparr>m_Authoritative := False, m_Rcode := RcodeFormatError\<rparr>) s1"
  | (question) q qs s1 v s2 host start where "m_Question r = q # qs" "sv_sent s1 = sv_sent s" "sv_events s1 = sv_events s"
      "sv_dropped s1 = sv_dropped s" "sv_queries s1 = sv_queries s" "sv_blocked s1 = sv_blocked s"
      "answer_query lib cfg r q s1 = (v, s2)" "t = finish_query lib cfg start host (remoteIP addr) q (v, s2)"
proof -
  obtain start s0 where 0: "now_of s = (start, s0)"
    by fastforce
  obtain host s1 where 1: "admit_host (remoteIP addr) s0 = (host, s1)"
    by fastforce
  from now_of_frame [OF 0] admit_host_frame [OF 1] have
    f: "sv_sent s1 = sv_sent s" "sv_events s1 = sv_events s" "sv_dropped s1 = sv_dropped s"
    "sv_queries s1 = sv_queries s" "sv_blocked s1 = sv_blocked s"
    by auto
  show ?thesis
  proof (cases "m_Question r")
    case Nil
    with assms 0 1 f show ?thesis
      by (intro no_question [where ?s1.0 = s1]) (simp_all add: handleDNS_def Let_def)
  next
    case (Cons q qs)
    obtain v s2 where "answer_query lib cfg r q s1 = (v, s2)"
      by fastforce
    moreover from this Cons assms 0 1 have "t = finish_query lib cfg start host (remoteIP addr) q (v, s2)"
      by (simp add: handleDNS_def Let_def)
    ultimately show ?thesis
      using question [where ?s1.0 = s1] Cons f by blast
  qed
qed

text \<open>
  C4. Every message gets exactly one reply. A message with a question is counted once and leaves one
  event, in the queue or among the dropped; one without a question gets FORMERR and leaves neither. The
  queue never grows past its capacity.
\<close>

theorem handleDNS_one_reply:
  assumes "handleDNS lib cfg addr r s = t"
  shows "(\<exists>msg. sv_sent t = sv_sent s @ [msg] \<and> (m_Question r = [] \<longrightarrow> m_Rcode msg = RcodeFormatError)) \<and>
    sv_queries t = sv_queries s + (if m_Question r = [] then 0 else 1) \<and>
    int (length (sv_events t)) + sv_dropped t =
      int (length (sv_events s)) + sv_dropped s + (if m_Question r = [] then 0 else 1) \<and>
    (int (length (sv_events s)) \<le> EventQueueCap cfg \<longrightarrow> int (length (sv_events t)) \<le> EventQueueCap cfg)"
  using assms
proof (cases rule: handleDNS_cases)
  case (no_question s1)
  then show ?thesis
    by (simp add: write_msg_def)
next
  case (question q qs s1 v s2 host start)
  note a = answer_query_frame [OF question(7)]
  obtain event st where t: "t = enqueue_event cfg event (s2\<lparr>sv_sent := sv_sent s2 @ [v_msg v],
      sv_queries := sv_queries s2 + 1, sv_store := st\<rparr>)"
    using finish_query_outcome [OF question(8) [symmetric]] by blast
  let ?u = "s2\<lparr>sv_sent := sv_sent s2 @ [v_msg v], sv_queries := sv_queries s2 + 1, sv_store := st\<rparr>"
  have "int (length (sv_events t)) + sv_dropped t = int (length (sv_events s)) + sv_dropped s + 1"
    using event_queue.put_accounted [of cfg event ?u] a question by (simp add: t)
  moreover have "int (length (sv_events s)) \<le> EventQueueCap cfg \<longrightarrow> int (length (sv_events t)) \<le> EventQueueCap cfg"
    using event_queue.put_bounded [of ?u cfg event] a question by (simp add: t)
  moreover have "sv_sent t = sv_sent s @ [v_msg v]" "sv_queries t = sv_queries s + 1"
    using a question(2,5) by (simp_all add: t enqueue_event_frame)
  ultimately show ?thesis
    using question(1) by simp
qed

section \<open>From the tables to the reply\<close>

lemma block_rule_answer:
  assumes "faults (s_env (sv_store s)) = []" and "rules_coherent (sv_store s)"
    and "rules_table_ok (t_rules (s_db (sv_store s)))"
    and "r0 \<in> set (t_rules (s_db (sv_store s)))" and "rr_action r0 = ''block''" and "rr_enabled r0 = 1"
    and "rr_expires_at r0 = None" and "covers (rr_target r0) (NormalizeName (NormalizeName (q_Name q)))"
    and "\<forall>r' \<in> set (t_rules (s_db (sv_store s))). rr_action r' = ''allow'' \<longrightarrow> rr_id r0 < rr_id r'"
    and "answer_query lib cfg msg q s = (v, t)"
  shows "v_action v = ''blocked'' \<and> sv_asked t = sv_asked s \<and>
    v_msg v = addSinkholeAnswer cfg q ((SetReply lib msg)\<lparr>m_Authoritative := False\<rparr>)"
proof -
  let ?st = "sv_store s" and ?n = "NormalizeName (q_Name q)"
  have "works Rules"
    unfolding works_def
  proof (intro allI impI)
    fix s :: store
    assume f: "faults (s_env s) = []"
    from worksE [OF works_query_db f] obtain a u where
      "query_db (\<lambda>d. map scanRule (select_rules d)) s = (Inr a, u)" "faults (s_env u) = []" .
    with f show "\<exists>a t. Rules s = (Inr a, t) \<and> faults (s_env t) = []"
      by (simp add: Rules_def)
  qed
  then have "works (MatchRule ?n)"
    unfolding MatchRule_def Let_def by (intro keeps_intro)
  from worksE [OF this assms(1)] obtain m st where run: "MatchRule ?n ?st = (Inr m, st)" .
  note first = MatchRule_first [OF run assms(2,3)]
  have app: "row_applies (clock (s_env st)) (NormalizeName ?n) r0"
    using assms(6-8) by (simp add: row_applies_def parse_nullable_def)
  with first assms(4) obtain rule where m: "m = Some rule"
    by (cases m) auto
  with first obtain r where r: "r \<in> set (t_rules (s_db ?st))" "rule = scanRule r" and "rr_id r \<le> rr_id r0"
    using app assms(4) by auto
  with assms(9) have "rr_action r \<noteq> ''allow''"
    by fastforce
  then have "R_Action rule \<noteq> ''allow''"
    by (simp add: r(2) scanRule_def)
  obtain v1 s1 v2 s2 v3 s3 where
    1: "apply_rule cfg q ?n (start_query lib msg, s) = (v1, s1)" and 2: "apply_blocklist cfg q ?n (v1, s1) = (v2, s2)"
    and 3: "apply_static lib q (v2, s2) = (v3, s3)" and 4: "apply_forward lib cfg msg (v3, s3) = (v, t)"
    using assms(10) by (rule answer_query_steps)
  from 1 have "v_action v1 = ''blocked''"
    by (cases rule: apply_rule_cases) (use run m \<open>R_Action rule \<noteq> ''allow''\<close> in \<open>auto simp: on_store_def\<close>)
  with 2 3 4 have "v_action v = ''blocked''"
    by (auto simp: apply_blocklist_def apply_static_def apply_forward_def)
  with assms(10) show ?thesis
    by (cases rule: answer_query_cases) auto
qed

text \<open>
  End to end: with a working database and coherent cache, a name covered by an enabled block rule
  that never expires, of smaller id than every rule that allows the name, is answered with the sinkhole
  and never forwarded.
\<close>

lemma block_rule_sinkholes:
  assumes "faults (s_env (sv_store s)) = []" and "rules_coherent (sv_store s)"
    and "rules_table_ok (t_rules (s_db (sv_store s)))"
    and "r0 \<in> set (t_rules (s_db (sv_store s)))" and "rr_action r0 = ''block''" and "rr_enabled r0 = 1"
    and "rr_expires_at r0 = None" and "covers (rr_target r0) (NormalizeName (NormalizeName (q_Name q)))"
    and "\<forall>r' \<in> set (t_rules (s_db (sv_store s))). rr_action r' = ''allow'' \<longrightarrow> rr_id r0 < rr_id r'"
    and "answer_query lib cfg msg q s = (v, t)"
  shows "v_action v = ''blocked'' \<and> sv_asked t = sv_asked s \<and>
    v_msg v = addSinkholeAnswer cfg q ((SetReply lib msg)\<lparr>m_Authoritative := False\<rparr>)"
  using assms by (rule block_rule_answer)

section \<open>Answers from static records\<close>

lemma record_answer_ttl:
  "a \<in> set (record_answer q n ty rec) \<Longrightarrow> \<exists>h. (\<exists>ip. a = RR_A h ip) \<or> (\<exists>ip. a = RR_AAAA h ip) \<or>
     (\<exists>c. a = RR_CNAME h c) \<or> (\<exists>x. a = RR_TXT h x)"
  by (auto simp: record_answer_def Let_def split: if_splits)

text \<open>
  A static record answers only questions for its own name and type, with the question's class-IN
  header; the TTL sent is the stored one modulo 2 to the 32: a record stored with a TTL of 4294967296
  seconds is sent with TTL 0.
\<close>

lemma record_answer_header:
  "record_answer q n ty rec = [] \<or> SR_Name rec = n \<and> SR_Type rec = ty \<and>
     (\<exists>h. unat (h_Ttl h) = nat (SR_TTL rec mod 2 ^ 32) \<and> h_Name h = n \<and> h_Rrtype h = q_Qtype q \<and>
        (q_Qtype q = TypeA \<longrightarrow> record_answer q n ty rec = [RR_A h (To4 (ParseIP (SR_Value rec)))]) \<and>
        (q_Qtype q = TypeAAAA \<longrightarrow> record_answer q n ty rec = [RR_AAAA h (ParseIP (SR_Value rec))]) \<and>
        (q_Qtype q = TypeCNAME \<longrightarrow> record_answer q n ty rec = [RR_CNAME h (NormalizeName (SR_Value rec))]) \<and>
        (q_Qtype q = TypeTXT \<longrightarrow> record_answer q n ty rec = [RR_TXT h [SR_Value rec]]))"
proof -
  have "unat (uint32 i) = nat (i mod 2 ^ 32)" for i
    by (simp add: uint32_def unat_eq_nat_uint uint_word_of_int)
  then show ?thesis
    by (auto simp: record_answer_def Let_def TypeA_def TypeAAAA_def TypeCNAME_def TypeTXT_def
        intro!: exI [of _ "\<lparr>h_Name = n, h_Rrtype = q_Qtype q, h_Class = ClassINET, h_Ttl = uint32 (SR_TTL rec)\<rparr>"])
qed

lemma answer_part_length: "length (answer_part lib a) \<le> 1"
  by (auto simp: answer_part_def Let_def split: RR.split)

text \<open>
  The summary of an answer names at most three records, whatever the length of the answer.
\<close>

lemma summarizeAnswers_at_most_three:
  "\<exists>parts. length parts \<le> 3 \<and> summarizeAnswers lib answers = join parts '', ''"
proof -
  have "length (answer_parts lib as parts) \<le> 3" if "length parts \<le> 2" for as parts
    using that
  proof (induction as arbitrary: parts)
    case (Cons a as)
    have "length (parts @ answer_part lib a) \<le> 3"
      using Cons.prems answer_part_length [of lib a] by simp
    with Cons.IH show ?case
      by (auto simp: Let_def)
  qed simp
  from this [of "[]" answers] show ?thesis
    by (cases "answers = []")
      (auto simp: summarizeAnswers_def intro!: exI [of _ "[]"] exI [of _ "answer_parts lib answers []"])
qed

section \<open>Runs\<close>

text \<open>An instance of the DNS library, with an upstream that echoes the query, and a configuration.\<close>

definition sample_reply :: "Msg \<Rightarrow> Msg" where
  "sample_reply r = \<lparr>m_Id = m_Id r, m_Response = True, m_Authoritative = False, m_Rcode = 0,
     m_Question = m_Question r, m_Answer = []\<rparr>"

definition sample_lib :: dns_lib where
  "sample_lib = \<lparr>TypeToString = (\<lambda>t. if t = TypeA then ''A'' else ''''), RcodeToString = (\<lambda>_. ''NOERROR''),
     SetReply = sample_reply, RR_String = (\<lambda>_. ''''), Exchange = (\<lambda>_ r _. Inr r)\<rparr>"

definition down_lib :: dns_lib where
  "down_lib = sample_lib\<lparr>Exchange := (\<lambda>_ _ _. Inl ErrDB)\<rparr>"

definition sample_config :: Config where
  "sample_config = \<lparr>DNSAddr = ''127.0.0.1:5053'', HTTPAddr = ''127.0.0.1:8080'', DBPath = '''', AdminToken = '''',
     AdminTokenPath = '''', Upstream = ''1.1.1.1:53'', SinkholeIPv4 = ''0.0.0.0'', SinkholeIPv6 = ''::'',
     LogLevel = ''info'', QueryTimeoutMS = 3000, EventQueueCap = 8\<rparr>"

definition sample_question :: "string \<Rightarrow> Question" where
  "sample_question name = \<lparr>q_Name = name, q_Qtype = TypeA, q_Qclass = ClassINET\<rparr>"

definition sample_query :: "string \<Rightarrow> Msg" where
  "sample_query name = \<lparr>m_Id = 7, m_Response = False, m_Authoritative = False, m_Rcode = 0,
     m_Question = [sample_question name], m_Answer = []\<rparr>"

definition sample_block_db :: db where
  "sample_block_db = empty_db\<lparr>t_rules := [sample_rule 1 ''ads.com.'' ''block'']\<rparr>"

lemma New_simps [simp]:
  "sv_store (New (sample_store d)) = sample_store d" "sv_sent (New st) = []" "sv_asked (New st) = []"
  "sv_events (New st) = []" "sv_dropped (New st) = 0" "sv_queries (New st) = 0" "sv_blocked (New st) = 0"
  "sv_store (New (fresh_store d \<lparr>faults = fs, clock = n, readings = []\<rparr> k)) =
     fresh_store d \<lparr>faults = fs, clock = n, readings = []\<rparr> k"
  by (simp_all add: New_def time_now_def sample_store_def fresh_store_def)

lemma sample_names:
  "NormalizeName ''x.ads.com.'' = ''x.ads.com.''" "NormalizeName ''x.ok.ads.com'' = ''x.ok.ads.com.''"
  "covers ''ads.com.'' ''x.ads.com.''" "NormalizeName ''x.ok.ads.com.'' = ''x.ok.ads.com.''"
  by code_simp+

lemma sample_block_table:
  "rules_coherent (sample_store sample_block_db)" "rules_table_ok (t_rules sample_block_db)"
  by (simp_all add: rules_coherent_def coherent_def rules_table_ok_def sample_block_db_def sample_rule_def
      rule_key_def rule_row_ok_def) code_simp

lemma block_rule_sinkholes_witness:
  "\<exists>v t. answer_query sample_lib sample_config (sample_query ''x.ads.com.'') (sample_question ''x.ads.com.'')
      (New (sample_store sample_block_db)) = (v, t) \<and> v_action v = ''blocked'' \<and> sv_asked t = []"
proof -
  obtain v t where run: "answer_query sample_lib sample_config (sample_query ''x.ads.com.'') (sample_question ''x.ads.com.'')
      (New (sample_store sample_block_db)) = (v, t)"
    by fastforce
  have "sample_rule 1 ''ads.com.'' ''block'' \<in> set (t_rules (s_db (sv_store (New (sample_store sample_block_db)))))"
    by (simp add: sample_block_db_def)
  from block_rule_sinkholes [OF _ _ _ this _ _ _ _ _ run] run sample_block_table sample_names show ?thesis
    by (simp add: sample_block_db_def sample_rule_def sample_question_def)
qed

lemma blocked_never_forwarded_witness:
  "\<exists>v t. answer_query sample_lib sample_config (sample_query ''x.ads.com.'') (sample_question ''x.ads.com.'')
      (New (sample_store sample_block_db)) = (v, t) \<and> v_action v = ''blocked'' \<and> sv_blocked t = 1 \<and> v_upstream v = ''''"
proof -
  obtain v t where run: "answer_query sample_lib sample_config (sample_query ''x.ads.com.'') (sample_question ''x.ads.com.'')
      (New (sample_store sample_block_db)) = (v, t)"
    by fastforce
  have "sample_rule 1 ''ads.com.'' ''block'' \<in> set (t_rules (s_db (sv_store (New (sample_store sample_block_db)))))"
    by (simp add: sample_block_db_def)
  from block_rule_answer [OF _ _ _ this _ _ _ _ _ run] sample_block_table sample_names have "v_action v = ''blocked''"
    by (simp add: sample_block_db_def sample_rule_def sample_question_def)
  with blocked_never_forwarded [OF run] run show ?thesis
    by simp
qed

lemma rule_decides_alone_witness:
  "\<exists>v t. answer_query sample_lib sample_config (sample_query ''x.ok.ads.com'') (sample_question ''x.ok.ads.com'')
      (New (sample_store sample_rules_db)) = (v, t) \<and> v_matchedRuleID v = Some 1 \<and> v_action v \<noteq> ''blocked''"
proof -
  obtain v t where run: "answer_query sample_lib sample_config (sample_query ''x.ok.ads.com'') (sample_question ''x.ok.ads.com'')
      (New (sample_store sample_rules_db)) = (v, t)"
    by fastforce
  obtain st where "MatchRule ''x.ok.ads.com'' (sample_store sample_rules_db) =
     (Inr (Some (scanRule (sample_rule 1 ''ok.ads.com.'' ''allow''))), st)"
    using sample_rules_run by blast
  then have "MatchRule (NormalizeName (q_Name (sample_question ''x.ok.ads.com''))) (sv_store (New (sample_store sample_rules_db))) =
     (Inr (Some (scanRule (sample_rule 1 ''ok.ads.com.'' ''allow''))), st)"
    by (simp add: sample_question_def sample_names MatchRule_def)
  from rule_decides_alone [OF this run] run show ?thesis
    by (simp add: scanRule_def sample_rule_def)
qed

lemma blocklist_before_static_witness:
  "\<exists>v t. answer_query sample_lib sample_config (sample_query ''x.Ads.com'') (sample_question ''x.Ads.com'')
      (New (sample_store sample_entries_db)) = (v, t) \<and> v_action v = ''blocked'' \<and> v_matchedRuleID v = None"
proof -
  obtain v t where run: "answer_query sample_lib sample_config (sample_query ''x.Ads.com'') (sample_question ''x.Ads.com'')
      (New (sample_store sample_entries_db)) = (v, t)"
    by fastforce
  have n: "NormalizeName (NormalizeName ''x.Ads.com'') = NormalizeName ''x.Ads.com''"
    by code_simp
  define st1 where "st1 = (sample_store sample_entries_db)\<lparr>rulesCache := [], rulesLoaded := True\<rparr>"
  have 1: "MatchRule (NormalizeName (q_Name (sample_question ''x.Ads.com''))) (sv_store (New (sample_store sample_entries_db))) =
      (Inr None, st1)"
    by (simp add: sample_question_def MatchRule_def Rules_def run_simps st1_def sample_entries_db_def empty_db_def select_rules_def)
  have "walk_parents (map_of (entries_map sample_entries_db)) (NormalizeName ''x.Ads.com'') =
      Some (match_of (entry_of sample_source '''' ''ads.com.''))"
    by code_simp
  then have "\<exists>st2. MatchBlocklist (NormalizeName (q_Name (sample_question ''x.Ads.com''))) st1 =
      (Inr (Some (match_of (entry_of sample_source '''' ''ads.com.''))), st2)"
    by (simp add: MatchBlocklist_def blocklistEntries_def run_simps st1_def sample_question_def n)
  then obtain st2 where 2: "MatchBlocklist (NormalizeName (q_Name (sample_question ''x.Ads.com''))) st1 =
      (Inr (Some (match_of (entry_of sample_source '''' ''ads.com.''))), st2)"
    by blast
  from blocklist_before_static [OF 1 _ 2 run] run show ?thesis
    by simp
qed

lemma forwards_the_rest_witness:
  "\<exists>v t. answer_query down_lib sample_config (sample_query ''x.ads.com.'') (sample_question ''x.ads.com.'')
      (New (sample_store empty_db)) = (v, t) \<and> v_action v = ''upstream_failed'' \<and> sv_asked t \<noteq> [] \<and>
      m_Rcode (v_msg v) = RcodeServerFailure"
proof -
  obtain v t where run: "answer_query down_lib sample_config (sample_query ''x.ads.com.'') (sample_question ''x.ads.com.'')
      (New (sample_store empty_db)) = (v, t)"
    by fastforce
  moreover have "walk_parents (\<lambda>_. None :: BlocklistMatch option) ''x.ads.com.'' = None"
    by code_simp
  ultimately have "v_action v = ''upstream_failed''"
    by (auto simp: answer_query_def start_query_def sample_question_def sample_names apply_rule_def apply_blocklist_def
        apply_static_def apply_forward_def on_store_def MatchRule_def Rules_def MatchBlocklist_def blocklistEntries_def
        staticAnswer_def StaticRecords_def forward_def run_simps empty_db_def select_rules_def select_static_def
        entries_map_def down_lib_def sample_lib_def sample_reply_def)
  with forwards_the_rest [OF run] run show ?thesis
    by auto
qed

lemma policy_fails_open_witness:
  "\<exists>v t. answer_query sample_lib sample_config (sample_query ''x.ads.com.'') (sample_question ''x.ads.com.'')
      (New (fresh_store sample_block_db \<lparr>faults = [True, True, True], clock = 0, readings = []\<rparr> '''')) = (v, t) \<and>
      v_action v \<noteq> ''blocked'' \<and> sv_asked t \<noteq> []"
proof -
  let ?e = "\<lambda>fs. \<lparr>faults = fs, clock = 0, readings = []\<rparr>"
  obtain v t where run: "answer_query sample_lib sample_config (sample_query ''x.ads.com.'') (sample_question ''x.ads.com.'')
      (New (fresh_store sample_block_db (?e [True, True, True]) '''')) = (v, t)"
    by fastforce
  have 1: "MatchRule (NormalizeName (q_Name (sample_question ''x.ads.com.''))) (sv_store
      (New (fresh_store sample_block_db (?e [True, True, True]) ''''))) = (Inl ErrDB, fresh_store sample_block_db (?e [True, True]) '''')"
    by (simp add: New_def fresh_store_def sample_question_def MatchRule_def Rules_def run_simps)
  have 2: "MatchBlocklist (NormalizeName (q_Name (sample_question ''x.ads.com.''))) (fresh_store sample_block_db (?e [True, True]) '''') =
      (Inl ErrDB, fresh_store sample_block_db (?e [True]) '''')"
    by (simp add: fresh_store_def MatchBlocklist_def blocklistEntries_def run_simps)
  have 3: "StaticRecords (fresh_store sample_block_db (?e [True]) '''') = (Inl ErrDB, fresh_store sample_block_db (?e []) '''')"
    by (simp add: fresh_store_def StaticRecords_def run_simps)
  from policy_fails_open [OF 1 2 3 run] run show ?thesis
    by auto
qed

lemma handleDNS_one_reply_witness:
  "\<exists>t. handleDNS sample_lib sample_config None (sample_query ''x.ads.com.'') (New (sample_store sample_block_db)) = t \<and>
     (\<exists>msg. sv_sent t = [msg]) \<and> sv_queries t = 1 \<and> length (sv_events t) \<le> 8"
  using handleDNS_one_reply [of sample_lib sample_config None "sample_query ''x.ads.com.''" "New (sample_store sample_block_db)", OF refl]
  by (auto simp: sample_query_def sample_config_def)

lemma record_answer_header_witness:
  "record_answer (sample_question ''x.ads.com.'') ''x.ads.com.'' ''A''
     \<lparr>SR_ID = 1, SR_Name = ''x.ads.com.'', SR_Type = ''A'', SR_Value = ''10.0.0.1'', SR_TTL = 4294967296, SR_CreatedAt = 0\<rparr> =
     [RR_A \<lparr>h_Name = ''x.ads.com.'', h_Rrtype = TypeA, h_Class = ClassINET, h_Ttl = 0\<rparr> [10, 0, 0, 1]]"
proof -
  let ?r = "\<lparr>SR_ID = 1, SR_Name = ''x.ads.com.'', SR_Type = ''A'', SR_Value = ''10.0.0.1'', SR_TTL = 4294967296, SR_CreatedAt = 0\<rparr>"
  let ?as = "record_answer (sample_question ''x.ads.com.'') ''x.ads.com.'' ''A'' ?r"
  have ip: "To4 (ParseIP ''10.0.0.1'') = [10, 0, 0, 1]"
    by code_simp
  then have ne: "?as \<noteq> []"
    by (simp add: record_answer_def sample_question_def Let_def)
  from record_answer_header [of "sample_question ''x.ads.com.''" "''x.ads.com.''" "''A''" ?r] ne
  obtain h where h: "unat (h_Ttl h) = 0" "?as = [RR_A h [10, 0, 0, 1]]"
    by (auto simp: sample_question_def ip)
  from h(2) ip have "h_Name h = ''x.ads.com.''" "h_Rrtype h = TypeA" "h_Class h = ClassINET"
    by (auto simp: record_answer_def sample_question_def Let_def)
  with h show ?thesis
    by (cases h) (simp add: unat_eq_0)
qed

section \<open>The writer empties the queue\<close>

definition hosts_known :: "Server \<Rightarrow> bool" where
  \<comment> \<open>every event waiting is of a host in the table\<close>
  "hosts_known s \<longleftrightarrow> (\<forall>ev \<in> set (sv_events s). QE_HostID ev \<in> ho_id ` set (t_hosts (s_db (sv_store s))))"

definition stored_events :: "Server \<Rightarrow> query_event_row list" where
  "stored_events s = t_query_events (s_db (sv_store s))"

definition event_of :: "QueryEvent \<Rightarrow> query_event_row \<Rightarrow> bool" where
  \<comment> \<open>the row is the event, but for its id and, where the event has none, its time\<close>
  "event_of ev r \<longleftrightarrow> (\<exists>i e. r = event_row e i \<and> e = ev\<lparr>QE_Timestamp := QE_Timestamp e\<rparr>)"

lemma write_event_stores:
  assumes "unfailing (sv_store s)" and "hosts_known s" and "sv_events s = ev # evs"
  shows "\<exists>row. event_of ev row \<and> stored_events (write_event s) = stored_events s @ [row] \<and>
    sv_events (write_event s) = evs \<and> unfailing (sv_store (write_event s)) \<and> hosts_known (write_event s)"
proof -
  have "QE_HostID ev \<in> ho_id ` set (t_hosts (s_db (sv_store s)))"
    using assms(2,3) by (simp add: hosts_known_def)
  with assms(1) obtain t i e where "InsertQueryEvent ev (sv_store s) = (Inr (), t)" "unfailing t"
    "t_query_events (s_db t) = t_query_events (s_db (sv_store s)) @ [event_row e i]" "e = ev\<lparr>QE_Timestamp := QE_Timestamp e\<rparr>"
    "ho_id ` set (t_hosts (s_db t)) = ho_id ` set (t_hosts (s_db (sv_store s)))"
    by (rule InsertQueryEvent_stores)
  with assms show ?thesis
    by (intro exI [of _ "event_row e i"]) (auto simp: write_event_def on_store_def stored_events_def hosts_known_def event_of_def)
qed



end
