(* ===== verification/HTTP_Network.thy ===== *)
theory HTTP_Network
  imports Go_HTTP Config Store_HA_Sync Store_UniFi Store_Reports System_Stats DNS_Server
begin

text \<open>
  What the admin server of internal/htt_server/server.go knows of the machine and the network it runs in:
  its interfaces, its own base URL, the check of the node it asks to join, the configuration of an
  accepted secondary, and the search for other nodes.
\<close>

section \<open>The site\<close>

text \<open>
  The parameters of one request. The machine: interfaces (\<open>None\<close> when \<open>net.Interfaces\<close> or
  \<open>net.InterfaceAddrs\<close> fails), host name, readings of the operating system, zone of the clock. The
  libraries: cipher and JSON of stored requests, with the random bytes of this request. The network:
  resolver, list downloads, controller, peers, and what other nodes answer.
\<close>

record nic =
  nic_up :: bool
  nic_loopback :: bool
  nic_mac :: string
  nic_addrs :: "ip list option"

datatype probe_reply = BadProbe error | NoProbe string | ProbeReply int string "json option"

datatype peer_reply = BadRequest error | NoReply string | Reply int string "json option"

record site =
  si_cfg :: Config
  si_adminToken :: string
  si_version :: "string \<times> string \<times> string"
  si_nics :: "nic list option"
  si_addrs :: "ip list option"
  si_hostname :: "string option"
  si_os :: os_reading
  si_zone :: int
  si_cipher :: cipher
  si_codec :: request_codec
  si_nonce :: string
  si_rid :: string
  si_lookup :: "string \<Rightarrow> error + ip list"
  si_fetch :: "string \<Rightarrow> fetch"
  si_controller :: "string \<Rightarrow> string \<Rightarrow> unifi_reply"
  si_beat :: "string \<Rightarrow> string \<Rightarrow> heartbeat_reply"
  si_push :: "string \<Rightarrow> string \<Rightarrow> HASyncPayload \<Rightarrow> push_reply"
  si_probe :: "url \<Rightarrow> probe_reply"
  si_join :: "string \<Rightarrow> HAJoinRequestInput \<Rightarrow> peer_reply"
  si_configure :: "string \<Rightarrow> string \<Rightarrow> HASettings \<Rightarrow> peer_reply"
  si_nodes :: "string list \<Rightarrow> json option list"

text \<open>
  What the server sends to other nodes by itself, in order: the probe of a node to join, the request to
  join with the own admin token in it, and the configuration of an accepted secondary.
\<close>

datatype outgoing = Probe url | AskJoin string HAJoinRequestInput | Configure string string HASettings

section \<open>Addresses\<close>

definition isLocalInterfaceIP :: "site \<Rightarrow> ip \<Rightarrow> bool" where
  "isLocalInterfaceIP si ip =
     (case si_addrs si of None \<Rightarrow> False | Some addrs \<Rightarrow> list_ex (\<lambda>localIP. localIP \<noteq> [] \<and> ip_equal localIP ip) addrs)"

fun lan_address :: "nic list \<Rightarrow> string" where
  \<comment> \<open>the loop of \<open>firstLANIPv4\<close>: the first IPv4 address of an interface that is up and no loopback\<close>
  "lan_address [] = ''''"
| "lan_address (n # ns) =
     (if \<not> nic_up n \<or> nic_loopback n then lan_address ns
      else (case nic_addrs n of
          None \<Rightarrow> lan_address ns
        | Some addrs \<Rightarrow>
            (case find (\<lambda>ip. To4 ip \<noteq> [] \<and> \<not> IsLoopback (To4 ip)) addrs of
               None \<Rightarrow> lan_address ns
             | Some ip \<Rightarrow> ip_string (To4 ip))))"

definition firstLANIPv4 :: "site \<Rightarrow> string" where
  "firstLANIPv4 si = (case si_nics si of None \<Rightarrow> '''' | Some ns \<Rightarrow> lan_address ns)"

definition has_address :: "string \<Rightarrow> nic \<Rightarrow> bool" where
  "has_address ip n =
     (case nic_addrs n of None \<Rightarrow> False | Some addrs \<Rightarrow> list_ex (\<lambda>l. To4 l \<noteq> [] \<and> ip_string l = ip) addrs)"

definition macForIP :: "site \<Rightarrow> string \<Rightarrow> string" where
  "macForIP si ip =
     (if ip = '''' then ''''
      else (case si_nics si of
          None \<Rightarrow> ''''
        | Some ns \<Rightarrow> (case find (has_address ip) ns of None \<Rightarrow> '''' | Some n \<Rightarrow> nic_mac n)))"

definition hostnameOrDefault :: "site \<Rightarrow> string" where
  "hostnameOrDefault si =
     (case si_hostname si of None \<Rightarrow> ''TM-DNS'' | Some name \<Rightarrow> if trim_space name = '''' then ''TM-DNS'' else name)"

definition publicBaseURL :: "site \<Rightarrow> request \<Rightarrow> string" where
  "publicBaseURL si r =
     (let host = rq_Host r;
          host = (if (has_prefix host ''127.0.0.1:'' \<or> has_prefix host ''localhost:'' \<or> has_prefix host ''[::1]:'') \<and>
                     firstLANIPv4 si \<noteq> ''''
                  then JoinHostPort (firstLANIPv4 si)
                    (case SplitHostPort host of None \<Rightarrow> ''8080'' | Some (_, port) \<Rightarrow> if port = '''' then ''8080'' else port)
                  else host)
      in ''http://'' @ (if host = '''' then ''127.0.0.1:8080'' else host))"

section \<open>Asking a primary\<close>

definition pairing_address :: "site \<Rightarrow> ip \<Rightarrow> bool" where
  "pairing_address si ip \<longleftrightarrow>
     ip \<noteq> [] \<and> (IsLoopback ip \<or> IsPrivate ip \<or> IsLinkLocalUnicast ip \<or> isLocalInterfaceIP si ip)"

definition body_ok :: "json option \<Rightarrow> bool" where
  \<comment> \<open>\<open>Decode(&body)\<close> of \<open>struct { OK bool }\<close>, and \<open>body.OK\<close>\<close>
  "body_ok b =
     (case b of None \<Rightarrow> False
      | Some j \<Rightarrow> dec_struct [(''ok'', dec_bool)] j False = Some True)"

definition validateHAPairingTarget :: "site \<Rightarrow> url \<Rightarrow> error option \<times> outgoing list" where
  \<comment> \<open>the error, and the probe if it came to that\<close>
  "validateHAPairingTarget si u =
     (let host = u_Hostname u
      in if host = '''' then (Some (ErrMsg ''primary_url host is required''), [])
         else (case si_lookup si host of
             Inl e \<Rightarrow> (Some (ErrMsg (''primary_url host lookup failed: '' @ error_text e)), [])
           | Inr ips \<Rightarrow>
               if \<not> list_ex (pairing_address si) ips
               then (Some (ErrMsg ''primary_url must resolve to a local or private LAN address''), [])
               else (case si_probe si u of
                   BadProbe e \<Rightarrow> (Some e, [])
                 | NoProbe m \<Rightarrow> (Some (ErrMsg (''primary_url is not reachable as TM-DNS: '' @ m)), [Probe u])
                 | ProbeReply code status b \<Rightarrow>
                     (if code \<noteq> 200 then Some (ErrMsg (''primary_url discovery returned '' @ status))
                      else if \<not> body_ok b
                      then Some (ErrMsg ''primary_url did not return valid TM-DNS discovery metadata'')
                      else None, [Probe u]))))"

definition join_payload :: "site \<Rightarrow> request \<Rightarrow> HAJoinRequestInput" where
  "join_payload si r =
     (let ip = firstLANIPv4 si
      in \<lparr>JI_NodeName = hostnameOrDefault si, JI_NodeURL = publicBaseURL si r, JI_NodeIP = ip,
          JI_NodeMAC = macForIP si ip, JI_NodeHostname = hostnameOrDefault si, JI_NodeRole = ''secondary'',
          JI_NodeVersion = fst (si_version si), JI_RequesterToken = si_adminToken si\<rparr>)"

section \<open>Configuring a secondary\<close>

definition secondary_settings :: "site \<Rightarrow> string \<Rightarrow> HASettings" where
  "secondary_settings si primaryURL =
     \<lparr>HA_Enabled = True, HA_Role = ''secondary'', HA_PeerName = ''Primary TM-DNS'', HA_PeerURL = primaryURL,
      HA_PeerToken = si_adminToken si, HA_HasPeerToken = False, HA_LastHeartbeat = '''', HA_LastSync = '''',
      HA_LastStatus = ''''\<rparr>"

definition configureAcceptedSecondary :: "site \<Rightarrow> HAJoinRequest \<Rightarrow> string \<Rightarrow> error option \<times> outgoing list" where
  "configureAcceptedSecondary si accepted primaryURL =
     (if JR_RequesterToken accepted = '''' then (None, [])
      else let url = JR_NodeURL accepted @ ''/api/ha/settings''; payload = secondary_settings si primaryURL
           in (case si_configure si url (JR_RequesterToken accepted) payload of
                 BadRequest e \<Rightarrow> (Some e, [])
               | NoReply m \<Rightarrow> (Some (ErrMsg m), [Configure url (JR_RequesterToken accepted) payload])
               | Reply code status _ \<Rightarrow>
                   (if code \<noteq> 200 then Some (ErrMsg status) else None,
                    [Configure url (JR_RequesterToken accepted) payload])))"

section \<open>Looking for nodes\<close>

definition discovery_targets :: "string \<Rightarrow> string list" where
  \<comment> \<open>the addresses of the same /24, without the own one\<close>
  "discovery_targets ip =
     (let prefix = join (take 3 (split_on ip (CHR ''.''))) ''.''
      in filter (\<lambda>target. \<not> contains target (''://'' @ ip @ '':''))
           (map (\<lambda>i. ''http://'' @ prefix @ ''.'' @ digits i @ '':8080/api/ha/discovery'') [1..<255]))"

definition node_of :: "json option \<Rightarrow> (string \<times> json) list option" where
  \<comment> \<open>the body decoded into \<open>map[string]any\<close>; nothing on an error or \<open>null\<close>\<close>
  "node_of b = (case b of Some (JsObj kvs) \<Rightarrow> Some kvs | _ \<Rightarrow> None)"

definition discoverHANodes :: "site \<Rightarrow> (string \<times> json) list list" where
  \<comment> \<open>\<open>si_nodes\<close> is what came back in order of arrival, \<open>None\<close> for a failure, up to the first pause of 900 ms\<close>
  "discoverHANodes si =
     (let ip = firstLANIPv4 si
      in if ip = '''' \<or> length (split_on ip (CHR ''.'')) \<noteq> 4 then []
         else List.map_filter node_of (take 253 (si_nodes si (discovery_targets ip))))"

end
