(* ===== verification/HTTP_Reply.thy ===== *)
theory HTTP_Reply
  imports HTTP_Network
begin

text \<open>
  The replies of the admin server: one constructor for each kind of value that a handler gives to
  \<open>writeJSON\<close>, with \<open>writeJSON\<close>, \<open>writeError\<close> and \<open>http.Error\<close> of internal/htt_server/server.go.
\<close>

record shown_config =
  \<comment> \<open>the part of the configuration that the diagnostics show\<close>
  sc_dns_addr :: string
  sc_http_addr :: string
  sc_upstream :: string
  sc_event_queue_cap :: int
  sc_db_path :: string

datatype payload =
    Text string
  | IndexPage
  | MovedPermanently
  | Aborted
  | OkTrue
  | Authenticated bool
  | Health ServerStatus string "string \<times> string \<times> string"
  | DashboardReply Dashboard ServerStatus Stats "string \<times> string \<times> string" HAHealth
  | Diagnostics bool ServerStatus Dashboard Stats HAHealth "string \<times> string \<times> string" shown_config "string list"
  | Events "QueryEvent list"
  | HostList "host_row list"
  | Detail HostDetail
  | RuleList "Rule list"
  | OneRule Rule
  | PresetList "BlocklistPreset list"
  | OnePreset BlocklistPreset
  | SourceList "BlocklistSource list"
  | OneSource BlocklistSource
  | Refreshed "BlocklistRefreshResult list"
  | RecordList "StaticRecord list"
  | Report HostReport
  | AuditTrail "audit_row list"
  | UniFi UniFiSettings
  | UniFiResult UniFiImportResult
  | RetentionReply RetentionSettings
  | Removed nat
  | Pair HASettings
  | Heartbeat "string \<times> string \<times> string" HAHealth
  | Discovery string string string string string bool bool "string \<times> string \<times> string"
  | Nodes "(string \<times> json) list list"
  | Proxied "json option"
  | JoinRequestList "HAJoinRequest list"
  | OneJoinRequest HAJoinRequest
  | Accepted HAJoinRequest
  | PeerStatus HAStatus
  | SyncResult HASyncResult

text \<open>
  A reply: the status, what it does to the cookie \<open>tmdns_admin\<close> if anything, the body.
  \<open>Aborted\<close> is the closed connection after a handler has panicked.
\<close>

datatype cookie = SetTo string | Cleared

record response =
  rs_Code :: int
  rs_Cookie :: "cookie option"
  rs_Body :: payload

definition http_error :: "string \<Rightarrow> int \<Rightarrow> response" where
  "http_error m code = \<lparr>rs_Code = code, rs_Cookie = None, rs_Body = Text m\<rparr>"

definition writeJSON :: "payload \<Rightarrow> response" where
  "writeJSON p = \<lparr>rs_Code = 200, rs_Cookie = None, rs_Body = p\<rparr>"

definition writeError :: "error \<Rightarrow> response" where
  \<comment> \<open>a panic never comes here: it unwinds to the server, which closes the connection\<close>
  "writeError e = (if e = Panic then \<lparr>rs_Code = 0, rs_Cookie = None, rs_Body = Aborted\<rparr> else http_error (error_text e) 500)"

definition not_allowed :: response where
  "not_allowed = http_error ''method not allowed'' 405"

definition not_found :: response where
  \<comment> \<open>\<open>http.NotFound\<close>\<close>
  "not_found = http_error ''404 page not found'' 404"

definition unauthorized :: response where
  "unauthorized = http_error ''unauthorized'' 401"

text \<open>\<open>if err != nil { writeError(w, err); return }; writeJSON(w, ...)\<close>.\<close>

definition respond :: "('a \<Rightarrow> payload) \<Rightarrow> (error + 'a) \<times> 's \<Rightarrow> response \<times> 's" where
  "respond f x = (case x of (Inl e, s) \<Rightarrow> (writeError e, s) | (Inr a, s) \<Rightarrow> (writeJSON (f a), s))"

definition decoded :: "'b decoder \<Rightarrow> 'b \<Rightarrow> request \<Rightarrow> ('b \<Rightarrow> 's \<Rightarrow> response \<times> 's) \<Rightarrow> 's \<Rightarrow> response \<times> 's" where
  \<comment> \<open>\<open>if err := json.NewDecoder(r.Body).Decode(&body); err != nil { writeError(w, err); return }\<close>\<close>
  "decoded d zero r next s =
     (case (case rq_Body r of None \<Rightarrow> None | Some j \<Rightarrow> d j zero) of
        None \<Rightarrow> (writeError (ErrMsg ''invalid JSON''), s)
      | Some body \<Rightarrow> next body s)"

section \<open>Secrets\<close>

text \<open>
  The values that a reply may carry and that must not leave the server: the token for the peer, the key
  of the controller, the tokens of nodes that ask to join.
\<close>

fun secret_free :: "payload \<Rightarrow> bool" where
  "secret_free (Pair h) = (HA_PeerToken h = '''')"
| "secret_free (UniFi u) = (UF_APIKey u = '''')"
| "secret_free (JoinRequestList rs) = (\<forall>r \<in> set rs. JR_RequesterToken r = '''')"
| "secret_free (OneJoinRequest r) = (JR_RequesterToken r = '''')"
| "secret_free (Accepted r) = (JR_RequesterToken r = '''')"
| "secret_free _ = True"

definition safe :: "response \<times> 's \<Rightarrow> bool" where
  "safe x \<longleftrightarrow> secret_free (rs_Body (fst x))"

lemma safe_simps [simp]:
  "safe (http_error m code, s)" "safe (writeError e, s)" "safe (not_allowed, s)" "safe (not_found, s)"
  "safe (unauthorized, s)" "safe (writeJSON p, s) = secret_free p"
  by (simp_all add: safe_def http_error_def writeError_def not_allowed_def not_found_def unauthorized_def writeJSON_def)

lemma safe_respond: "(\<And>a s. x = (Inr a, s) \<Longrightarrow> secret_free (f a)) \<Longrightarrow> safe (respond f x)"
  by (auto simp: respond_def split: prod.splits sum.splits)

lemma safe_decoded: "(\<And>b. safe (next b s)) \<Longrightarrow> safe (decoded d zero r next s)"
  by (auto simp: decoded_def split: option.splits)

end
