(* ===== verification/HTTP_Auth.thy ===== *)
theory HTTP_Auth
  imports HTTP_Reply Go_Base64
begin

text \<open>
  Who may use the admin API: \<open>resolveAdminToken\<close>, \<open>authMiddleware\<close> with its tests, and the three handlers
  under /api/auth of internal/htt_server/server.go.
\<close>

section \<open>The admin token\<close>

definition token_path :: "Config \<Rightarrow> string" where
  "token_path cfg =
     (if AdminTokenPath cfg = '''' then Join (Dir (DBPath cfg)) ''admin-token.txt'' else AdminTokenPath cfg)"

text \<open>
  \<open>ReadFile\<close> is \<open>None\<close> on any error, \<open>mkdir\<close> and \<open>writes\<close> say whether the directory can be made and the
  file written, \<open>random\<close> is what the random source gives. The second value is what was written where.
\<close>

definition resolveAdminToken ::
  "Config \<Rightarrow> (string \<Rightarrow> string option) \<Rightarrow> bool \<Rightarrow> string option \<Rightarrow> bool \<Rightarrow> (error + string) \<times> (string \<times> string) option" where
  "resolveAdminToken cfg ReadFile mkdir random writes =
     (if trim_space (AdminToken cfg) \<noteq> '''' then (Inr (trim_space (AdminToken cfg)), None)
      else let path = token_path cfg
           in (case ReadFile path of
                 Some text \<Rightarrow> (Inr (trim_space text), None)
               | None \<Rightarrow>
                   if Dir path \<noteq> ''.'' \<and> Dir path \<noteq> '''' \<and> \<not> mkdir then (Inl ErrDB, None)
                   else (case random of
                       None \<Rightarrow> (Inl ErrDB, None)
                     | Some raw \<Rightarrow>
                         let token = RawURLEncode raw
                         in if writes then (Inr token, Some (path, token @ [CHR 0x0A])) else (Inl ErrDB, None))))"

definition admin_token :: "error + string \<Rightarrow> string" where
  \<comment> \<open>\<open>New\<close> keeps the empty token when there is an error, and only logs it\<close>
  "admin_token x = (case x of Inl _ \<Rightarrow> '''' | Inr token \<Rightarrow> token)"

section \<open>Tests on a request\<close>

definition isPublicPath :: "string \<Rightarrow> bool" where
  "isPublicPath path \<longleftrightarrow> path = ''/'' \<or> path = ''/api/health'' \<or> path = ''/api/auth/status'' \<or>
     path = ''/api/auth/login'' \<or> path = ''/api/ha/discovery''"

definition isProtectedHAPath :: "string \<Rightarrow> bool" where
  "isProtectedHAPath path \<longleftrightarrow> path = ''/api/ha/heartbeat'' \<or> path = ''/api/ha/import''"

definition cookie_of :: "request \<Rightarrow> string \<Rightarrow> string option" where
  \<comment> \<open>\<open>r.Cookie(name)\<close>\<close>
  "cookie_of r name = map_of (rq_Cookies r) name"

definition authorized :: "site \<Rightarrow> request \<Rightarrow> bool \<times> bool" where
  \<comment> \<open>whether the token is right, and whether it came in the cookie\<close>
  "authorized si r =
     (if si_adminToken si = '''' then (False, False)
      else let token = trim_space (trim_prefix (rq_Header r ''Authorization'') ''Bearer '');
               (token, cookieAuth) = (if token = '''' then (case cookie_of r ''tmdns_admin'' of
                   Some v \<Rightarrow> (v, True) | None \<Rightarrow> (token, False)) else (token, False))
           in (token = si_adminToken si, cookieAuth))"

definition isLoopbackRequest :: "site \<Rightarrow> request \<Rightarrow> bool" where
  "isLoopbackRequest si r =
     (let host = (case SplitHostPort (rq_RemoteAddr r) of None \<Rightarrow> rq_RemoteAddr r | Some (host, _) \<Rightarrow> host);
          ip = ParseIP host
      in ip \<noteq> [] \<and> (IsLoopback ip \<or> isLocalInterfaceIP si ip))"

definition sameOriginUnsafeRequest :: "request \<Rightarrow> bool" where
  "sameOriginUnsafeRequest r =
     (if rq_Method r = ''GET'' \<or> rq_Method r = ''HEAD'' \<or> rq_Method r = ''OPTIONS'' then True
      else let origin = (if rq_Header r ''Origin'' = '''' then rq_Header r ''Referer'' else rq_Header r ''Origin'')
           in if origin = '''' then True
              else (case url_Parse origin of None \<Rightarrow> False | Some u \<Rightarrow> equal_fold (u_Host u) (rq_Host r)))"

definition authMiddleware :: "site \<Rightarrow> (request \<Rightarrow> 's \<Rightarrow> response \<times> 's) \<Rightarrow> request \<Rightarrow> 's \<Rightarrow> response \<times> 's" where
  "authMiddleware si next r s =
     (case authorized si r of (okay, cookieAuth) \<Rightarrow>
        if isProtectedHAPath (rq_Path r) \<and> \<not> okay then (unauthorized, s)
        else if isPublicPath (rq_Path r) \<or> (rq_Path r = ''/api/ha/join-requests'' \<and> rq_Method r = ''POST'') \<or>
                isLoopbackRequest si r \<or> okay
        then (if okay \<and> cookieAuth \<and> \<not> sameOriginUnsafeRequest r
              then (http_error ''invalid request origin'' 403, s) else next r s)
        else if has_prefix (rq_Path r) ''/api/'' then (unauthorized, s)
        else next r s)"

section \<open>The handlers\<close>

definition authStatus :: "site \<Rightarrow> request \<Rightarrow> 's \<Rightarrow> response \<times> 's" where
  "authStatus si r s = (writeJSON (Authenticated (fst (authorized si r) \<or> isLoopbackRequest si r)), s)"

definition authLogin :: "site \<Rightarrow> request \<Rightarrow> 's \<Rightarrow> response \<times> 's" where
  "authLogin si r s =
     (if rq_Method r \<noteq> ''POST'' then (not_allowed, s)
      else decoded (dec_struct [(''token'', dec_string)]) '''' r (\<lambda>token s.
        if si_adminToken si = '''' then (http_error ''admin token unavailable'' 503, s)
        else if trim_space token \<noteq> si_adminToken si then (unauthorized, s)
        else ((writeJSON OkTrue)\<lparr>rs_Cookie := Some (SetTo (cookie_value (si_adminToken si)))\<rparr>, s)) s)"

definition authLogout :: "request \<Rightarrow> 's \<Rightarrow> response \<times> 's" where
  "authLogout r s = ((writeJSON OkTrue)\<lparr>rs_Cookie := Some Cleared\<rparr>, s)"

section \<open>The token of a session\<close>

lemma url_alphabet_plain: "list_all (\<lambda>c. valid_cookie_byte c \<and> \<not> is_space c) url_alphabet"
  by (simp add: url_alphabet_def valid_cookie_byte_def is_space_def Let_def)

lemma url_alphabet_valid: "i < 64 \<Longrightarrow> valid_cookie_byte (url_alphabet ! i) \<and> \<not> is_space (url_alphabet ! i)"
proof -
  have "length url_alphabet = 64"
    by (simp add: url_alphabet_def)
  then show "i < 64 \<Longrightarrow> valid_cookie_byte (url_alphabet ! i) \<and> \<not> is_space (url_alphabet ! i)"
    using url_alphabet_plain by (simp add: list_all_length)
qed

lemma url_chars:
  assumes "\<forall>i \<in> set is. i < 64" and "c \<in> set (map ((!) url_alphabet) is)"
  shows "valid_cookie_byte c \<and> \<not> is_space c"
  using assms url_alphabet_valid by auto

lemma url_encode_chars: "c \<in> set (b64_encode url_alphabet False s) \<Longrightarrow> valid_cookie_byte c \<and> \<not> is_space c"
proof (induction "url_alphabet" False s rule: b64_encode.induct)
  case (1 a b d rest)
  have less: "\<forall>i \<in> set (sextets (code_of a) (code_of b) (code_of d)). i < 64"
    by (intro sextets_less) auto
  from 1(2) have "c \<in> set (map ((!) url_alphabet) (sextets (code_of a) (code_of b) (code_of d))) \<or>
      c \<in> set (b64_encode url_alphabet False rest)"
    by simp
  then show ?case
    using 1(1) url_chars [OF less] by blast
next
  case (2 a b)
  have less: "\<forall>i \<in> set (take 3 (sextets (code_of a) (code_of b) 0)). i < 64"
    using sextets_less [of "code_of a" "code_of b" 0] by (auto dest: in_set_takeD)
  show ?case
    using 2 url_chars [OF less] by simp
next
  case (3 a)
  have less: "\<forall>i \<in> set (take 2 (sextets (code_of a) 0 0)). i < 64"
    using sextets_less [of "code_of a" 0 0] by (auto dest: in_set_takeD)
  show ?case
    using 3 url_chars [OF less] by simp
qed simp

lemma RawURLEncode_plain:
  "list_all valid_cookie_byte (RawURLEncode s)" "\<forall>c \<in> set (RawURLEncode s). \<not> is_space c"
  using url_encode_chars by (auto simp: RawURLEncode_def list_all_iff)

lemma RawURLEncode_nonempty: "s \<noteq> [] \<Longrightarrow> RawURLEncode s \<noteq> []"
  by (cases "(url_alphabet, False, s)" rule: b64_encode.cases) (auto simp: RawURLEncode_def sextets_def)

lemma authorized_by_cookie:
  assumes "rq_Header r ''Authorization'' = ''''" and "cookie_of r ''tmdns_admin'' = Some v" and "si_adminToken si \<noteq> ''''"
  shows "authorized si r = (v = si_adminToken si, True)"
  using assms by (simp add: authorized_def trim_prefix_def has_prefix_def trim_space_def)

lemma authLogin_cookie:
  assumes "authLogin si login s = (rs, t)" and "rs_Cookie rs = Some (SetTo v)"
  shows "v = cookie_value (si_adminToken si)" and "si_adminToken si \<noteq> ''''"
  using assms
  by (auto simp: authLogin_def decoded_def not_allowed_def http_error_def unauthorized_def writeError_def
      writeJSON_def split: if_splits option.splits)

text \<open>
  C16. A login is a session exactly when the admin token can be a cookie: the cookie that the login sets,
  sent back with a request that has no Authorization header, is accepted if and only if every byte of
  the token may stand in a cookie. A token with a quote, a semicolon, a backslash or a byte outside ASCII
  logs in with success and is refused at the next request.
\<close>
theorem login_cookie_authorises_iff:
  assumes "authLogin si login s = (rs, t)" and "rs_Cookie rs = Some (SetTo v)"
    and "rq_Header r ''Authorization'' = ''''" and "cookie_of r ''tmdns_admin'' = Some v"
  shows "fst (authorized si r) \<longleftrightarrow> list_all valid_cookie_byte (si_adminToken si)"
  using authLogin_cookie [OF assms(1,2)] authorized_by_cookie [OF assms(3,4)]
  by (simp add: cookie_value_id)

text \<open>
  The generated admin token survives a restart and suits a session: what the first start writes into
  the token path is read back as the same token by every later start, whatever the random source then
  gives; the token is not empty, and all its bytes may stand in a cookie.
\<close>
lemma admin_token_survives_restart:
  assumes "resolveAdminToken cfg ReadFile mkdir (Some random) writes = (Inr token, Some (path, text))"
    and "ReadFile' path = Some text" and "random \<noteq> []"
  shows "resolveAdminToken cfg ReadFile' mkdir' random' writes' = (Inr token, None) \<and>
    token \<noteq> '''' \<and> list_all valid_cookie_byte token"
proof -
  from assms(1) have t: "token = RawURLEncode random" "text = token @ [CHR 0x0A]" "path = token_path cfg"
    and cfg: "trim_space (AdminToken cfg) = ''''"
    by (auto simp: resolveAdminToken_def Let_def split: if_splits option.splits)
  have "trim_space text = token"
    unfolding t(2) by (rule trim_space_line) (simp add: t(1) RawURLEncode_plain)
  with assms(2) cfg have "resolveAdminToken cfg ReadFile' mkdir' random' writes' = (Inr token, None)"
    by (simp add: resolveAdminToken_def Let_def t(3) [symmetric])
  then show ?thesis
    using RawURLEncode_nonempty [OF assms(3)] RawURLEncode_plain(1) by (simp add: t(1))
qed
section \<open>Examples\<close>

definition sample_cfg :: Config where
  "sample_cfg = sample_config\<lparr>DBPath := ''data/tmdns.db''\<rparr>"

definition sample_site :: "string \<Rightarrow> site" where
  \<comment> \<open>a node with the admin token given, one interface, and a network where nobody answers\<close>
  "sample_site token = \<lparr>si_cfg = sample_cfg, si_adminToken = token, si_version = (''dev'', ''unknown'', ''unknown''),
     si_nics = Some [\<lparr>nic_up = True, nic_loopback = False, nic_mac = ''02:00:00:00:00:01'', nic_addrs = Some [[192, 168, 1, 2]]\<rparr>],
     si_addrs = Some [[127, 0, 0, 1], [192, 168, 1, 2]], si_hostname = Some ''node'', si_os = sample_reading, si_zone = 0,
     si_cipher = toy_cipher, si_codec = toy_codec, si_nonce = sample_nonce, si_rid = ''r1'',
     si_lookup = (\<lambda>_. Inl (ErrMsg ''no such host'')), si_fetch = (\<lambda>_. FetchFailed ''no route''),
     si_controller = (\<lambda>_ _. NoUniFi ''no route''), si_beat = (\<lambda>_ _. NoAnswer ''no route''),
     si_push = (\<lambda>_ _ _. PushNoAnswer ''no route''), si_probe = (\<lambda>_. NoProbe ''no route''),
     si_join = (\<lambda>_ _. NoReply ''no route''), si_configure = (\<lambda>_ _ _. NoReply ''no route''), si_nodes = (\<lambda>_. [])\<rparr>"

definition sample_request :: "string \<Rightarrow> string \<Rightarrow> string \<Rightarrow> json option \<Rightarrow> request" where
  "sample_request remote meth path b = \<lparr>rq_Method = meth, rq_EscapedPath = path, rq_Query = [],
     rq_Host = ''192.168.1.2:8080'', rq_RemoteAddr = remote, rq_Header = (\<lambda>_. ''''), rq_Cookies = [], rq_Body = b\<rparr>"

definition login_request :: request where
  "login_request = sample_request ''192.168.1.9:5000'' ''POST'' ''/api/auth/login'' (Some (JsObj [(''token'', JsStr ''a;b'')]))"

lemma login_cookie_authorises_iff_witness:
  "rs_Cookie (fst (authLogin (sample_site ''a;b'') login_request ())) = Some (SetTo ''ab'') \<and>
   \<not> fst (authorized (sample_site ''a;b'') (login_request\<lparr>rq_Cookies := [(''tmdns_admin'', ''ab'')]\<rparr>))"
proof -
  have c: "cookie_value ''a;b'' = ''ab''" "\<not> list_all valid_cookie_byte ''a;b''"
    by (simp_all add: cookie_value_def valid_cookie_byte_def)
  have d: "decoded (dec_struct [(''token'', dec_string)]) '''' login_request k s = k ''a;b'' s" for k :: "string \<Rightarrow> unit \<Rightarrow> response \<times> unit" and s
    by (simp add: decoded_def login_request_def sample_request_def dec_struct_def dec_string_def)
  have t: "trim_space ''a;b'' = ''a;b''"
    by code_simp
  have "authLogin (sample_site ''a;b'') login_request () = ((writeJSON OkTrue)\<lparr>rs_Cookie := Some (SetTo ''ab'')\<rparr>, ())"
    unfolding authLogin_def d
    by (simp add: login_request_def sample_request_def sample_site_def t c)
  then show ?thesis
    using login_cookie_authorises_iff [of "sample_site ''a;b''" login_request "()" _ _ "''ab''" "login_request\<lparr>rq_Cookies := [(''tmdns_admin'', ''ab'')]\<rparr>"] c
    by (simp add: sample_site_def login_request_def sample_request_def cookie_of_def writeJSON_def)
qed

lemma admin_token_survives_restart_witness:
  "resolveAdminToken sample_cfg (\<lambda>_. None) True (Some ''key'') True = (Inr ''a2V5'', Some (''data/admin-token.txt'', ''a2V5'' @ [CHR 0x0A])) \<and>
   resolveAdminToken sample_cfg (\<lambda>_. Some (''a2V5'' @ [CHR 0x0A])) True None False = (Inr ''a2V5'', None)"
proof -
  have first: "resolveAdminToken sample_cfg (\<lambda>_. None) True (Some ''key'') True = (Inr ''a2V5'', Some (''data/admin-token.txt'', ''a2V5'' @ [CHR 0x0A]))"
    by code_simp
  then show ?thesis
    using admin_token_survives_restart [OF first, of "\<lambda>_. Some (''a2V5'' @ [CHR 0x0A])" True None False] by simp
qed

end
