(* ===== verification/HTTP_Decode.thy ===== *)
theory HTTP_Decode
  imports HTTP_Reply
begin

text \<open>
  The bodies of requests: the structs of internal/store/store.go with their JSON names, and the structs that
  the handlers of internal/htt_server/server.go declare themselves. A body is decoded over the zero value.
\<close>

section \<open>Zero values\<close>

definition zero_record :: StaticRecord where
  "zero_record = \<lparr>SR_ID = 0, SR_Name = '''', SR_Type = '''', SR_Value = '''', SR_TTL = 0, SR_CreatedAt = zero_time\<rparr>"

definition zero_rule :: Rule where
  "zero_rule = \<lparr>R_ID = 0, R_Scope = '''', R_Target = '''', R_Action = '''', R_Enabled = False, R_ExpiresAt = None,
     R_HitCount = 0, R_LastHitAt = None, R_Note = '''', R_CreatedAt = zero_time\<rparr>"

definition zero_preset :: BlocklistPreset where
  "zero_preset = \<lparr>BP_ID = '''', BP_Name = '''', BP_Tier = '''', BP_Description = '''', BP_HomeURL = '''', BP_SourceURL = '''',
     BP_Enabled = False\<rparr>"

definition zero_source :: BlocklistSource where
  "zero_source = \<lparr>BS_ID = 0, BS_Name = '''', BS_URL = '''', BS_Format = '''', BS_Enabled = False, BS_LastStatus = '''',
     BS_LastChecked = '''', BS_CreatedAt = ''''\<rparr>"

definition zero_retention :: RetentionSettings where
  "zero_retention = \<lparr>RS_Days = 0, RS_LastPurge = ''''\<rparr>"

definition zero_unifi :: UniFiSettings where
  "zero_unifi = \<lparr>UF_Enabled = False, UF_BaseURL = '''', UF_Site = '''', UF_APIKey = '''', UF_HasAPIKey = False,
     UF_LastImport = '''', UF_LastStatus = ''''\<rparr>"

definition zero_ha :: HASettings where
  "zero_ha = \<lparr>HA_Enabled = False, HA_Role = '''', HA_PeerName = '''', HA_PeerURL = '''', HA_PeerToken = '''',
     HA_HasPeerToken = False, HA_LastHeartbeat = '''', HA_LastSync = '''', HA_LastStatus = ''''\<rparr>"

definition zero_join :: HAJoinRequestInput where
  "zero_join = \<lparr>JI_NodeName = '''', JI_NodeURL = '''', JI_NodeIP = '''', JI_NodeMAC = '''', JI_NodeHostname = '''',
     JI_NodeRole = '''', JI_NodeVersion = '''', JI_RequesterToken = ''''\<rparr>"

definition zero_payload :: HASyncPayload where
  "zero_payload = \<lparr>HP_StaticRecords = [], HP_Rules = [], HP_BlocklistPresets = [], HP_BlocklistSources = [],
     HP_RetentionSettings = zero_retention, HP_SyncedAt = ''''\<rparr>"

section \<open>Decoders\<close>

definition dec_StaticRecord :: "StaticRecord decoder" where
  "dec_StaticRecord = dec_struct [(''id'', member SR_ID SR_ID_update dec_int), (''name'', member SR_Name SR_Name_update dec_string),
     (''type'', member SR_Type SR_Type_update dec_string), (''value'', member SR_Value SR_Value_update dec_string),
     (''ttl'', member SR_TTL SR_TTL_update dec_int), (''created_at'', member SR_CreatedAt SR_CreatedAt_update dec_time)]"

definition dec_Rule :: "Rule decoder" where
  "dec_Rule = dec_struct [(''id'', member R_ID R_ID_update dec_int), (''scope'', member R_Scope R_Scope_update dec_string),
     (''target'', member R_Target R_Target_update dec_string), (''action'', member R_Action R_Action_update dec_string),
     (''enabled'', member R_Enabled R_Enabled_update dec_bool),
     (''expires_at'', member R_ExpiresAt R_ExpiresAt_update (dec_pointer zero_time dec_time)),
     (''hit_count'', member R_HitCount R_HitCount_update dec_int),
     (''last_hit_at'', member R_LastHitAt R_LastHitAt_update (dec_pointer zero_time dec_time)),
     (''note'', member R_Note R_Note_update dec_string), (''created_at'', member R_CreatedAt R_CreatedAt_update dec_time)]"

definition dec_BlocklistPreset :: "BlocklistPreset decoder" where
  "dec_BlocklistPreset = dec_struct [(''id'', member BP_ID BP_ID_update dec_string), (''name'', member BP_Name BP_Name_update dec_string),
     (''tier'', member BP_Tier BP_Tier_update dec_string), (''description'', member BP_Description BP_Description_update dec_string),
     (''home_url'', member BP_HomeURL BP_HomeURL_update dec_string),
     (''source_url'', member BP_SourceURL BP_SourceURL_update dec_string), (''enabled'', member BP_Enabled BP_Enabled_update dec_bool)]"

definition dec_BlocklistSource :: "BlocklistSource decoder" where
  "dec_BlocklistSource = dec_struct [(''id'', member BS_ID BS_ID_update dec_int), (''name'', member BS_Name BS_Name_update dec_string),
     (''url'', member BS_URL BS_URL_update dec_string), (''format'', member BS_Format BS_Format_update dec_string),
     (''enabled'', member BS_Enabled BS_Enabled_update dec_bool), (''last_status'', member BS_LastStatus BS_LastStatus_update dec_string),
     (''last_checked'', member BS_LastChecked BS_LastChecked_update dec_string),
     (''created_at'', member BS_CreatedAt BS_CreatedAt_update dec_string)]"

definition dec_RetentionSettings :: "RetentionSettings decoder" where
  "dec_RetentionSettings = dec_struct [(''days'', member RS_Days RS_Days_update dec_int),
     (''last_purge'', member RS_LastPurge RS_LastPurge_update dec_string)]"

definition dec_UniFiSettings :: "UniFiSettings decoder" where
  "dec_UniFiSettings = dec_struct [(''enabled'', member UF_Enabled UF_Enabled_update dec_bool),
     (''base_url'', member UF_BaseURL UF_BaseURL_update dec_string), (''site'', member UF_Site UF_Site_update dec_string),
     (''api_key'', member UF_APIKey UF_APIKey_update dec_string), (''has_api_key'', member UF_HasAPIKey UF_HasAPIKey_update dec_bool),
     (''last_import'', member UF_LastImport UF_LastImport_update dec_string),
     (''last_status'', member UF_LastStatus UF_LastStatus_update dec_string)]"

definition dec_HASettings :: "HASettings decoder" where
  "dec_HASettings = dec_struct [(''enabled'', member HA_Enabled HA_Enabled_update dec_bool), (''role'', member HA_Role HA_Role_update dec_string),
     (''peer_name'', member HA_PeerName HA_PeerName_update dec_string), (''peer_url'', member HA_PeerURL HA_PeerURL_update dec_string),
     (''peer_token'', member HA_PeerToken HA_PeerToken_update dec_string),
     (''has_peer_token'', member HA_HasPeerToken HA_HasPeerToken_update dec_bool),
     (''last_heartbeat'', member HA_LastHeartbeat HA_LastHeartbeat_update dec_string),
     (''last_sync'', member HA_LastSync HA_LastSync_update dec_string), (''last_status'', member HA_LastStatus HA_LastStatus_update dec_string)]"

definition dec_HAJoinRequestInput :: "HAJoinRequestInput decoder" where
  "dec_HAJoinRequestInput = dec_struct [(''node_name'', member JI_NodeName JI_NodeName_update dec_string),
     (''node_url'', member JI_NodeURL JI_NodeURL_update dec_string), (''node_ip'', member JI_NodeIP JI_NodeIP_update dec_string),
     (''node_mac'', member JI_NodeMAC JI_NodeMAC_update dec_string), (''node_hostname'', member JI_NodeHostname JI_NodeHostname_update dec_string),
     (''node_role'', member JI_NodeRole JI_NodeRole_update dec_string), (''node_version'', member JI_NodeVersion JI_NodeVersion_update dec_string),
     (''requester_token'', member JI_RequesterToken JI_RequesterToken_update dec_string)]"

definition dec_HASyncPayload :: "HASyncPayload decoder" where
  "dec_HASyncPayload = dec_struct [
     (''static_records'', member HP_StaticRecords HP_StaticRecords_update (dec_slice zero_record dec_StaticRecord)),
     (''rules'', member HP_Rules HP_Rules_update (dec_slice zero_rule dec_Rule)),
     (''blocklist_presets'', member HP_BlocklistPresets HP_BlocklistPresets_update (dec_slice zero_preset dec_BlocklistPreset)),
     (''blocklist_sources'', member HP_BlocklistSources HP_BlocklistSources_update (dec_slice zero_source dec_BlocklistSource)),
     (''retention_settings'', member HP_RetentionSettings HP_RetentionSettings_update dec_RetentionSettings),
     (''synced_at'', member HP_SyncedAt HP_SyncedAt_update dec_string)]"

text \<open>Structs with one or two fields that a handler declares: a text or a flag, two texts, three texts.\<close>

definition dec_text :: "string \<Rightarrow> string decoder" where
  "dec_text name = dec_struct [(name, dec_string)]"

definition dec_flag :: "string \<Rightarrow> bool decoder" where
  "dec_flag name = dec_struct [(name, dec_bool)]"

definition dec_target :: "(string \<times> string) decoder" where
  \<comment> \<open>\<open>Target\<close> and \<open>Note\<close>\<close>
  "dec_target = dec_struct [(''target'', member fst apfst dec_string), (''note'', member snd apsnd dec_string)]"

definition dec_new_source :: "(string \<times> string \<times> string) decoder" where
  \<comment> \<open>\<open>Name\<close>, \<open>URL\<close> and \<open>Format\<close>\<close>
  "dec_new_source = dec_struct [(''name'', member fst apfst dec_string),
     (''url'', member (fst \<circ> snd) (apsnd \<circ> apfst) dec_string), (''format'', member (snd \<circ> snd) (apsnd \<circ> apsnd) dec_string)]"

lemma dec_HASettings_example:
  "dec_HASettings (JsObj [(''Enabled'', JsBool True), (''peer_TOKEN'', JsStr ''t''), (''role'', JsNull), (''more'', JsNum ''1'')]) zero_ha =
   Some (zero_ha\<lparr>HA_Enabled := True, HA_PeerToken := ''t''\<rparr>)"
  by code_simp

lemma dec_mismatch_example: "dec_flag ''enabled'' (JsObj [(''enabled'', JsStr ''true'')]) False = None"
  by code_simp

end
