(* ===== verification/HTTP_Handlers.thy ===== *)
theory HTTP_Handlers
  imports HTTP_Auth HTTP_Decode
begin

text \<open>
  The handlers of the admin API in internal/htt_server/server.go, each with its test of the method, the
  parsing of its path or body, its calls to the store and its reply. The state is that of the DNS server
  with the store in it, the sampler with the last statistics, and what was sent to other nodes.
\<close>

record admin =
  ad_dns :: Server
  ad_sampler :: Sampler
  ad_statAt :: instant
  ad_stat :: Stats
  ad_sent :: "outgoing list"

definition no_stats :: Stats where
  "no_stats = \<lparr>CPUPercent = 0, ResidentMB = 0, HeapMB = 0, Goroutines = 0, AppStorageMB = 0, DBSizeMB = 0, WALSizeMB = 0,
     SHMSizeMB = 0, DataDir = '''', DiskTotalGB = 0, DiskUsedGB = 0, DiskFreeGB = 0, DiskUsedPercent = 0,
     StatsPower = \<lparr>Supported = False, SleepConfigured = False, SystemSleepMinutes = 0, Profile = '''', Status = '''', Detail = ''''\<rparr>,
     SampleWindowSecs = 0\<rparr>"

definition new_admin :: "Config \<Rightarrow> Server \<Rightarrow> admin" where
  \<comment> \<open>the \<open>&Server{...}\<close> of \<open>New\<close>; the token is part of the site\<close>
  "new_admin cfg dns = \<lparr>ad_dns = dns, ad_sampler = NewSampler (DBPath cfg), ad_statAt = zero_time, ad_stat = no_stats, ad_sent = []\<rparr>"

definition db_of :: "admin \<Rightarrow> db" where
  "db_of a = s_db (sv_store (ad_dns a))"

definition call :: "(store, 'a) comp \<Rightarrow> admin \<Rightarrow> (error + 'a) \<times> admin" where
  \<comment> \<open>a method of \<open>s.store\<close>\<close>
  "call m a = (case on_store m (ad_dns a) of (x, dns) \<Rightarrow> (x, a\<lparr>ad_dns := dns\<rparr>))"

definition or_error :: "(error + 'a) \<times> admin \<Rightarrow> ('a \<Rightarrow> admin \<Rightarrow> response \<times> admin) \<Rightarrow> response \<times> admin" where
  \<comment> \<open>\<open>if err != nil { writeError(w, err); return }\<close>\<close>
  "or_error x k = (case x of (Inl e, a) \<Rightarrow> (writeError e, a) | (Inr v, a) \<Rightarrow> k v a)"

definition only :: "string \<Rightarrow> request \<Rightarrow> (admin \<Rightarrow> response \<times> admin) \<Rightarrow> admin \<Rightarrow> response \<times> admin" where
  \<comment> \<open>the test of the method\<close>
  "only meth r k a = (if rq_Method r \<noteq> meth then (not_allowed, a) else k a)"

definition sends :: "outgoing list \<Rightarrow> admin \<Rightarrow> admin" where
  "sends os a = a\<lparr>ad_sent := ad_sent a @ os\<rparr>"

definition path_id :: "string \<Rightarrow> request \<Rightarrow> int option" where
  \<comment> \<open>\<open>strconv.ParseInt(strings.TrimPrefix(r.URL.Path, prefix), 10, 64)\<close>\<close>
  "path_id pre r = atoi (trim_prefix (rq_Path r) pre)"

section \<open>Status and statistics\<close>

definition dns_status :: "site \<Rightarrow> admin \<Rightarrow> ServerStatus \<times> admin" where
  \<comment> \<open>\<open>s.dns.Status()\<close>\<close>
  "dns_status si a = (case DNS_Server.Status (si_cfg si) (ad_dns a) of (st, dns) \<Rightarrow> (st, a\<lparr>ad_dns := dns\<rparr>))"

definition now_in :: "admin \<Rightarrow> instant \<times> admin" where
  "now_in a = (case now_of (ad_dns a) of (t, dns) \<Rightarrow> (t, a\<lparr>ad_dns := dns\<rparr>))"

definition systemStats :: "site \<Rightarrow> admin \<Rightarrow> Stats \<times> admin" where
  "systemStats si a =
     (case now_in a of (t, a) \<Rightarrow>
        if time_since t (ad_statAt a) < 30 * nanos_per_sec then (ad_stat a, a)
        else (case now_in a of (t, a) \<Rightarrow>
              case Snapshot (si_os si) t (ad_sampler a) of (st, sampler) \<Rightarrow>
              case now_in a of (t, a) \<Rightarrow> (st, a\<lparr>ad_sampler := sampler, ad_stat := st, ad_statAt := t\<rparr>)))"

definition index :: "request \<Rightarrow> admin \<Rightarrow> response \<times> admin" where
  "index r a = (if rq_Path r \<noteq> ''/'' then (not_found, a) else (writeJSON IndexPage, a))"

definition health :: "site \<Rightarrow> admin \<Rightarrow> response \<times> admin" where
  "health si a = (case dns_status si a of (st, a) \<Rightarrow> (writeJSON (Health st (HTTPAddr (si_cfg si)) (si_version si)), a))"

definition dashboard :: "site \<Rightarrow> admin \<Rightarrow> response \<times> admin" where
  "dashboard si a =
     or_error (call (DashboardOf (si_zone si) (DBPath (si_cfg si))) a) (\<lambda>d a.
     or_error (call (get_HAHealth (si_cipher si)) a) (\<lambda>ha a.
       case dns_status si a of (st, a) \<Rightarrow>
       case systemStats si a of (system, a) \<Rightarrow>
         (writeJSON (DashboardReply d st system (si_version si) ha), a)))"

definition half :: "int \<Rightarrow> int" where
  \<comment> \<open>\<open>n / 2\<close>, which truncates toward zero\<close>
  "half n = (if n < 0 then - ((- n) div 2) else n div 2)"

definition warnings :: "Config \<Rightarrow> ServerStatus \<Rightarrow> Stats \<Rightarrow> HAHealth \<Rightarrow> string list" where
  "warnings cfg st system ha =
     (if 0 < St_DroppedEvents st
      then [''DNS query events have been dropped. Increase event queue capacity or reduce dashboard/report load.''] else []) @
     (if half (EventQueueCap cfg) < int (St_EventQueueDepth st)
      then [''DNS event queue is above 50% capacity.''] else []) @
     (if Supported (StatsPower system) \<and> SleepConfigured (StatsPower system)
      then [''macOS system sleep is enabled. Disable sleep before using this Mac as a DNS appliance.''] else []) @
     (if has_prefix (HTTPAddr cfg) ''0.0.0.0:''
      then [''Admin HTTP is reachable on LAN interfaces. Use a strong admin token and prefer trusted management networks.''] else []) @
     (if HH_Enabled ha \<and> \<not> HH_Configured ha
      then (if HH_Role ha = ''secondary'' then [''This Secondary DNS is enabled but is not paired to a Primary.'']
            else [''Primary DNS is enabled but no Secondary peer is paired.'']) else []) @
     (if HH_Enabled ha \<and> HH_Stale ha
      then (if HH_Role ha = ''secondary'' then [''Primary DNS heartbeat is stale or has never succeeded.'']
            else [''Secondary DNS heartbeat is stale or has never succeeded.'']) else [])"

definition diagnostics :: "site \<Rightarrow> admin \<Rightarrow> response \<times> admin" where
  "diagnostics si a =
     or_error (call (DashboardOf (si_zone si) (DBPath (si_cfg si))) a) (\<lambda>d a.
       case dns_status si a of (st, a) \<Rightarrow>
       case systemStats si a of (system, a) \<Rightarrow>
       or_error (call (get_HAHealth (si_cipher si)) a) (\<lambda>ha a.
         let ws = warnings (si_cfg si) st system ha
         in (writeJSON (Diagnostics (ws = []) st d system ha (si_version si)
               \<lparr>sc_dns_addr = DNSAddr (si_cfg si), sc_http_addr = HTTPAddr (si_cfg si), sc_upstream = Upstream (si_cfg si),
                sc_event_queue_cap = EventQueueCap (si_cfg si), sc_db_path = DBPath (si_cfg si)\<rparr> ws), a)))"

section \<open>Events, hosts and rules\<close>

definition realtime :: "admin \<Rightarrow> response \<times> admin" where
  "realtime a = respond Events (call (RecentEvents '''' 150) a)"

definition blocked :: "admin \<Rightarrow> response \<times> admin" where
  "blocked a = respond Events (call (RecentEvents ''blocked'' 150) a)"

definition hosts :: "request \<Rightarrow> admin \<Rightarrow> response \<times> admin" where
  "hosts r = only ''GET'' r (\<lambda>a. respond HostList (call Hosts a))"

definition hostDetail :: "request \<Rightarrow> admin \<Rightarrow> response \<times> admin" where
  "hostDetail r a =
     (case path_id ''/api/hosts/'' r of
        None \<Rightarrow> (http_error ''invalid host id'' 400, a)
      | Some hid \<Rightarrow>
          if rq_Method r = ''PUT''
          then decoded (dec_text ''label'') '''' r (\<lambda>label a. respond (\<lambda>_. OkTrue) (call (SetHostLabel hid label) a)) a
          else let hours = (case atoi (query_get r ''hours'') of Some h \<Rightarrow> h | None \<Rightarrow> 0)
               in respond Detail (call (HostDetailOf hid hours) a))"

definition rules :: "request \<Rightarrow> admin \<Rightarrow> response \<times> admin" where
  "rules r = only ''GET'' r (\<lambda>a. respond RuleList (call Rules a))"

definition ruleDetail :: "request \<Rightarrow> admin \<Rightarrow> response \<times> admin" where
  "ruleDetail r a =
     (let path = trim_prefix (rq_Path r) ''/api/rules/''
      in if path = ''block'' \<or> path = ''allow'' then (not_found, a)
         else (case atoi path of
             None \<Rightarrow> (http_error ''invalid rule id'' 400, a)
           | Some rid \<Rightarrow> only ''PATCH'' r (decoded (dec_flag ''enabled'') False r
               (\<lambda>enabled a. respond OneRule (call (SetRuleEnabled rid enabled) a))) a))"

definition ruleAction :: "string \<Rightarrow> request \<Rightarrow> admin \<Rightarrow> response \<times> admin" where
  "ruleAction action r =
     only ''POST'' r (decoded dec_target ('''', '''') r
       (\<lambda>(target, note) a. respond OneRule (call (AddRule target action note) a)))"

section \<open>Blocklists and records\<close>

definition blocklistPresets :: "request \<Rightarrow> admin \<Rightarrow> response \<times> admin" where
  "blocklistPresets r = only ''GET'' r (\<lambda>a. respond PresetList (call BlocklistPresets a))"

definition blocklistPresetDetail :: "request \<Rightarrow> admin \<Rightarrow> response \<times> admin" where
  "blocklistPresetDetail r a =
     (let pid = trim_prefix (rq_Path r) ''/api/blocklist-presets/''
      in if pid = '''' then (http_error ''invalid preset id'' 400, a)
         else only ''PATCH'' r (decoded (dec_flag ''enabled'') False r
           (\<lambda>enabled a. respond OnePreset (call (SetBlocklistPresetEnabled pid enabled) a))) a)"

definition blocklistSources :: "site \<Rightarrow> request \<Rightarrow> admin \<Rightarrow> response \<times> admin" where
  "blocklistSources si r a =
     (if rq_Method r = ''GET'' then respond SourceList (call BlocklistSources a)
      else if rq_Method r = ''POST''
      then decoded dec_new_source ('''', '''', '''') r
        (\<lambda>(name, url, format) a. respond OneSource (call (AddBlocklistSource (si_lookup si) name url format) a)) a
      else (not_allowed, a))"

definition blocklistSourceDetail :: "request \<Rightarrow> admin \<Rightarrow> response \<times> admin" where
  "blocklistSourceDetail r a =
     (case path_id ''/api/blocklist-sources/'' r of
        None \<Rightarrow> (http_error ''invalid source id'' 400, a)
      | Some sid \<Rightarrow>
          if sid \<le> 0 then (http_error ''invalid source id'' 400, a)
          else only ''PATCH'' r (decoded (dec_flag ''enabled'') False r
            (\<lambda>enabled a. respond OneSource (call (SetBlocklistSourceEnabled sid enabled) a))) a)"

definition blocklistsRefresh :: "site \<Rightarrow> request \<Rightarrow> admin \<Rightarrow> response \<times> admin" where
  "blocklistsRefresh si r = only ''POST'' r (\<lambda>a. respond Refreshed (call (RefreshBlocklists (si_fetch si)) a))"

definition records :: "request \<Rightarrow> admin \<Rightarrow> response \<times> admin" where
  "records r a =
     (if rq_Method r = ''GET'' then respond RecordList (call StaticRecords a)
      else if rq_Method r = ''POST''
      then decoded dec_StaticRecord zero_record r (\<lambda>record a. respond (\<lambda>_. OkTrue) (call (UpsertStaticRecord record) a)) a
      else (not_allowed, a))"

definition hostReport :: "request \<Rightarrow> admin \<Rightarrow> response \<times> admin" where
  "hostReport r a =
     (case path_id ''/api/reports/host/'' r of
        None \<Rightarrow> (http_error ''invalid host id'' 400, a)
      | Some hid \<Rightarrow> respond Report (call (HostReportOf hid) a))"

definition audit :: "request \<Rightarrow> admin \<Rightarrow> response \<times> admin" where
  "audit r = only ''GET'' r (\<lambda>a. respond AuditTrail (call (AuditEvents 250) a))"

section \<open>Settings\<close>

definition unifiSettings :: "site \<Rightarrow> request \<Rightarrow> admin \<Rightarrow> response \<times> admin" where
  "unifiSettings si r a =
     (if rq_Method r = ''GET''
      then respond (\<lambda>settings. UniFi (settings\<lparr>UF_APIKey := ''''\<rparr>)) (call (get_UniFiSettings (si_cipher si)) a)
      else if rq_Method r = ''PUT''
      then decoded dec_UniFiSettings zero_unifi r
        (\<lambda>body a. respond UniFi (call (SaveUniFiSettings (si_cipher si) (si_nonce si) body) a)) a
      else (not_allowed, a))"

definition with_result :: "(store \<Rightarrow> ('a \<times> error option) \<times> store) \<Rightarrow> (store, 'a) comp" where
  \<comment> \<open>a method that returns a result beside its error; the handler replies with the result in both cases\<close>
  "with_result f s = (case f s of ((x, _), t) \<Rightarrow> (Inr x, t))"

definition unifiTest :: "site \<Rightarrow> request \<Rightarrow> admin \<Rightarrow> response \<times> admin" where
  "unifiTest si r = only ''POST'' r (\<lambda>a. respond UniFiResult (call (with_result (TestUniFi (si_cipher si) (si_controller si))) a))"

definition unifiImport :: "site \<Rightarrow> request \<Rightarrow> admin \<Rightarrow> response \<times> admin" where
  "unifiImport si r =
     only ''POST'' r (\<lambda>a. respond UniFiResult (call (with_result (ImportUniFiClients (si_cipher si) (si_controller si))) a))"

definition retentionSettings :: "request \<Rightarrow> admin \<Rightarrow> response \<times> admin" where
  "retentionSettings r a =
     (if rq_Method r = ''GET'' then respond RetentionReply (call Retention a)
      else if rq_Method r = ''PUT''
      then decoded dec_RetentionSettings zero_retention r
        (\<lambda>body a. respond RetentionReply (call (SetRetention (RS_Days body)) a)) a
      else (not_allowed, a))"

definition retentionPurge :: "request \<Rightarrow> admin \<Rightarrow> response \<times> admin" where
  "retentionPurge r = only ''POST'' r (\<lambda>a. respond Removed (call PurgeOldEvents a))"

section \<open>The pair\<close>

definition haSettings :: "site \<Rightarrow> request \<Rightarrow> admin \<Rightarrow> response \<times> admin" where
  "haSettings si r a =
     (if rq_Method r = ''GET''
      then respond (\<lambda>settings. Pair (settings\<lparr>HA_PeerToken := ''''\<rparr>)) (call (get_HASettings (si_cipher si)) a)
      else if rq_Method r = ''PUT''
      then decoded dec_HASettings zero_ha r
        (\<lambda>body a. respond Pair (call (SaveHASettings (si_cipher si) (si_nonce si) body) a)) a
      else (not_allowed, a))"

definition haHeartbeat :: "site \<Rightarrow> request \<Rightarrow> admin \<Rightarrow> response \<times> admin" where
  "haHeartbeat si r = only ''GET'' r (\<lambda>a. respond (Heartbeat (si_version si)) (call (get_HAHealth (si_cipher si)) a))"

definition haDiscovery :: "site \<Rightarrow> request \<Rightarrow> admin \<Rightarrow> response \<times> admin" where
  \<comment> \<open>an error of the settings is dropped: they then hold the role they start with\<close>
  "haDiscovery si r = only ''GET'' r (\<lambda>a.
     case call (get_HASettings (si_cipher si)) a of (x, a) \<Rightarrow>
       let settings = (case x of Inr h \<Rightarrow> h | Inl _ \<Rightarrow> zero_ha\<lparr>HA_Role := ''primary''\<rparr>)
       in (writeJSON (Discovery (hostnameOrDefault si) (publicBaseURL si r) (firstLANIPv4 si) (macForIP si (firstLANIPv4 si))
             (HA_Role settings) (HA_Enabled settings) (HA_PeerURL settings \<noteq> '''' \<and> HA_HasPeerToken settings) (si_version si)), a))"

definition haDiscover :: "site \<Rightarrow> request \<Rightarrow> admin \<Rightarrow> response \<times> admin" where
  "haDiscover si r = only ''GET'' r (\<lambda>a. (writeJSON (Nodes (discoverHANodes si)), a))"

definition haRequestJoin :: "site \<Rightarrow> request \<Rightarrow> admin \<Rightarrow> response \<times> admin" where
  "haRequestJoin si r = only ''POST'' r (decoded (dec_text ''primary_url'') '''' r (\<lambda>primary a.
     let primaryURL = trim_right (trim_space primary) ''/'';
         bad = (writeError (ErrMsg ''primary_url must be a full http:// or https:// URL''), a)
     in case url_Parse primaryURL of
          None \<Rightarrow> bad
        | Some u \<Rightarrow>
            if u_Scheme u = '''' \<or> u_Host u = '''' \<or> (u_Scheme u \<noteq> ''http'' \<and> u_Scheme u \<noteq> ''https'') then bad
            else (case validateHAPairingTarget si u of
                (Some e, out) \<Rightarrow> (writeError e, sends out a)
              | (None, out) \<Rightarrow>
                  let url = primaryURL @ ''/api/ha/join-requests''; payload = join_payload si r
                  in case si_join si url payload of
                       BadRequest e \<Rightarrow> (writeError e, sends out a)
                     | NoReply m \<Rightarrow> (writeError (ErrMsg m), sends (out @ [AskJoin url payload]) a)
                     | Reply code _ b \<Rightarrow>
                         (\<lparr>rs_Code = code, rs_Cookie = None, rs_Body = Proxied b\<rparr>, sends (out @ [AskJoin url payload]) a))))"

definition haJoinRequests :: "site \<Rightarrow> request \<Rightarrow> admin \<Rightarrow> response \<times> admin" where
  "haJoinRequests si r a =
     (if rq_Method r = ''GET'' then respond JoinRequestList (call (HAJoinRequests (si_codec si)) a)
      else if rq_Method r = ''POST''
      then decoded dec_HAJoinRequestInput zero_join r (\<lambda>body a.
        respond OneJoinRequest (call (SaveHAJoinRequest (si_cipher si) (si_codec si) (si_nonce si) (si_rid si) body) a)) a
      else (not_allowed, a))"

definition haJoinAccept :: "site \<Rightarrow> request \<Rightarrow> admin \<Rightarrow> response \<times> admin" where
  "haJoinAccept si r = only ''POST'' r (decoded (dec_text ''id'') '''' r (\<lambda>rid a.
     or_error (call (HAJoinRequestForAccept (si_cipher si) (si_codec si) rid) a) (\<lambda>request a.
       case configureAcceptedSecondary si request (publicBaseURL si r) of
         (Some e, out) \<Rightarrow> (http_error (''secondary configuration failed: '' @ error_text e) 502, sends out a)
       | (None, out) \<Rightarrow>
           respond (\<lambda>accepted. Accepted (accepted\<lparr>JR_RequesterToken := ''''\<rparr>))
             (call (AcceptHAJoinRequest (si_cipher si) (si_codec si) (si_nonce si) rid) (sends out a)))))"

definition haTest :: "site \<Rightarrow> request \<Rightarrow> admin \<Rightarrow> response \<times> admin" where
  "haTest si r = only ''POST'' r (\<lambda>a. respond PeerStatus (call (TestHAPeer (si_cipher si) (si_beat si)) a))"

definition haSync :: "site \<Rightarrow> request \<Rightarrow> admin \<Rightarrow> response \<times> admin" where
  "haSync si r = only ''POST'' r (\<lambda>a. respond SyncResult (call (PushHASync (si_cipher si) (si_push si)) a))"

definition haImport :: "site \<Rightarrow> request \<Rightarrow> admin \<Rightarrow> response \<times> admin" where
  "haImport si r = only ''POST'' r (\<lambda>a.
     case call (ValidateHAImportAllowed (si_cipher si)) a of
       (Inl e, a) \<Rightarrow> (http_error (error_text e) 403, a)
     | (Inr _, a) \<Rightarrow> decoded dec_HASyncPayload zero_payload r
         (\<lambda>payload a. respond SyncResult (call (ApplyHASyncPayload payload) a)) a)"

end
