(* ===== verification/HTTP_Server.thy ===== *)
theory HTTP_Server
  imports HTTP_Handlers
begin

text \<open>
  The admin server of internal/htt_server/server.go as a whole: the routes, the mux and the
  authentication in front of it, with the theorems about what a request can do and what a reply can show.
\<close>

datatype endpoint = Index | AuthStatus | AuthLogin | AuthLogout | HealthE | DiagnosticsE | DashboardE | RealtimeE
  | BlockedE | HostsE | HostDetailE | RulesE | RuleDetailE | RuleBlock | RuleAllow | Presets | PresetDetailE
  | Sources | SourceDetail | Refresh | Records | HostReportE | AuditE | UniFiSettingsE | UniFiTest | UniFiImport
  | RetentionE | Purge | HASettingsE | HAHeartbeat | HADiscovery | HADiscover | HARequestJoin | HAJoinRequestsE
  | HAJoinAccept | HATest | HASync | HAImport

definition HandleFunc :: "string \<Rightarrow> 'h \<Rightarrow> 'h route" where
  \<comment> \<open>a pattern that ends in a slash stands for all paths below it\<close>
  "HandleFunc pattern h =
     (let segs = split_on (drop 1 pattern) (CHR ''/'')
      in if last segs = '''' then (butlast segs, True, h) else (segs, False, h))"

definition routes :: "endpoint route list" where
  "routes = [
     HandleFunc ''/'' Index,
     HandleFunc ''/api/auth/status'' AuthStatus,
     HandleFunc ''/api/auth/login'' AuthLogin,
     HandleFunc ''/api/auth/logout'' AuthLogout,
     HandleFunc ''/api/health'' HealthE,
     HandleFunc ''/api/diagnostics'' DiagnosticsE,
     HandleFunc ''/api/dashboard'' DashboardE,
     HandleFunc ''/api/realtime'' RealtimeE,
     HandleFunc ''/api/blocked'' BlockedE,
     HandleFunc ''/api/hosts'' HostsE,
     HandleFunc ''/api/hosts/'' HostDetailE,
     HandleFunc ''/api/rules'' RulesE,
     HandleFunc ''/api/rules/'' RuleDetailE,
     HandleFunc ''/api/rules/block'' RuleBlock,
     HandleFunc ''/api/rules/allow'' RuleAllow,
     HandleFunc ''/api/blocklist-presets'' Presets,
     HandleFunc ''/api/blocklist-presets/'' PresetDetailE,
     HandleFunc ''/api/blocklist-sources'' Sources,
     HandleFunc ''/api/blocklist-sources/'' SourceDetail,
     HandleFunc ''/api/blocklists/refresh'' Refresh,
     HandleFunc ''/api/records'' Records,
     HandleFunc ''/api/reports/host/'' HostReportE,
     HandleFunc ''/api/audit'' AuditE,
     HandleFunc ''/api/settings/unifi'' UniFiSettingsE,
     HandleFunc ''/api/settings/unifi/test'' UniFiTest,
     HandleFunc ''/api/settings/unifi/import'' UniFiImport,
     HandleFunc ''/api/settings/retention'' RetentionE,
     HandleFunc ''/api/settings/retention/purge'' Purge,
     HandleFunc ''/api/ha/settings'' HASettingsE,
     HandleFunc ''/api/ha/heartbeat'' HAHeartbeat,
     HandleFunc ''/api/ha/discovery'' HADiscovery,
     HandleFunc ''/api/ha/discover'' HADiscover,
     HandleFunc ''/api/ha/request-join'' HARequestJoin,
     HandleFunc ''/api/ha/join-requests'' HAJoinRequestsE,
     HandleFunc ''/api/ha/join-requests/accept'' HAJoinAccept,
     HandleFunc ''/api/ha/test'' HATest,
     HandleFunc ''/api/ha/sync'' HASync,
     HandleFunc ''/api/ha/import'' HAImport]"

fun handle :: "site \<Rightarrow> endpoint \<Rightarrow> request \<Rightarrow> admin \<Rightarrow> response \<times> admin" where
  "handle si Index r a = index r a"
| "handle si AuthStatus r a = authStatus si r a"
| "handle si AuthLogin r a = authLogin si r a"
| "handle si AuthLogout r a = authLogout r a"
| "handle si HealthE r a = health si a"
| "handle si DiagnosticsE r a = diagnostics si a"
| "handle si DashboardE r a = dashboard si a"
| "handle si RealtimeE r a = realtime a"
| "handle si BlockedE r a = blocked a"
| "handle si HostsE r a = hosts r a"
| "handle si HostDetailE r a = hostDetail r a"
| "handle si RulesE r a = rules r a"
| "handle si RuleDetailE r a = ruleDetail r a"
| "handle si RuleBlock r a = ruleAction ''block'' r a"
| "handle si RuleAllow r a = ruleAction ''allow'' r a"
| "handle si Presets r a = blocklistPresets r a"
| "handle si PresetDetailE r a = blocklistPresetDetail r a"
| "handle si Sources r a = blocklistSources si r a"
| "handle si SourceDetail r a = blocklistSourceDetail r a"
| "handle si Refresh r a = blocklistsRefresh si r a"
| "handle si Records r a = records r a"
| "handle si HostReportE r a = hostReport r a"
| "handle si AuditE r a = audit r a"
| "handle si UniFiSettingsE r a = unifiSettings si r a"
| "handle si UniFiTest r a = unifiTest si r a"
| "handle si UniFiImport r a = unifiImport si r a"
| "handle si RetentionE r a = retentionSettings r a"
| "handle si Purge r a = retentionPurge r a"
| "handle si HASettingsE r a = haSettings si r a"
| "handle si HAHeartbeat r a = haHeartbeat si r a"
| "handle si HADiscovery r a = haDiscovery si r a"
| "handle si HADiscover r a = haDiscover si r a"
| "handle si HARequestJoin r a = haRequestJoin si r a"
| "handle si HAJoinRequestsE r a = haJoinRequests si r a"
| "handle si HAJoinAccept r a = haJoinAccept si r a"
| "handle si HATest r a = haTest si r a"
| "handle si HASync r a = haSync si r a"
| "handle si HAImport r a = haImport si r a"

definition mux :: "site \<Rightarrow> request \<Rightarrow> admin \<Rightarrow> response \<times> admin" where
  "mux si r a =
     (case findHandler routes (rq_Method r) (rq_EscapedPath r) of
        Handler e \<Rightarrow> handle si e r a
      | Redirected \<Rightarrow> (\<lparr>rs_Code = 301, rs_Cookie = None, rs_Body = MovedPermanently\<rparr>, a)
      | NoRoute \<Rightarrow> (not_found, a))"

definition serve :: "site \<Rightarrow> request \<Rightarrow> admin \<Rightarrow> response \<times> admin" where
  \<comment> \<open>the \<open>Handler\<close> of the \<open>http.Server\<close>; the log in front of it changes nothing\<close>
  "serve si = authMiddleware si (mux si)"

section \<open>No reply shows a secret\<close>

lemmas handler_defs = index_def health_def dashboard_def diagnostics_def realtime_def blocked_def hosts_def
  hostDetail_def rules_def ruleDetail_def ruleAction_def blocklistPresets_def blocklistPresetDetail_def
  blocklistSources_def blocklistSourceDetail_def blocklistsRefresh_def records_def hostReport_def audit_def
  unifiSettings_def unifiTest_def unifiImport_def retentionSettings_def retentionPurge_def haSettings_def
  haHeartbeat_def haDiscovery_def haDiscover_def haRequestJoin_def haJoinRequests_def haJoinAccept_def haTest_def
  haSync_def haImport_def authStatus_def authLogin_def authLogout_def

lemma call_Inr: "call m a = (Inr v, b) \<Longrightarrow> \<exists>t. m (sv_store (ad_dns a)) = (Inr v, t)"
  by (auto simp: call_def on_store_def split: prod.splits)

lemma safe_only: "safe (k a) \<Longrightarrow> safe (only meth r k a)"
  by (simp add: only_def)

lemma safe_or_error: "(\<And>v b. x = (Inr v, b) \<Longrightarrow> safe (k v b)) \<Longrightarrow> safe (or_error x k)"
  by (auto simp: or_error_def split: prod.splits sum.splits)

lemma safe_prod: "(\<And>u v. x = (u, v) \<Longrightarrow> safe (f u v)) \<Longrightarrow> safe (case x of (u, v) \<Rightarrow> f u v)"
  by (cases x) simp

lemma safe_if: "(P \<Longrightarrow> safe x) \<Longrightarrow> (\<not> P \<Longrightarrow> safe y) \<Longrightarrow> safe (if P then x else y)"
  by simp

lemma safe_option: "safe x \<Longrightarrow> (\<And>v. safe (f v)) \<Longrightarrow> safe (case o' of None \<Rightarrow> x | Some v \<Rightarrow> f v)"
  by (cases o') simp_all

lemmas safe_intro = safe_respond safe_decoded safe_only safe_or_error safe_prod safe_if safe_option

lemma SaveUniFiSettings_blank:
  "SaveUniFiSettings c nonce u s = (Inr out, t) \<Longrightarrow> UF_APIKey out = ''''"
  by (auto simp: SaveUniFiSettings_def ret_def fail_def Let_def elim!: andThen_InrE split: if_splits)

lemma SaveHASettings_blank:
  "SaveHASettings c nonce h s = (Inr out, t) \<Longrightarrow> HA_PeerToken out = ''''"
  by (auto simp: SaveHASettings_def ret_def fail_def Let_def elim!: andThen_InrE split: if_splits)

lemma HAJoinRequests_blank: "HAJoinRequests j s = (Inr rs, t) \<Longrightarrow> \<forall>r \<in> set rs. JR_RequesterToken r = ''''"
  by (auto simp: HAJoinRequests_def ret_def shown_def elim!: andThen_InrE)

lemma SaveHAJoinRequest_blank: "SaveHAJoinRequest c j nonce rid i s = (Inr r, t) \<Longrightarrow> JR_RequesterToken r = ''''"
  by (auto simp: SaveHAJoinRequest_def ret_def fail_def shown_def Let_def elim!: andThen_InrE
      split: option.splits sum.splits prod.splits)

lemmas blank = SaveUniFiSettings_blank SaveHASettings_blank HAJoinRequests_blank SaveHAJoinRequest_blank

lemma call_blank:
  "call (SaveUniFiSettings c nonce u) a = (Inr x, b) \<Longrightarrow> UF_APIKey x = ''''"
  "call (SaveHASettings c nonce h) a = (Inr y, b) \<Longrightarrow> HA_PeerToken y = ''''"
  "call (HAJoinRequests j) a = (Inr rs, b) \<Longrightarrow> \<forall>r \<in> set rs. JR_RequesterToken r = ''''"
  "call (SaveHAJoinRequest c j nonce rid i) a = (Inr q, b) \<Longrightarrow> JR_RequesterToken q = ''''"
  by (auto dest!: call_Inr dest: blank)

lemma safe_cookie: "safe (r\<lparr>rs_Cookie := c\<rparr>, a) = safe (r, a)"
  by (simp add: safe_def)

lemma safe_haSettings: "safe (haSettings si r a)"
  unfolding haSettings_def by (intro safe_intro) (simp_all add: call_blank)

lemma safe_unifiSettings: "safe (unifiSettings si r a)"
  unfolding unifiSettings_def by (intro safe_intro) (simp_all add: call_blank)

lemma safe_haJoinRequests: "safe (haJoinRequests si r a)"
  unfolding haJoinRequests_def by (intro safe_intro) (simp_all add: call_blank)

lemma safe_haRequestJoin: "safe (haRequestJoin si r a)"
  unfolding haRequestJoin_def Let_def
  by (intro safe_intro) (auto split: option.splits prod.splits peer_reply.splits simp: safe_def writeError_def http_error_def)

lemma safe_haJoinAccept: "safe (haJoinAccept si r a)"
  unfolding haJoinAccept_def
  by (intro safe_intro) (auto split: option.splits prod.splits intro!: safe_respond)

lemma safe_haImport: "safe (haImport si r a)"
  unfolding haImport_def by (intro safe_intro) (auto split: sum.splits intro!: safe_intro)

lemma safe_haDiscovery: "safe (haDiscovery si r a)"
  unfolding haDiscovery_def by (intro safe_intro) (auto simp: Let_def)

lemma safe_authLogin: "safe (authLogin si r a)"
  unfolding authLogin_def by (intro safe_intro) (simp_all add: safe_cookie)

lemmas safe_special = safe_haSettings safe_unifiSettings safe_haJoinRequests safe_haRequestJoin safe_haJoinAccept
  safe_haImport safe_haDiscovery safe_authLogin

lemma safe_handle: "safe (handle si e r a)"
  by (cases e; simp add: safe_special)
    (auto simp: handler_defs safe_cookie Let_def split: prod.splits intro!: safe_intro)

lemma safe_mux: "safe (mux si r a)"
  by (auto simp: mux_def safe_handle safe_def [of "(\<lparr>rs_Code = 301, rs_Cookie = None, rs_Body = MovedPermanently\<rparr>, a)"]
      split: target.splits)

lemma serve_cases:
  assumes "serve si r a = (rs, b)"
  obtains (served) "mux si r a = (rs, b)" | (refused) m code where "rs = http_error m code" "b = a"
  using assms by (auto simp: serve_def authMiddleware_def unauthorized_def split: prod.splits if_splits)


section \<open>Which handler a path reaches\<close>

definition public_endpoint :: "string \<Rightarrow> endpoint \<Rightarrow> bool" where
  \<comment> \<open>the handler behind each path that needs no token\<close>
  "public_endpoint path e \<longleftrightarrow> (path = ''/api/health'' \<and> e = HealthE) \<or> (path = ''/api/auth/status'' \<and> e = AuthStatus) \<or>
     (path = ''/api/auth/login'' \<and> e = AuthLogin) \<or> (path = ''/api/ha/discovery'' \<and> e = HADiscovery) \<or>
     (path = ''/api/ha/join-requests'' \<and> e = HAJoinRequestsE)"

definition open_paths :: "string list" where
  "open_paths = [''/api/health'', ''/api/auth/status'', ''/api/auth/login'', ''/api/ha/discovery'', ''/api/ha/join-requests'']"

definition route_shape :: "endpoint route \<Rightarrow> bool" where
  "route_shape t \<longleftrightarrow>
     (if fst (snd t) then (fst t = [] \<and> snd (snd t) = Index) \<or> (fst t \<noteq> [] \<and> has_prefix (pattern_text t @ ''/'') ''/api/'' \<and>
         list_all (\<lambda>p. \<not> has_prefix p (pattern_text t @ ''/'')) open_paths)
      else has_prefix (pattern_text t) ''/api/'' \<and>
         list_all (\<lambda>p. pattern_text t = p \<longrightarrow> public_endpoint p (snd (snd t))) open_paths)"

lemma routes_shape: "t \<in> set routes \<Longrightarrow> route_shape t"
proof -
  have "list_all route_shape routes"
    by code_simp
  then show "t \<in> set routes \<Longrightarrow> route_shape t"
    by (simp add: list_all_iff)
qed

lemma empty_path_index: "findHandler routes m '''' = Handler e \<Longrightarrow> e = Index"
proof -
  have "findHandler routes ''CONNECT'' '''' = Handler Index"
    by code_simp
  moreover have "m \<noteq> ''CONNECT'' \<Longrightarrow> findHandler routes m '''' \<noteq> Handler e"
    by (simp add: findHandler_def cleanPath_def Let_def)
  ultimately show "findHandler routes m '''' = Handler e \<Longrightarrow> e = Index"
    by (cases "m = ''CONNECT''") auto
qed

lemma has_prefix_trans: "has_prefix s p \<Longrightarrow> has_prefix p q \<Longrightarrow> has_prefix s q"
  by (metis has_prefix_def append_eq_append_conv2 append_take_drop_id take_append take_take min_def nat_le_linear take_all)

lemma handler_path:
  assumes "findHandler routes (rq_Method r) (rq_EscapedPath r) = Handler e" and "wf_request r"
  shows "e = Index \<or> (has_prefix (rq_Path r) ''/api/'' \<and> (rq_Path r \<in> set open_paths \<longrightarrow> public_endpoint (rq_Path r) e))"
proof (cases "rq_EscapedPath r = ''''")
  case True
  with assms(1) show ?thesis
    using empty_path_index by auto
next
  case False
  from findHandler_route [OF assms False] obtain t where t: "t \<in> set routes" "snd (snd t) = e"
    "if fst (snd t) then fst t = [] \<or> has_prefix (rq_Path r) (pattern_text t @ ''/'') else rq_Path r = pattern_text t"
    by blast
  from routes_shape [OF t(1)] t(2,3) show ?thesis
    unfolding route_shape_def by (auto simp: list_all_iff split: if_splits dest: has_prefix_trans)
qed

section \<open>What a request without the token can change\<close>

definition joins_db :: "db \<Rightarrow> db \<Rightarrow> bool" where
  \<comment> \<open>only the stored requests to join and the audit trail differ\<close>
  "joins_db d d' \<longleftrightarrow> d' = d\<lparr>t_settings := t_settings d', t_audit := t_audit d'\<rparr> \<and>
     (\<forall>k. k \<noteq> ''ha.join_requests'' \<longrightarrow> setting k d' = setting k d)"

definition joins_only :: "store \<Rightarrow> store \<Rightarrow> bool" where
  "joins_only s t \<longleftrightarrow> same_caches s t \<and> joins_db (s_db s) (s_db t)"

definition reads_only :: "(store, 'a) comp \<Rightarrow> bool" where
  \<comment> \<open>only the environment moves on\<close>
  "reads_only m \<longleftrightarrow> (\<forall>s. \<exists>e. snd (m s) = s\<lparr>s_env := e\<rparr>)"

lemma joins_db_refl: "joins_db d d"
  by (simp add: joins_db_def)

lemma joins_db_step:
  assumes "joins_db d d'" and "d'' = d'\<lparr>t_settings := t_settings d'', t_audit := t_audit d''\<rparr>"
    and "\<And>k. k \<noteq> ''ha.join_requests'' \<Longrightarrow> setting k d'' = setting k d'"
  shows "joins_db d d''"
proof -
  have "d'' = d\<lparr>t_settings := t_settings d'', t_audit := t_audit d''\<rparr>"
    using assms(1,2) unfolding joins_db_def by (cases d; cases d'; cases d'') simp
  moreover have "setting k d'' = setting k d" if "k \<noteq> ''ha.join_requests''" for k
    using assms(1,3) that by (simp add: joins_db_def)
  ultimately show ?thesis
    by (simp add: joins_db_def)
qed

lemma joins_db_put: "joins_db d d' \<Longrightarrow> joins_db d (d'\<lparr>t_settings := settings_put (''ha.join_requests'', v) (t_settings d')\<rparr>)"
  by (erule joins_db_step) (simp_all add: setting_put_other)

lemma joins_db_audit: "joins_db d d' \<Longrightarrow> joins_db d (audit_row_of ts x y z d')"
  by (erule joins_db_step) (simp_all add: audit_row_of_def)

lemma joins_only_env: "env_free (joins_only s)"
  by (auto simp: env_free_def joins_only_def)

lemma joins_only_refl: "joins_only s (s\<lparr>s_env := e\<rparr>)"
  by (simp add: joins_only_def joins_db_refl)

lemma joins_only_put: "joins_only s t \<Longrightarrow>
    joins_only s (t\<lparr>s_db := (s_db t)\<lparr>t_settings := settings_put (''ha.join_requests'', v) (t_settings (s_db t))\<rparr>\<rparr>)"
  by (simp add: joins_only_def joins_db_put)

lemma joins_only_audit: "joins_only s t \<Longrightarrow> joins_only s (t\<lparr>s_db := audit_row_of ts x y z (s_db t)\<rparr>)"
  by (simp add: joins_only_def joins_db_audit)

lemma keeps_joins_raw: "keeps (joins_only s) (haJoinRequestsRaw j)"
proof (rule keepsI)
  fix t assume t: "joins_only s t"
  obtain r u where raw: "query_row (setting ''ha.join_requests'') t = (r, u)"
    by fastforce
  have "joins_only s u"
    using keeps_query_row [OF joins_only_env, of s "setting ''ha.join_requests''"] t raw by (metis keeps_def snd_conv)
  moreover have "snd (haJoinRequestsRaw j t) = u"
    by (auto simp: haJoinRequestsRaw_def raw split: sum.splits option.splits)
  ultimately show "joins_only s (snd (haJoinRequestsRaw j t))"
    by simp
qed

lemma keeps_joins: "keeps (joins_only s) (SaveHAJoinRequest c j nonce rid i)"
  unfolding SaveHAJoinRequest_def Let_def saveHAJoinRequests_def setSetting_def
  by (auto intro!: keeps_intro keeps_joins_raw keeps_exec_stmt keeps_Audit joins_only_env joins_only_put joins_only_audit
      split: option.splits sum.splits prod.splits)

definition harmless :: "admin \<Rightarrow> admin \<Rightarrow> bool" where
  \<comment> \<open>nothing is sent to another node, the DNS server goes on as before, and of the store only the requests
      to join and the audit trail may differ\<close>
  "harmless a b \<longleftrightarrow> ad_sent b = ad_sent a \<and> ad_dns b = (ad_dns a)\<lparr>sv_store := sv_store (ad_dns b)\<rparr> \<and>
     joins_only (sv_store (ad_dns a)) (sv_store (ad_dns b))"

lemma harmless_refl [simp]: "harmless a a"
  using joins_only_refl [of "sv_store (ad_dns a)" "s_env (sv_store (ad_dns a))"] by (simp add: harmless_def)

lemma harmless_call: "keeps (joins_only (sv_store (ad_dns a))) m \<Longrightarrow> harmless a (snd (call m a))"
  using keeps_snd [of "joins_only (sv_store (ad_dns a))" m "sv_store (ad_dns a)"] joins_only_refl [of "sv_store (ad_dns a)" "s_env (sv_store (ad_dns a))"]
  by (cases "m (sv_store (ad_dns a))") (simp add: harmless_def call_def on_store_def)

lemma call_reads:
  assumes "m (sv_store (ad_dns a)) = (x, (sv_store (ad_dns a))\<lparr>s_env := e\<rparr>)"
  shows "harmless a (snd (call m a))" "db_of (snd (call m a)) = db_of a"
  using assms joins_only_refl [of "sv_store (ad_dns a)" e] by (simp_all add: harmless_def call_def on_store_def db_of_def)

lemma dns_status_reads:
  "harmless a (snd (dns_status si a))" "db_of (snd (dns_status si a)) = db_of a"
proof -
  obtain x t where t: "time_now (sv_store (ad_dns a)) = (x, t)"
    by fastforce
  then obtain e where "t = (sv_store (ad_dns a))\<lparr>s_env := e\<rparr>"
    using time_now_state by blast
  with t joins_only_refl [of "sv_store (ad_dns a)" e]
  show "harmless a (snd (dns_status si a))" "db_of (snd (dns_status si a)) = db_of a"
    by (simp_all add: dns_status_def DNS_Server.Status_def now_of_def on_store_def harmless_def db_of_def)
qed

lemma haDiscovery_reads: "harmless a (snd (haDiscovery si r a)) \<and> db_of (snd (haDiscovery si r a)) = db_of a"
proof (cases "rq_Method r = ''GET''")
  case True
  obtain x t where t: "get_HASettings (si_cipher si) (sv_store (ad_dns a)) = (x, t)"
    by fastforce
  then obtain e where "t = (sv_store (ad_dns a))\<lparr>s_env := e\<rparr>"
    by (cases rule: HASettings_cases) auto
  with call_reads [of "get_HASettings (si_cipher si)" a x e] t True show ?thesis
    by (auto simp: haDiscovery_def only_def Let_def split: prod.splits sum.splits)
qed (simp add: haDiscovery_def only_def)

lemma authLogin_reads: "snd (authLogin si r a) = a"
  by (simp add: authLogin_def decoded_def split: option.splits)

lemma respond_snd: "snd (respond f x) = snd x"
  by (simp add: respond_def split: prod.splits sum.splits)

lemma haJoinRequests_harmless: "rq_Method r = ''POST'' \<Longrightarrow> harmless a (snd (haJoinRequests si r a))"
  by (auto simp: haJoinRequests_def decoded_def respond_snd intro!: harmless_call keeps_joins split: option.splits)

lemma open_handler:
  assumes "public_endpoint path e \<or> e = Index" and "e = HAJoinRequestsE \<Longrightarrow> rq_Method r = ''POST''"
  shows "harmless a (snd (handle si e r a)) \<and> (e \<noteq> HAJoinRequestsE \<longrightarrow> db_of (snd (handle si e r a)) = db_of a)"
  using assms dns_status_reads [where a = a and si = si] haDiscovery_reads [where a = a and si = si and r = r]
    authLogin_reads [where a = a and si = si and r = r] haJoinRequests_harmless [where a = a and si = si and r = r]
  by (auto simp: public_endpoint_def index_def health_def authStatus_def split: prod.splits)

lemma serve_remote:
  assumes "\<not> isLoopbackRequest si r" and "\<not> fst (authorized si r)"
  shows "serve si r a = (if has_prefix (rq_Path r) ''/api/'' \<and> \<not> isPublicPath (rq_Path r) \<and>
      \<not> (rq_Path r = ''/api/ha/join-requests'' \<and> rq_Method r = ''POST'') then (unauthorized, a) else mux si r a)"
proof -
  have "isProtectedHAPath (rq_Path r) \<Longrightarrow> has_prefix (rq_Path r) ''/api/'' \<and> \<not> isPublicPath (rq_Path r) \<and>
      rq_Path r \<noteq> ''/api/ha/join-requests''"
    by (auto simp: isProtectedHAPath_def isPublicPath_def has_prefix_def)
  with assms show ?thesis
    by (auto simp: serve_def authMiddleware_def split: prod.splits)
qed

lemma mux_remote:
  assumes "wf_request r" and "mux si r a = (rs, b)"
    and "\<not> (has_prefix (rq_Path r) ''/api/'' \<and> \<not> isPublicPath (rq_Path r) \<and>
      \<not> (rq_Path r = ''/api/ha/join-requests'' \<and> rq_Method r = ''POST''))"
  shows "harmless a b \<and> (db_of b \<noteq> db_of a \<longrightarrow> rq_Path r = ''/api/ha/join-requests'' \<and> rq_Method r = ''POST'')"
proof (cases "findHandler routes (rq_Method r) (rq_EscapedPath r)")
  case (Handler e)
  have b: "b = snd (handle si e r a)"
    using assms(2) by (simp add: mux_def Handler)
  from handler_path [OF Handler assms(1)] assms(3)
  have e: "e = Index \<or> (public_endpoint (rq_Path r) e \<and> (e = HAJoinRequestsE \<longrightarrow> rq_Method r = ''POST''))"
    by (auto simp: open_paths_def isPublicPath_def public_endpoint_def has_prefix_def)
  moreover have "e = HAJoinRequestsE \<Longrightarrow> public_endpoint (rq_Path r) e \<Longrightarrow> rq_Path r = ''/api/ha/join-requests''"
    by (simp add: public_endpoint_def)
  ultimately show ?thesis
    using open_handler [where path = "rq_Path r" and e = e and r = r and a = a and si = si] b by auto
qed (use assms(2) in \<open>auto simp: mux_def\<close>)

text \<open>
  C6. A request from elsewhere without the admin token cannot change the policy: whatever its method, path
  and body, it sends nothing to another node, leaves every table but the settings and the audit trail,
  every setting but the stored requests to join, and every cache as they were, and it can touch these
  only as a POST of a request to join. Every other path of the API but the five public ones answers 401.
\<close>
theorem remote_without_token:
  assumes "wf_request r" and "\<not> isLoopbackRequest si r" and "\<not> fst (authorized si r)" and "serve si r a = (rs, b)"
  shows "ad_sent b = ad_sent a \<and> same_caches (sv_store (ad_dns a)) (sv_store (ad_dns b)) \<and>
    (\<exists>rows au. db_of b = (db_of a)\<lparr>t_settings := rows, t_audit := au\<rparr>) \<and>
    (\<forall>k. k \<noteq> ''ha.join_requests'' \<longrightarrow> setting k (db_of b) = setting k (db_of a)) \<and>
    (db_of b \<noteq> db_of a \<longrightarrow> rq_Path r = ''/api/ha/join-requests'' \<and> rq_Method r = ''POST'') \<and>
    (has_prefix (rq_Path r) ''/api/'' \<longrightarrow> \<not> isPublicPath (rq_Path r) \<longrightarrow>
       \<not> (rq_Path r = ''/api/ha/join-requests'' \<and> rq_Method r = ''POST'') \<longrightarrow> rs = unauthorized)"
proof -
  have h: "harmless a b \<and> (db_of b \<noteq> db_of a \<longrightarrow> rq_Path r = ''/api/ha/join-requests'' \<and> rq_Method r = ''POST'')"
  proof (cases "has_prefix (rq_Path r) ''/api/'' \<and> \<not> isPublicPath (rq_Path r) \<and>
      \<not> (rq_Path r = ''/api/ha/join-requests'' \<and> rq_Method r = ''POST'')")
    case True
    with assms(4) show ?thesis
      unfolding serve_remote [OF assms(2,3)] by simp
  next
    case False
    with assms(4) have "mux si r a = (rs, b)"
      unfolding serve_remote [OF assms(2,3)] by (simp only: if_False)
    from mux_remote [OF assms(1) this False] show ?thesis .
  qed
  moreover have "\<exists>rows au. db_of b = (db_of a)\<lparr>t_settings := rows, t_audit := au\<rparr>"
    using h by (auto simp: harmless_def joins_only_def joins_db_def db_of_def)
  moreover have "has_prefix (rq_Path r) ''/api/'' \<Longrightarrow> \<not> isPublicPath (rq_Path r) \<Longrightarrow>
      \<not> (rq_Path r = ''/api/ha/join-requests'' \<and> rq_Method r = ''POST'') \<Longrightarrow> rs = unauthorized"
    using assms(4) unfolding serve_remote [OF assms(2,3)] by simp
  ultimately show ?thesis
    by (simp add: harmless_def joins_only_def joins_db_def db_of_def)
qed

section \<open>Examples\<close>

definition sample_admin :: admin where
  "sample_admin = new_admin sample_cfg (New (sample_store empty_db))"

lemma remote_without_token_witness:
  "serve (sample_site ''secret'') (sample_request ''192.168.1.9:5000'' ''POST'' ''/api/rules/block'' None) sample_admin =
     (unauthorized, sample_admin)"
proof -
  let ?si = "sample_site ''secret''" and ?r = "sample_request ''192.168.1.9:5000'' ''POST'' ''/api/rules/block'' None"
  have wf: "wf_request ?r"
    by code_simp
  have "ParseIP ''192.168.1.9'' = v4_prefix @ [192, 168, 1, 9]" "SplitHostPort ''192.168.1.9:5000'' = Some (''192.168.1.9'', ''5000'')"
    by code_simp+
  then have remote: "\<not> isLoopbackRequest ?si ?r"
    by (simp add: isLoopbackRequest_def sample_request_def sample_site_def isLocalInterfaceIP_def ip_equal_def
        IsLoopback_def To4_def v4_prefix_def)
  have auth: "\<not> fst (authorized ?si ?r)"
    by (simp add: authorized_def sample_request_def sample_site_def cookie_of_def trim_space_def trim_prefix_def has_prefix_def)
  have path: "rq_Path ?r = ''/api/rules/block''"
    by code_simp
  obtain rs b where s: "serve ?si ?r sample_admin = (rs, b)"
    by fastforce
  have served: "serve ?si ?r sample_admin = (unauthorized, sample_admin)"
    unfolding serve_remote [OF remote auth] path by (simp add: has_prefix_def isPublicPath_def)
  from remote_without_token [OF wf remote auth s] path s served show ?thesis
    by simp
qed

end
