(* ===== verification/HTTP_Policy.thy ===== *)
theory HTTP_Policy
  imports HTTP_Server
begin

text \<open>
  From the admin API to the answers of the DNS server: which requests reach the import of a policy, and
  what a rule added over the API does to the next query.
\<close>

section \<open>The paths of the pair\<close>

definition pair_route :: "endpoint route \<Rightarrow> bool" where
  "pair_route t \<longleftrightarrow> (snd (snd t) = HAImport \<or> snd (snd t) = HAHeartbeat \<longrightarrow>
     \<not> fst (snd t) \<and> fst t \<noteq> [] \<and> isProtectedHAPath (pattern_text t))"

lemma routes_pair: "t \<in> set routes \<Longrightarrow> pair_route t"
proof -
  have "list_all pair_route routes"
    by code_simp
  then show "t \<in> set routes \<Longrightarrow> pair_route t"
    by (simp add: list_all_iff)
qed

lemma pair_path:
  assumes "findHandler routes (rq_Method r) (rq_EscapedPath r) = Handler e" and "wf_request r"
    and "e = HAImport \<or> e = HAHeartbeat"
  shows "isProtectedHAPath (rq_Path r)"
proof -
  have "rq_EscapedPath r \<noteq> ''''"
    using assms(1,3) empty_path_index by (metis endpoint.distinct)
  from findHandler_route [OF assms(1,2) this] obtain t where t: "t \<in> set routes" "snd (snd t) = e"
    "if fst (snd t) then fst t = [] \<or> has_prefix (rq_Path r) (pattern_text t @ ''/'') else rq_Path r = pattern_text t"
    by blast
  from routes_pair [OF t(1)] t assms(3) show ?thesis
    by (auto simp: pair_route_def split: if_splits)
qed

text \<open>
  C15. The heartbeat and the import of a policy need the admin token from everyone, the machine itself
  included: a request that the mux would hand to one of the two is answered 401 without it, and changes
  nothing, whatever escapes its path is written with.
\<close>
theorem import_needs_token:
  assumes "findHandler routes (rq_Method r) (rq_EscapedPath r) = Handler e" and "e = HAImport \<or> e = HAHeartbeat"
    and "wf_request r" and "\<not> fst (authorized si r)"
  shows "serve si r a = (unauthorized, a)"
  using pair_path [OF assms(1,3,2)] assms(4) by (cases "authorized si r") (simp add: serve_def authMiddleware_def)

section \<open>A rule added over the API\<close>

definition may_write :: "site \<Rightarrow> request \<Rightarrow> bool" where
  \<comment> \<open>the machine itself without the token, or the token; with the token in the cookie from the own pages only\<close>
  "may_write si r \<longleftrightarrow> (case authorized si r of (okay, cookieAuth) \<Rightarrow>
     (okay \<and> (cookieAuth \<longrightarrow> sameOriginUnsafeRequest r)) \<or> (\<not> okay \<and> isLoopbackRequest si r))"

lemma serve_may_write:
  "may_write si r \<Longrightarrow> \<not> isProtectedHAPath (rq_Path r) \<Longrightarrow> serve si r a = mux si r a"
  by (auto simp: may_write_def serve_def authMiddleware_def split: prod.splits)

lemma unfailing_AddRule: "keeps unfailing (AddRule target action note)"
proof -
  have "keeps unfailing (modify invalidateRuleCache)"
    by (simp add: keeps_def modify_def unfailing_def invalidateRuleCache_def)
  then show ?thesis
    unfolding AddRule_def get_rule_def Let_def by (intro keeps_intro)
qed

lemma rule_put_expires:
  assumes "\<forall>x \<in> set rows. rr_expires_at x = None"
  shows "\<forall>x \<in> set (rule_put n rows). rr_expires_at x = None"
  using assms by (auto simp: rule_put_def upsert_def update_where_def rule_fresh_def rule_merge_def)

lemma AddRule_blocks:
  assumes "AddRule target ''block'' note (sv_store s) = (Inr rule, st)" and "unfailing (sv_store s)"
    and "rules_table_ok (t_rules (s_db (sv_store s)))" and "\<forall>x \<in> set (t_rules (s_db (sv_store s))). rr_expires_at x = None"
    and "covers (NormalizeName target) (NormalizeName (NormalizeName (q_Name q)))"
    and "\<forall>x \<in> set (t_rules (s_db st)). rr_action x = ''allow'' \<longrightarrow> R_ID rule < rr_id x"
    and "answer_query lib cfg msg q (s\<lparr>sv_store := st\<rparr>) = (v, t)"
  shows "v_action v = ''blocked'' \<and> sv_asked t = sv_asked s \<and>
    v_msg v = addSinkholeAnswer cfg q ((SetReply lib msg)\<lparr>m_Authoritative := False\<rparr>)"
proof -
  have block: "to_lower (trim_space ''block'') = ''block''"
    by code_simp
  note eff = AddRule_effect [OF assms(1,3) refl, unfolded block]
  then obtain row where row: "find (\<lambda>x. rule_key x = (''global'', NormalizeName target, ''block'')) (t_rules (s_db st)) = Some row"
    "scanRule row = rule" "R_Enabled rule"
    by auto
  then have mem: "row \<in> set (t_rules (s_db st))" and key: "rule_key row = (''global'', NormalizeName target, ''block'')"
    by (auto dest: find_Some_mem)
  from AddRule_InrD(3) [OF assms(1)] obtain n where st: "t_rules (s_db st) = rule_put n (t_rules (s_db (sv_store s)))"
    and loaded: "\<not> rulesLoaded st"
    by auto
  have "rr_expires_at row = None"
    using rule_put_expires [OF assms(4), of n] mem by (simp add: st)
  moreover have "faults (s_env st) = []"
    using keepsD [OF unfailing_AddRule assms(2,1)] by (simp add: unfailing_def)
  moreover have "rules_coherent st"
    using loaded by (simp add: rules_coherent_def coherent_def)
  moreover have "rr_action row = ''block''" "rr_enabled row = 1" "rr_target row = NormalizeName target" "R_ID rule = rr_id row"
    using key row(2,3) by (auto simp: rule_key_def scanRule_def)
  ultimately show ?thesis
    using block_rule_answer [of "s\<lparr>sv_store := st\<rparr>" row q lib cfg msg v t] eff mem assms(5,6,7) by simp
qed


section \<open>Examples\<close>

definition cross_site_request :: request where
  \<comment> \<open>a page of another site, opened in a browser on the machine of the server, posts a rule\<close>
  "cross_site_request = (sample_request ''127.0.0.1:5000'' ''POST'' ''/api/rules/block'' (Some (JsObj [(''target'', JsStr ''ads.com.'')])))
     \<lparr>rq_Header := (\<lambda>h. if h = ''Origin'' then ''http://other.example'' else '''')\<rparr>"

lemma import_needs_token_witness:
  "serve (sample_site ''secret'') (sample_request ''127.0.0.1:5000'' ''POST'' ''/api/h%61/import'' None) sample_admin =
     (unauthorized, sample_admin)"
proof -
  let ?r = "sample_request ''127.0.0.1:5000'' ''POST'' ''/api/h%61/import'' None"
  have "findHandler routes (rq_Method ?r) (rq_EscapedPath ?r) = Handler HAImport" and "wf_request ?r"
    by code_simp+
  moreover have "\<not> fst (authorized (sample_site ''secret'') ?r)"
    by (simp add: authorized_def sample_request_def sample_site_def cookie_of_def trim_space_def trim_prefix_def has_prefix_def)
  ultimately show ?thesis
    using import_needs_token [of ?r HAImport "sample_site ''secret''" sample_admin] by simp
qed

lemma cross_site_may_write: "may_write (sample_site ''secret'') cross_site_request"
proof -
  have "ParseIP ''127.0.0.1'' = v4_prefix @ [127, 0, 0, 1]" "SplitHostPort ''127.0.0.1:5000'' = Some (''127.0.0.1'', ''5000'')"
    by code_simp+
  then show ?thesis
    by (simp add: may_write_def isLoopbackRequest_def cross_site_request_def sample_request_def sample_site_def
        IsLoopback_def To4_def v4_prefix_def authorized_def cookie_of_def trim_space_def trim_prefix_def has_prefix_def)
qed

lemma sample_admin_store:
  "sv_store (ad_dns sample_admin) = sample_store empty_db" "unfailing (sample_store empty_db)"
  "s_db (sample_store empty_db) = empty_db" "t_rules empty_db = []"
  by (simp add: sample_admin_def new_admin_def) (simp_all add: unfailing_def sample_store_def fresh_store_def empty_db_def)


end
