(* ===== verification/Store_Invariant.thy ===== *)
theory Store_Invariant
  imports Store_HA_Sync Store_UniFi Store_Reports
begin

text \<open>
  The invariant of internal/store/store.go: the three caches agree with their tables, and the tables of
  rules and static records satisfy their constraints. Every method keeps it, whatever calls to the
  database fail. Most methods do not come near these tables (they are \<open>calm\<close>); the writers restore
  the caches themselves.
\<close>

named_theorems calm_intro \<open>how an operation leaves the policy tables and the caches alone\<close>

definition policy_ok :: "store \<Rightarrow> bool" where
  "policy_ok s \<longleftrightarrow> rules_coherent s \<and> static_coherent s \<and> blocklist_coherent s \<and>
     rules_table_ok (t_rules (s_db s)) \<and> static_table_ok (t_static (s_db s))"

section \<open>Calm operations\<close>

definition same_tables :: "db \<Rightarrow> db \<Rightarrow> bool" where
  "same_tables d d' \<longleftrightarrow> t_rules d' = t_rules d \<and> t_static d' = t_static d \<and> t_entries d' = t_entries d"

definition calm_rel :: "store \<Rightarrow> store \<Rightarrow> bool" where
  "calm_rel s t \<longleftrightarrow> same_caches s t \<and> same_tables (s_db s) (s_db t)"

definition calm :: "(store, 'a) comp \<Rightarrow> bool" where
  "calm m \<longleftrightarrow> (\<forall>s. calm_rel s (snd (m s)))"

lemma same_tables_refl [simp]: "same_tables d d"
  by (simp add: same_tables_def)

lemma calm_rel_refl [simp]: "calm_rel s s"
  by (simp add: calm_rel_def)

lemma calm_rel_env [simp]: "calm_rel s (s\<lparr>s_env := e\<rparr>)"
  by (simp add: calm_rel_def)

lemma calm_rel_trans: "calm_rel s t \<Longrightarrow> calm_rel t u \<Longrightarrow> calm_rel s u"
  by (auto simp: calm_rel_def same_tables_def intro: same_caches_trans)

lemma calmI: "(\<And>s r t. m s = (r, t) \<Longrightarrow> calm_rel s t) \<Longrightarrow> calm m"
  unfolding calm_def by (metis prod.collapse)

lemma calmD: "calm m \<Longrightarrow> m s = (r, t) \<Longrightarrow> calm_rel s t"
  unfolding calm_def by (metis snd_conv)

lemma calm_env: "(\<And>s r t. m s = (r, t) \<Longrightarrow> \<exists>e. t = s\<lparr>s_env := e\<rparr>) \<Longrightarrow> calm m"
  by (rule calmI) (metis calm_rel_env)

lemma calm_ret [calm_intro]: "calm (ret a)"
  by (simp add: calm_def ret_def)

lemma calm_fail [calm_intro]: "calm (fail e)"
  by (simp add: calm_def fail_def)

lemma calm_gets [calm_intro]: "calm (gets f)"
  by (simp add: calm_def gets_def)

lemma calm_time_now [calm_intro]: "calm time_now"
  by (rule calm_env) (blast dest: time_now_state)

lemma calm_andThen [calm_intro]:
  assumes "calm m" and "\<And>a. calm (f a)"
  shows "calm (andThen m f)"
proof (rule calmI)
  fix s r t assume run: "andThen m f s = (r, t)"
  obtain r1 s1 where m: "m s = (r1, s1)"
    by fastforce
  with assms(1) have "calm_rel s s1"
    by (rule calmD)
  with run m assms(2) show "calm_rel s t"
    by (cases r1) (auto simp: andThen_def dest: calmD intro: calm_rel_trans)
qed

lemma calm_ignoring [calm_intro]: "calm m \<Longrightarrow> calm (ignoring m)"
  by (simp add: calm_def ignoring_def)

lemma calm_if [calm_intro]: "calm m \<Longrightarrow> calm n \<Longrightarrow> calm (if b then m else n)"
  by simp

lemma calm_option [calm_intro]: "calm m \<Longrightarrow> (\<And>x. calm (f x)) \<Longrightarrow> calm (case v of None \<Rightarrow> m | Some x \<Rightarrow> f x)"
  by (cases v) simp_all

lemma calm_sum [calm_intro]: "(\<And>e. calm (f e)) \<Longrightarrow> (\<And>x. calm (g x)) \<Longrightarrow> calm (case v of Inl e \<Rightarrow> f e | Inr x \<Rightarrow> g x)"
  by (cases v) simp_all

lemma calm_prod [calm_intro]: "(\<And>x y. calm (f x y)) \<Longrightarrow> calm (case v of (x, y) \<Rightarrow> f x y)"
  by (cases v) simp

lemma calm_forEach [calm_intro]: "(\<And>x. calm (f x)) \<Longrightarrow> calm (forEach xs f)"
  by (induction xs) (auto intro: calm_intro)

lemma calm_collect [calm_intro]: "(\<And>x. calm (f x)) \<Longrightarrow> calm (collect f xs)"
  by (induction xs) (auto intro: calm_intro)

lemma calm_exec_db:
  assumes "\<And>d a d'. stmt d = Inr (a, d') \<Longrightarrow> same_tables d d'"
  shows "calm (exec_db stmt)"
proof (rule calmI)
  fix s r t assume "exec_db stmt s = (r, t)"
  then show "calm_rel s t"
    by (cases rule: exec_db_cases) (auto simp: calm_rel_def dest: assms)
qed

lemma calm_exec_stmt: "(\<And>d. same_tables d (f d)) \<Longrightarrow> calm (exec_stmt f)"
  unfolding exec_stmt_def by (rule calm_exec_db) auto

lemma calm_queries [calm_intro]: "calm (query_db q)" "calm (query_row p)"
  unfolding query_db_def query_row_def by (rule calm_exec_db; auto split: option.splits)+

lemma calm_Audit [calm_intro]: "calm (Audit x y z)"
  unfolding Audit_def by (intro calm_intro calm_exec_stmt) (simp add: same_tables_def audit_row_of_def)

lemma calm_transaction [calm_intro]:
  assumes "calm body"
  shows "calm (transaction body)"
proof (rule calmI)
  fix s r t assume "transaction body s = (r, t)"
  then show "calm_rel s t"
    by (cases rule: transaction_cases) (auto simp: calm_rel_def dest!: calmD [OF assms])
qed


section \<open>The methods that are calm\<close>

lemma calm_setSetting [calm_intro]: "calm (setSetting k v)"
  unfolding setSetting_def by (rule calm_exec_stmt) (simp add: same_tables_def)

lemma calm_read_setting: "calm_rel s (snd (read_setting k s))"
proof -
  obtain r t where q: "query_row (setting k) s = (r, t)"
    by fastforce
  with calmD [OF calm_queries(2) q] show ?thesis
    by (cases r) (simp_all add: read_setting_def)
qed

lemma calm_RetentionDays: "calm_rel s (snd (RetentionDays s))"
  using calm_read_setting [of s "''retention.days''"]
  by (cases "read_setting ''retention.days'' s") (simp add: RetentionDays_def)

lemma calm_Retention [calm_intro]: "calm Retention"
proof (rule calmI)
  fix s r t assume "Retention s = (r, t)"
  then show "calm_rel s t"
    using calm_RetentionDays [of s] calm_read_setting [of "snd (RetentionDays s)" "''retention.last_purge''"]
    by (auto simp: Retention_def split: prod.splits intro: calm_rel_trans)
qed

lemma calm_settings [calm_intro]: "calm (SetRetention days)" "calm (AuditEvents n)"
  unfolding SetRetention_def AuditEvents_def by (intro calm_intro)+

lemma calm_put_settings [calm_intro]: "calm (put_settings pairs)"
  unfolding put_settings_def by (intro calm_intro calm_exec_stmt) (simp add: same_tables_def)

lemma calm_hosts [calm_intro]:
  "calm (EnsureHost ip)" "calm (SetHostLabel hid label)" "calm (get_host hid)" "calm Hosts" "calm (UpdateHostIdentity hid u)"
  "calm (EnrichHostIdentity lk hid ip)"
  unfolding EnsureHost_def SetHostLabel_def get_host_def Hosts_def EnrichHostIdentity_def UpdateHostIdentity_def Let_def
  by (intro calm_intro calm_exec_stmt; simp add: same_tables_def observe_def)+

lemma calm_events [calm_intro]: "calm (InsertQueryEvent e)" "calm (RecentEvents act n)" "calm (RecentEventsByHostSince hid act since n)"
  unfolding InsertQueryEvent_def RecentEvents_def RecentEventsByHostSince_def
  by (intro calm_intro calm_exec_stmt calm_exec_db;
      auto simp: same_tables_def insert_event_def insert_block_def Let_def split: if_splits)+

lemma calm_purge [calm_intro]: "calm PurgeOldEvents"
proof (rule calmI)
  fix s r t assume run: "PurgeOldEvents s = (r, t)"
  have "calm (andThen time_now (\<lambda>now. purge_before (fmt_time (days_ago now days))))" for days
    unfolding purge_before_def by (intro calm_intro calm_exec_stmt calm_exec_db) (auto simp: same_tables_def purge_events_def)
  with run show "calm_rel s t"
    using calm_RetentionDays [of s] by (auto simp: PurgeOldEvents_def split: prod.splits dest: calmD intro: calm_rel_trans)
qed

lemma calm_lists [calm_intro]:
  "calm SeedBlocklistPresets" "calm BlocklistPresets" "calm (SetBlocklistPresetEnabled pid b)" "calm BlocklistSources"
  "calm (get_source sid)" "calm (AddBlocklistSource lk n u f)" "calm (SetBlocklistSourceEnabled sid b)"
  "calm enabledBlocklistFetchSources" "calm (recordBlocklistSourceStatus src res)"
  unfolding SeedBlocklistPresets_def BlocklistPresets_def SetBlocklistPresetEnabled_def BlocklistSources_def get_source_def
    AddBlocklistSource_def blocklistSourceByURL_def SetBlocklistSourceEnabled_def enabledBlocklistFetchSources_def
    recordBlocklistSourceStatus_def Let_def
  by (intro calm_intro calm_exec_stmt calm_exec_db; auto simp: same_tables_def)+


lemma calm_or_else [calm_intro]: "calm m \<Longrightarrow> calm (or_else a m)"
  unfolding calm_def or_else_def by (auto split: prod.splits sum.splits) (metis snd_conv)+

lemma calm_reports [calm_intro]:
  "calm (topRows q)" "calm (topHostRows since)" "calm (HostDetailOf hid hours)" "calm (HostReportOf hid)"
  unfolding topRows_def topHostRows_def HostDetailOf_def HostReportOf_def Let_def by (intro calm_intro)+

lemma calm_percent [calm_intro]: "calm (topRowsWithPercent q everything)"
proof (rule calmI)
  fix s r t assume run: "topRowsWithPercent q everything s = (r, t)"
  obtain r1 s1 where 1: "topRows q s = (r1, s1)"
    by fastforce
  obtain r2 s2 where 2: "query_db everything s1 = (r2, s2)"
    by fastforce
  from calmD [OF calm_reports(1) 1] calmD [OF calm_queries(1) 2] run 1 2 show "calm_rel s t"
    by (auto simp: topRowsWithPercent_def split: sum.splits intro: calm_rel_trans)
qed

lemma calm_DashboardOf [calm_intro]: "calm (DashboardOf zone dbPath)"
proof (rule calmI)
  fix s r t assume run: "DashboardOf zone dbPath s = (r, t)"
  have "calm (dashboard_queries zone dbPath days)" for days
    unfolding dashboard_queries_def Let_def by (intro calm_intro)
  with run show "calm_rel s t"
    using calm_RetentionDays [of s] by (auto simp: DashboardOf_def split: prod.splits dest: calmD intro: calm_rel_trans)
qed

lemma calm_HA [calm_intro]:
  "calm (get_HASettings c)" "calm (SaveHASettings c nonce h)" "calm (ValidateHAImportAllowed c)" "calm (get_HAHealth c)"
  unfolding SaveHASettings_def ValidateHAImportAllowed_def get_HAHealth_def get_HASettings_def Let_def
  by (intro calm_intro)+

lemma calm_raw [calm_intro]: "calm (haJoinRequestsRaw j)"
proof (rule calmI)
  fix s r t assume "haJoinRequestsRaw j s = (r, t)"
  then show "calm_rel s t"
    by (cases rule: haJoinRequestsRaw_cases) simp_all
qed

lemma calm_joins [calm_intro]:
  "calm (HAJoinRequests j)" "calm (SaveHAJoinRequest c j nonce rid i)" "calm (HAJoinRequestForAccept c j rid)"
  "calm (MarkHAJoinRequestAccepted j rid)" "calm (AcceptHAJoinRequest c j nonce rid)"
  unfolding HAJoinRequests_def SaveHAJoinRequest_def HAJoinRequestForAccept_def MarkHAJoinRequestAccepted_def
    AcceptHAJoinRequest_def saveHAJoinRequests_def Let_def
  by (intro calm_intro)+

lemma calm_note [calm_intro]: "calm (note_status m st)" "calm (note_error st m)"
  unfolding note_error_def note_status_def by (intro calm_intro)+

lemma calm_TestHAPeer [calm_intro]: "calm (TestHAPeer c beat)"
  unfolding TestHAPeer_def Let_def
  by (intro calm_intro) (auto split: heartbeat_reply.splits intro!: calm_intro)

lemma calm_unifi [calm_intro]: "calm (get_UniFiSettings c)" "calm (SaveUniFiSettings c nonce u)" "calm (import_clients cs)"
  unfolding SaveUniFiSettings_def get_UniFiSettings_def import_clients_def import_client_def Let_def
  by (intro calm_intro)+

lemma calm_TestUniFi: "calm_rel s (snd (TestUniFi c controller s))"
proof -
  obtain r t where t: "get_UniFiSettings c s = (r, t)"
    by fastforce
  note calmD [OF calm_unifi(1) t]
  moreover have "calm_rel t (snd (setSetting k v t))" for k v
    using calm_setSetting by (simp add: calm_def)
  ultimately show ?thesis
    by (auto simp: TestUniFi_def t split: sum.splits prod.splits intro: calm_rel_trans)
qed

lemma calm_ImportUniFi: "calm_rel s (snd (ImportUniFiClients c controller s))"
proof -
  obtain r t where t: "get_UniFiSettings c s = (r, t)"
    by fastforce
  note 1 = calmD [OF calm_unifi(1) t]
  have 2: "calm_rel t (snd (setSetting k v t))" for k v
    using calm_setSetting by (simp add: calm_def)
  have 3: "calm_rel u (snd (andThen time_now (\<lambda>now. andThen (ignoring (setSetting k (fmt_time now))) (\<lambda>_.
      andThen (ignoring (setSetting k' v')) (\<lambda>_. ignoring (Audit x y z)))) u))" for u k k' v' x y z
  proof -
    have "calm (andThen time_now (\<lambda>now. andThen (ignoring (setSetting k (fmt_time now))) (\<lambda>_.
      andThen (ignoring (setSetting k' v')) (\<lambda>_. ignoring (Audit x y z)))))"
      by (intro calm_intro)
    then show ?thesis
      by (simp add: calm_def)
  qed
  have 4: "calm_rel t u" if "import_clients cs t = (q, u)" for cs q u
    using calm_unifi(3) that by (rule calmD)
  note 5 = calm_rel_trans [OF 1 4] and 6 = calm_rel_trans [OF calm_rel_trans [OF 1 4] 3] and 7 = calm_rel_trans [OF 1 2]
  show ?thesis
    by (simp add: ImportUniFiClients_def t split: sum.split prod.split) (intro conjI impI allI; rule 1 5 6 7; assumption?)
qed

section \<open>Keeping the invariant\<close>

lemmas coherence_defs = rules_coherent_def static_coherent_def blocklist_coherent_def coherent_def rules_view_def
  select_rules_def static_view_def select_static_def blocklist_view_def entries_map_def

lemma policy_ok_env: "env_free policy_ok"
  by (simp add: env_free_def policy_ok_def coherence_defs)

lemma policy_ok_calm: "calm_rel s t \<Longrightarrow> policy_ok s \<Longrightarrow> policy_ok t"
  by (cases s; cases t; auto simp: calm_rel_def same_tables_def same_caches_def policy_ok_def coherence_defs)

lemma calm_keeps: "calm m \<Longrightarrow> keeps policy_ok m"
  by (rule keepsI) (auto simp: calm_def intro: policy_ok_calm)

lemma keeps_exec_modify:
  assumes "env_free I" and "\<And>s e. g (s\<lparr>s_env := e\<rparr>) = (g s)\<lparr>s_env := e\<rparr>"
    and "\<And>s a d. I s \<Longrightarrow> stmt (s_db s) = Inr (a, d) \<Longrightarrow> stop a \<Longrightarrow> I (s\<lparr>s_db := d\<rparr>)"
    and "\<And>s a d. I s \<Longrightarrow> stmt (s_db s) = Inr (a, d) \<Longrightarrow> \<not> stop a \<Longrightarrow> I (g (s\<lparr>s_db := d\<rparr>))"
    and "\<And>a. keeps I (k a)"
  shows "keeps I (andThen (exec_db stmt) (\<lambda>a. if stop a then fail e else andThen (modify g) (\<lambda>_. k a)))"
proof (rule keepsI)
  fix s assume I: "I s"
  obtain r t where x: "exec_db stmt s = (r, t)"
    by fastforce
  then show "I (snd (andThen (exec_db stmt) (\<lambda>a. if stop a then fail e else andThen (modify g) (\<lambda>_. k a)) s))"
  proof (cases rule: exec_db_cases)
    case (okay a d e')
    have t: "t = (s\<lparr>s_db := d\<rparr>)\<lparr>s_env := e'\<rparr>"
      by (simp add: okay(3))
    show ?thesis
    proof (cases "stop a")
      case True
      from assms(1) assms(3) [OF I okay(1) True] have "I t"
        by (simp only: t env_free_def)
      with True x okay(2) show ?thesis
        by (simp add: andThen_def fail_def)
    next
      case False
      from assms(1) assms(4) [OF I okay(1) False] have "I (g t)"
        by (simp only: t assms(2) env_free_def)
      with False x okay(2) keeps_snd [OF assms(5) this, of a] show ?thesis
        by (simp add: andThen_def modify_def)
    qed
  next
    case (failed e' y)
    with I assms(1) x show ?thesis
      by (simp add: andThen_def env_free_def)
  qed
qed

text \<open>The same without the way out.\<close>

lemma keeps_stmt_modify:
  assumes "env_free I" and "\<And>s e. g (s\<lparr>s_env := e\<rparr>) = (g s)\<lparr>s_env := e\<rparr>"
    and "\<And>s. I s \<Longrightarrow> I (g (s\<lparr>s_db := f (s_db s)\<rparr>))" and "keeps I k"
  shows "keeps I (andThen (exec_stmt f) (\<lambda>_. andThen (modify g) (\<lambda>_. k)))"
  using keeps_exec_modify [of I g "\<lambda>d. Inr ((), f d)" "\<lambda>_. False" "\<lambda>_. k" ErrDB] assms
  by (auto simp: exec_stmt_def)

lemma static_args:
  assumes "NormalizeName n \<noteq> ''''" and "to_upper (trim_space ty) \<noteq> ''''" and "trim_space v \<noteq> ''''" and "0 < ttl"
  shows "static_args_ok \<lparr>sa_name = NormalizeName n, sa_type = to_upper (trim_space ty), sa_value = trim_space v, sa_ttl = ttl, sa_now = t\<rparr>"
  using assms by (simp add: static_args_ok_def NormalizeName_final_dot NormalizeName_lower)

lemma keeps_UpsertStaticRecord: "keeps policy_ok (UpsertStaticRecord r)"
proof -
  have step: "policy_ok (invalidateStaticCache (s\<lparr>s_db := (s_db s)\<lparr>t_static := static_put n (t_static (s_db s))\<rparr>\<rparr>))"
    if "policy_ok s" "static_args_ok n" for s n
    using that by (simp add: policy_ok_def coherence_defs invalidateStaticCache_def static_put_ok)
  have env: "invalidateStaticCache (s\<lparr>s_env := e\<rparr>) = (invalidateStaticCache s)\<lparr>s_env := e\<rparr>" for s e
    by (simp add: invalidateStaticCache_def)
  show ?thesis
    unfolding UpsertStaticRecord_def Let_def
    by (intro keeps_intro policy_ok_env keeps_exec_then_modify step env static_args) auto
qed

lemma rule_args:
  assumes "NormalizeName tgt \<noteq> ''''" and "act = ''block'' \<or> act = ''allow''"
  shows "rule_args_ok \<lparr>ra_target = NormalizeName tgt, ra_action = act, ra_note = n, ra_now = t\<rparr>"
  using assms by (auto simp: rule_args_ok_def NormalizeName_final_dot NormalizeName_lower)

lemma invalidate_env:
  "invalidateRuleCache (s\<lparr>s_env := e\<rparr>) = (invalidateRuleCache s)\<lparr>s_env := e\<rparr>"
  "invalidateBlocklistCache (s\<lparr>s_env := e\<rparr>) = (invalidateBlocklistCache s)\<lparr>s_env := e\<rparr>"
  by (simp_all add: invalidateRuleCache_def invalidateBlocklistCache_def)

lemma policy_ok_rules:
  "policy_ok s \<Longrightarrow> rules_table_ok rows \<Longrightarrow> policy_ok (invalidateRuleCache (s\<lparr>s_db := (s_db s)\<lparr>t_rules := rows\<rparr>\<rparr>))"
  by (simp add: policy_ok_def coherence_defs invalidateRuleCache_def)

lemma keeps_AddRule: "keeps policy_ok (AddRule target action note)"
proof -
  have step: "policy_ok (invalidateRuleCache (s\<lparr>s_db := (s_db s)\<lparr>t_rules := rule_put n (t_rules (s_db s))\<rparr>\<rparr>))"
    if "policy_ok s" "rule_args_ok n" for s n
  proof -
    have "rules_table_ok (t_rules (s_db s))"
      using that(1) by (simp add: policy_ok_def)
    then show ?thesis
      by (intro policy_ok_rules that(1) rule_put_ok that(2))
  qed
  have tail: "keeps policy_ok (andThen (query_row q) (\<lambda>rid. andThen (ignoring (Audit x y z)) (\<lambda>_. get_rule rid)))"
    for q :: "db \<Rightarrow> int option" and x y z
    unfolding get_rule_def by (intro calm_keeps calm_intro)
  show ?thesis
    unfolding AddRule_def Let_def
    by (intro keeps_intro policy_ok_env keeps_stmt_modify step invalidate_env rule_args tail) auto
qed

lemma rules_flag_ok:
  assumes "rules_table_ok rows"
  shows "rules_table_ok (update_where P (\<lambda>r. r\<lparr>rr_enabled := (if b then 1 else 0)\<rparr>) rows)"
    and "rules_table_ok (update_where P (\<lambda>r. r\<lparr>rr_hit_count := rr_hit_count r + 1, rr_last_hit_at := x\<rparr>) rows)"
  by (rule rules_update_ok [OF assms]; simp add: rule_key_def rule_row_ok_def)+

lemma update_where_none: "filter P rows = [] \<Longrightarrow> update_where P f rows = rows"
  by (simp add: update_where_def filter_empty_conv map_idI)

lemma keeps_SetRuleEnabled: "keeps policy_ok (SetRuleEnabled rid enabled)"
proof -
  have tail: "keeps policy_ok (andThen (ignoring (Audit x y z)) (\<lambda>_. get_rule rid))" for x y z
    unfolding get_rule_def by (intro calm_keeps calm_intro)
  show ?thesis
    unfolding SetRuleEnabled_def Let_def
  proof (rule keeps_exec_modify [OF policy_ok_env invalidate_env(1) _ _ tail], goal_cases)
    case (1 s n d)
    then have "d = s_db s"
      by (auto simp: update_where_none)
    with 1(1) show ?case
      by simp
  next
    case (2 s n d)
    then have "rules_table_ok (t_rules (s_db s))"
      by (simp add: policy_ok_def)
    with 2 show ?case
      by (auto intro!: policy_ok_rules rules_flag_ok(1))
  qed
qed

lemma keeps_RecordRuleHit: "keeps policy_ok (RecordRuleHit rid)"
proof -
  have rows: "policy_ok s \<Longrightarrow> rules_table_ok (t_rules (s_db s))" for s
    by (simp add: policy_ok_def)
  show ?thesis
    unfolding RecordRuleHit_def
    by (intro keeps_intro policy_ok_env keeps_exec_then_modify policy_ok_rules rules_flag_ok rows invalidate_env)
qed

section \<open>Reading through the caches\<close>

lemma reads_state:
  "snd (StaticRecords s) = s \<or> (\<exists>e. snd (StaticRecords s) = s\<lparr>s_env := e\<rparr>) \<or>
     (\<exists>e. snd (StaticRecords s) = s\<lparr>s_env := e, staticCache := static_view s, staticLoaded := True\<rparr>)" (is ?static)
  "snd (Rules s) = s \<or> (\<exists>e. snd (Rules s) = s\<lparr>s_env := e\<rparr>) \<or>
     (\<exists>e. snd (Rules s) = s\<lparr>s_env := e, rulesCache := rules_view s, rulesLoaded := True\<rparr>)" (is ?rules)
  "snd (blocklistEntries s) = s \<or> (\<exists>e. snd (blocklistEntries s) = s\<lparr>s_env := e\<rparr>) \<or>
     (\<exists>e. snd (blocklistEntries s) = s\<lparr>s_env := e, blocklistCache := blocklist_view s, blocklistLoaded := True\<rparr>)" (is ?lists)
proof -
  obtain r t where x: "query_db (\<lambda>d. map scan_static (select_static d)) s = (r, t)"
    by fastforce
  from x show ?static
    by (cases rule: query_db_cases) (auto simp: StaticRecords_def static_view_def x)
next
  obtain r t where x: "query_db (\<lambda>d. map scanRule (select_rules d)) s = (r, t)"
    by fastforce
  from x show ?rules
    by (cases rule: query_db_cases) (auto simp: Rules_def rules_view_def x)
next
  obtain r t where x: "query_db entries_map s = (r, t)"
    by fastforce
  from x show ?lists
    by (cases rule: query_db_cases) (auto simp: blocklistEntries_def blocklist_view_def x)
qed

lemma policy_ok_filled:
  assumes "policy_ok s"
  shows "policy_ok (s\<lparr>s_env := e\<rparr>)"
    "policy_ok (s\<lparr>s_env := e, staticCache := static_view s, staticLoaded := True\<rparr>)"
    "policy_ok (s\<lparr>s_env := e, rulesCache := rules_view s, rulesLoaded := True\<rparr>)"
    "policy_ok (s\<lparr>s_env := e, blocklistCache := blocklist_view s, blocklistLoaded := True\<rparr>)"
  using assms by (simp_all add: policy_ok_def coherence_defs)

lemma keeps_reads:
  "keeps policy_ok StaticRecords" "keeps policy_ok Rules" "keeps policy_ok blocklistEntries"
  by (rule keepsI; use reads_state policy_ok_filled in metis)+

lemma keeps_matches: "keeps policy_ok (MatchRule q)" "keeps policy_ok (MatchBlocklist q)"
  unfolding MatchRule_def MatchBlocklist_def Let_def by (intro keeps_intro keeps_reads policy_ok_env)+

section \<open>The refresh\<close>

definition entries_rel :: "store \<Rightarrow> store \<Rightarrow> bool" where
  "entries_rel s t \<longleftrightarrow> same_caches s t \<and> t_rules (s_db t) = t_rules (s_db s) \<and> t_static (s_db t) = t_static (s_db s)"

lemma entries_rel_ok: "policy_ok s \<Longrightarrow> entries_rel s t \<Longrightarrow> policy_ok (invalidateBlocklistCache t)"
  by (cases s; cases t; auto simp: entries_rel_def same_caches_def policy_ok_def coherence_defs invalidateBlocklistCache_def)

lemma keeps_replaceBlocklistEntries: "keeps policy_ok (replaceBlocklistEntries source domains)"
proof (rule keepsI)
  fix s assume s: "policy_ok s"
  let ?body = "andThen (exec_stmt (\<lambda>d. d\<lparr>t_entries := delete_where (from_source source) (t_entries d)\<rparr>)) (\<lambda>_.
        andThen time_now (\<lambda>now.
        andThen (query_db (\<lambda>_. ())) (\<lambda>_.
        forEach domains (\<lambda>domain.
          exec_stmt (\<lambda>d. d\<lparr>t_entries := insert_entry source (fmt_time now) domain (t_entries d)\<rparr>)))))"
  have "env_free (entries_rel s)"
    by (simp add: env_free_def entries_rel_def)
  then have body: "keeps (entries_rel s) ?body"
    by (intro keeps_intro keeps_exec_stmt) (simp_all add: entries_rel_def)
  obtain r t where x: "transaction ?body s = (r, t)"
    by fastforce
  from x show "policy_ok (snd (replaceBlocklistEntries source domains s))"
  proof (cases rule: transaction_cases)
    case (okay a e u e')
    have "entries_rel s (s\<lparr>s_env := e\<rparr>)"
      by (simp add: entries_rel_def)
    with body okay(2) have "entries_rel s u"
      by (auto dest: keepsD)
    then have "entries_rel s t"
      by (simp add: okay(3) entries_rel_def)
    with s x okay(1) show ?thesis
      by (simp add: replaceBlocklistEntries_def andThen_def modify_def entries_rel_ok)
  next
    case (failed y e u e' r')
    have "entries_rel s (s\<lparr>s_env := e\<rparr>)"
      by (simp add: entries_rel_def)
    with body failed(2) have "entries_rel s u"
      by (auto dest: keepsD)
    then have "calm_rel s t"
      by (simp add: failed(3) entries_rel_def calm_rel_def)
    with s x failed(1) show ?thesis
      by (auto simp: replaceBlocklistEntries_def andThen_def intro: policy_ok_calm)
  next
    case (not_begun y e)
    with s x show ?thesis
      by (auto simp: replaceBlocklistEntries_def andThen_def intro: policy_ok_calm [OF calm_rel_env])
  qed
qed

lemma keeps_result_case:
  assumes "keeps I m" and "\<And>e. keeps I (f e)" and "\<And>a. keeps I (g a)"
  shows "keeps I (\<lambda>s. case m s of (Inl e, s') \<Rightarrow> f e s' | (Inr a, s') \<Rightarrow> g a s')"
proof (rule keepsI)
  fix s assume "I s"
  obtain r t where m: "m s = (r, t)"
    by fastforce
  with assms(1) \<open>I s\<close> have "I t"
    by (auto dest: keepsD)
  with m assms(2,3) show "I (snd (case m s of (Inl e, s') \<Rightarrow> f e s' | (Inr a, s') \<Rightarrow> g a s'))"
    by (cases r) (auto intro: keeps_snd)
qed

lemma keeps_refresh: "keeps policy_ok (RefreshBlocklists Fetch)"
proof -
  have report: "keeps policy_ok (andThen (recordBlocklistSourceStatus source res) (\<lambda>_. ret res))" for source res
    by (intro calm_keeps calm_intro)
  have one: "keeps policy_ok (refreshBlocklistSource Fetch source)" for source
    unfolding refreshBlocklistSource_def Let_def
    by (auto intro!: report keeps_result_case keeps_replaceBlocklistEntries keeps_intro split: fetch.split option.split)
  show ?thesis
    unfolding RefreshBlocklists_def by (intro keeps_intro one calm_keeps calm_intro)
qed

section \<open>The pair\<close>

lemma sync_rule_put_ok:
  assumes "rules_table_ok rows" and "sync_rule now r = Some n"
  shows "rules_table_ok (sync_rule_put n rows)"
proof -
  have n: "yr_action n \<in> {''block'', ''allow''}" "has_suffix (yr_target n) ''.''" "to_lower (yr_target n) = yr_target n" "yr_enabled n \<in> {0, 1}"
    using assms(2) by (auto simp: sync_rule_def Let_def NormalizeName_final_dot NormalizeName_lower split: if_splits)
  from assms(1) have "distinct (map rr_id (sync_rule_put n rows))"
    by (simp add: rules_table_ok_def sync_rules_table.put_rids_distinct)
  moreover from assms(1) have "distinct (map rule_key (sync_rule_put n rows))"
    by (simp add: rules_table_ok_def sync_rules_table.put_distinct)
  moreover have "rule_row_ok q" if "q \<in> set (sync_rule_put n rows)" for q
    by (rule sync_rules_table.put_all [OF _ _ _ that])
      (use assms(1) n in \<open>auto simp: rules_table_ok_def rule_row_ok_def sync_rule_fresh_def sync_rule_merge_def\<close>)
  ultimately show ?thesis
    by (simp add: rules_table_ok_def)
qed

lemma map_filter_Cons: "List.map_filter f (x # xs) = (case f x of None \<Rightarrow> List.map_filter f xs | Some y \<Rightarrow> y # List.map_filter f xs)"
  by (simp add: List.map_filter_def split: option.split)

lemma fold_rules_ok: "rules_table_ok rows \<Longrightarrow> rules_table_ok (fold sync_rule_put (List.map_filter (sync_rule now) rs) rows)"
  by (induction rs arbitrary: rows) (auto simp: map_filter_Cons List.map_filter_def [of _ "[]"] sync_rule_put_ok split: option.split)

lemma fold_static_ok: "static_table_ok rows \<Longrightarrow> static_table_ok (fold static_put (List.map_filter (sync_record now) rs) rows)"
proof (induction rs arbitrary: rows)
  case (Cons r rs)
  have "static_args_ok n" if "sync_record now r = Some n" for n
    using that by (auto simp: sync_record_def Let_def split: if_splits intro!: static_args)
  with Cons show ?case
    by (auto simp: map_filter_Cons static_put_ok split: option.split)
qed (simp add: List.map_filter_def)

lemma kept_rules_ok: "rules_table_ok rows \<Longrightarrow> rules_table_ok (kept_rules now p rows)"
  using fold_rules_ok [of rows now "HP_Rules p"] by (auto simp: kept_rules_def Let_def rules_table_ok_def distinct_map_filter)

lemma kept_static_ok: "static_table_ok rows \<Longrightarrow> static_table_ok (kept_static now p rows)"
  using fold_static_ok [of rows now "HP_StaticRecords p"] by (auto simp: kept_static_def Let_def static_table_ok_def distinct_map_filter)

lemma keeps_ApplyHASyncPayload: "keeps policy_ok (ApplyHASyncPayload p)"
proof (rule keepsI)
  fix s assume s: "policy_ok s"
  obtain r t where x: "ApplyHASyncPayload p s = (r, t)"
    by fastforce
  then show "policy_ok (snd (ApplyHASyncPayload p s))"
  proof (cases rule: ApplyHASyncPayload_cases)
    case (failed y e)
    with s x show ?thesis
      by (auto intro: policy_ok_calm [OF calm_rel_env])
  next
    case (okay res now e)
    let ?u = "forget_caches (s\<lparr>s_db := synced now p (s_db s), s_env := e\<rparr>)"
    have "policy_ok ?u"
      using s by (simp add: policy_ok_def coherence_defs forget_caches_def invalidateBlocklistCache_def invalidateRuleCache_def
          invalidateStaticCache_def synced_def kept_rules_ok kept_static_ok)
    moreover have "calm_rel ?u t"
      using okay(3) by (auto simp: after_commit_def calm_rel_def same_tables_def)
    ultimately show ?thesis
      using x by (auto intro: policy_ok_calm)
  qed
qed

lemma keeps_pushHASync: "keeps policy_ok (pushHASync c post audit)"
  unfolding pushHASync_def ExportHASyncPayload_def Let_def
  by (intro keeps_intro keeps_reads policy_ok_env calm_keeps calm_intro)
    (auto split: push_reply.split intro!: calm_keeps calm_intro)

lemma policy_ok_workers: "policy_ok s \<Longrightarrow> policy_ok (runHeartbeat c beat s)" "policy_ok s \<Longrightarrow> policy_ok (runSync c post s)"
proof -
  have "keeps policy_ok (andThen (get_HASettings c) (\<lambda>settings.
      if \<not> HA_Enabled settings \<or> HA_PeerURL settings = '''' then ret () else ignoring (TestHAPeer c beat)))"
    by (intro calm_keeps calm_intro)
  then show "policy_ok s \<Longrightarrow> policy_ok (runHeartbeat c beat s)"
    unfolding runHeartbeat_def by (rule keeps_snd)
  have "keeps policy_ok (andThen (get_HASettings c) (\<lambda>settings.
      if \<not> HA_Enabled settings \<or> HA_Role settings \<noteq> ''primary'' \<or> HA_PeerURL settings = '''' then ret ()
      else ignoring (pushHASync c post False)))"
    by (intro keeps_intro keeps_pushHASync calm_keeps calm_intro)
  then show "policy_ok s \<Longrightarrow> policy_ok (runSync c post s)"
    unfolding runSync_def by (rule keeps_snd)
qed

end
