(* ===== verification/DNS_Policy.thy ===== *)
theory DNS_Policy
  imports DNS_Server Store_Invariant
begin

text \<open>
  What the DNS server promises, as a function of its tables: the rule of smallest id that applies decides,
  then the entries of the blocklists, then the static record for name and type, and everything else goes
  to the upstream. \<open>answer_query\<close> of internal/dnsserver/server.go, with its caches and its order of calls,
  refines it while no call to the database fails.
\<close>

section \<open>The abstract policy\<close>

datatype decision =
    Block "int option"
  | Record "int option" "RR list"
  | Forward "int option"

definition rule_for :: "instant \<Rightarrow> string \<Rightarrow> db \<Rightarrow> rule_row option" where
  "rule_for now name d = find (row_applies now name) (sort_key rr_id (t_rules d))"

definition listed :: "string \<Rightarrow> db \<Rightarrow> bool" where
  "listed name d \<longleftrightarrow> name \<noteq> '''' \<and> list_ex (\<lambda>r. en_domain r \<noteq> '''' \<and> covers (en_domain r) name) (t_entries d)"

definition record_for :: "dns_lib \<Rightarrow> Question \<Rightarrow> db \<Rightarrow> RR list" where
  "record_for lib q d =
     (case find (\<lambda>r. static_key r = (NormalizeName (q_Name q), TypeToString lib (q_Qtype q))) (t_static d) of
        None \<Rightarrow> []
      | Some r \<Rightarrow> record_answer q (NormalizeName (q_Name q)) (TypeToString lib (q_Qtype q)) (scan_static r))"

definition answer_or_forward :: "dns_lib \<Rightarrow> Question \<Rightarrow> int option \<Rightarrow> db \<Rightarrow> decision" where
  "answer_or_forward lib q rid d =
     (if record_for lib q d = [] then Forward rid else Record rid (record_for lib q d))"

definition decision_of :: "dns_lib \<Rightarrow> instant \<Rightarrow> Question \<Rightarrow> db \<Rightarrow> decision" where
  \<comment> \<open>the matches normalise the name once more than the handler does\<close>
  "decision_of lib now q d =
     (let name = NormalizeName (NormalizeName (q_Name q))
      in case rule_for now name d of
           Some r \<Rightarrow> if rr_action r = ''allow'' then answer_or_forward lib q (Some (rr_id r)) d else Block (Some (rr_id r))
         | None \<Rightarrow> if listed name d then Block None else answer_or_forward lib q None d)"

definition carries_out :: "dns_lib \<Rightarrow> Config \<Rightarrow> Msg \<Rightarrow> Question \<Rightarrow> Server \<Rightarrow> decision \<Rightarrow> Query \<Rightarrow> Server \<Rightarrow> bool" where
  \<comment> \<open>what the server does about a decision: the reply, the action and rule recorded, who is asked\<close>
  "carries_out lib cfg r q s dec v t \<longleftrightarrow>
     (case dec of
        Block rid \<Rightarrow> v_action v = ''blocked'' \<and> v_matchedRuleID v = rid \<and> sv_asked t = sv_asked s \<and>
          v_msg v = addSinkholeAnswer cfg q ((SetReply lib r)\<lparr>m_Authoritative := False\<rparr>) \<and> sv_blocked t = sv_blocked s + 1
      | Record rid rrs \<Rightarrow> v_action v = ''static'' \<and> v_matchedRuleID v = rid \<and> sv_asked t = sv_asked s \<and>
          v_msg v = (SetReply lib r)\<lparr>m_Authoritative := False, m_Answer := rrs\<rparr> \<and> sv_blocked t = sv_blocked s
      | Forward rid \<Rightarrow> v_action v \<in> {''allowed'', ''upstream_failed''} \<and> v_matchedRuleID v = rid \<and>
          sv_asked t \<noteq> sv_asked s \<and> v_upstream v = Upstream cfg \<and> sv_blocked t = sv_blocked s)"

section \<open>Reading the tables through the caches\<close>

lemma query_working: "unfailing s \<Longrightarrow> query_db f s = (Inr (f (s_db s)), s)"
  by (simp add: query_db_def exec_db_def db_call_def unfailing_def)

lemma reads_working:
  assumes "unfailing s" and "policy_ok s"
  shows "Rules s = (Inr (rules_view s), s\<lparr>rulesCache := rules_view s, rulesLoaded := True\<rparr>)"
    and "StaticRecords s = (Inr (static_view s), s\<lparr>staticCache := static_view s, staticLoaded := True\<rparr>)"
    and "blocklistEntries s = (Inr (blocklist_view s), s\<lparr>blocklistCache := blocklist_view s, blocklistLoaded := True\<rparr>)"
proof -
  have fill: "rulesLoaded s \<Longrightarrow> s\<lparr>rulesCache := rules_view s, rulesLoaded := True\<rparr> = s"
    "staticLoaded s \<Longrightarrow> s\<lparr>staticCache := static_view s, staticLoaded := True\<rparr> = s"
    "blocklistLoaded s \<Longrightarrow> s\<lparr>blocklistCache := blocklist_view s, blocklistLoaded := True\<rparr> = s"
    using assms(2) by (cases s; auto simp: policy_ok_def rules_coherent_def static_coherent_def blocklist_coherent_def coherent_def)+
  have cached: "rulesLoaded s \<Longrightarrow> rulesCache s = rules_view s" "staticLoaded s \<Longrightarrow> staticCache s = static_view s"
    "blocklistLoaded s \<Longrightarrow> blocklistCache s = blocklist_view s"
    using assms(2) by (simp_all add: policy_ok_def rules_coherent_def static_coherent_def blocklist_coherent_def coherent_def)
  note query = query_working [OF assms(1)]
  show "Rules s = (Inr (rules_view s), s\<lparr>rulesCache := rules_view s, rulesLoaded := True\<rparr>)"
    using fill(1) cached(1) by (cases "rulesLoaded s") (simp_all add: Rules_def query rules_view_def)
  show "StaticRecords s = (Inr (static_view s), s\<lparr>staticCache := static_view s, staticLoaded := True\<rparr>)"
    using fill(2) cached(2) by (cases "staticLoaded s") (simp_all add: StaticRecords_def query static_view_def)
  show "blocklistEntries s = (Inr (blocklist_view s), s\<lparr>blocklistCache := blocklist_view s, blocklistLoaded := True\<rparr>)"
    using fill(3) cached(3) by (cases "blocklistLoaded s") (simp_all add: blocklistEntries_def query blocklist_view_def)
qed

definition ready :: "db \<Rightarrow> store \<Rightarrow> bool" where
  \<comment> \<open>a store in order, with the entries and records of \<open>d\<close>\<close>
  "ready d s \<longleftrightarrow> policy_ok s \<and> unfailing s \<and> t_static (s_db s) = t_static d \<and> t_entries (s_db s) = t_entries d"

lemma readyD: "ready d s \<Longrightarrow> policy_ok s" "ready d s \<Longrightarrow> unfailing s"
  by (simp_all add: ready_def)

lemma find_least:
  assumes "distinct (map rr_id rows)" and "\<And>r. P r \<Longrightarrow> rr_enabled r = 1"
  shows "find P (sort_key (\<lambda>r. (- rr_enabled r, rr_id r)) rows) = find P (sort_key rr_id rows)"
proof -
  let ?a = "sort_key (\<lambda>r. (- rr_enabled r, rr_id r)) rows" and ?b = "sort_key rr_id rows"
  show ?thesis
  proof (cases "find P ?a")
    case None
    then have "find P ?b = None"
      by (auto simp: find_None_iff)
    with None show ?thesis
      by simp
  next
    case (Some x)
    then have x: "x \<in> set rows" "P x"
      by (auto dest: find_Some_mem)
    then have "find P ?b \<noteq> None"
      by (auto simp: find_None_iff)
    then obtain y where y: "find P ?b = Some y"
      by blast
    then have y': "y \<in> set rows" "P y"
      by (auto dest: find_Some_mem)
    have "(- rr_enabled x, rr_id x) \<le> (- rr_enabled y, rr_id y)"
      by (rule find_sorted_least [OF _ Some]) (use y' in simp_all)
    moreover have "rr_id y \<le> rr_id x"
      by (rule find_sorted_least [OF _ y]) (use x in simp_all)
    ultimately have "rr_id x = rr_id y"
      using assms(2) x(2) y'(2) by fastforce
    with assms(1) x(1) y'(1) have "x = y"
      by (meson distinct_map inj_onD)
    with Some y show ?thesis
      by simp
  qed
qed

lemma time_now_frame: "\<exists>e. time_now s = (Inr (next_time s), s\<lparr>s_env := e\<rparr>) \<and> faults e = faults (s_env s)"
proof (cases "readings (s_env s)")
  case Nil
  then show ?thesis
    by (intro exI [of _ "s_env s"]) (simp add: time_now_def next_time_def)
next
  case (Cons x xs)
  then show ?thesis
    by (intro exI [of _ "(s_env s)\<lparr>clock := x, readings := xs\<rparr>"]) (simp add: time_now_def next_time_def)
qed

lemma MatchRule_working:
  assumes "ready d s"
  obtains t where "MatchRule n s = (Inr (map_option scanRule (rule_for (next_time s) (NormalizeName n) (s_db s))), t)" and "ready d t"
proof -
  let ?s1 = "s\<lparr>rulesCache := rules_view s, rulesLoaded := True\<rparr>"
  note rules = reads_working(1) [OF readyD(2) [OF assms] readyD(1) [OF assms]]
  have table: "rules_table_ok (t_rules (s_db s))"
    using assms by (simp add: ready_def policy_ok_def)
  have "match_rules (next_time s) (NormalizeName n) (rules_view s) = map_option scanRule (rule_for (next_time s) (NormalizeName n) (s_db s))"
    unfolding rules_view_def match_rules_find select_rules_def rule_for_def
    by (subst find_least) (use table in \<open>auto simp: rules_table_ok_def row_applies_def\<close>)
  moreover have "next_time ?s1 = next_time s"
    by (simp add: next_time_def split: list.split)
  then obtain e where "time_now ?s1 = (Inr (next_time s), ?s1\<lparr>s_env := e\<rparr>)" "faults e = faults (s_env s)"
    using time_now_frame [of ?s1] by auto
  ultimately have "MatchRule n s = (Inr (map_option scanRule (rule_for (next_time s) (NormalizeName n) (s_db s))), ?s1\<lparr>s_env := e\<rparr>)"
    by (simp add: MatchRule_def Let_def andThen_def ret_def rules)
  moreover from this have "policy_ok (?s1\<lparr>s_env := e\<rparr>)"
    using keepsD [OF keeps_matches(1)] readyD(1) [OF assms] by blast
  with \<open>faults e = _\<close> assms have "ready d (?s1\<lparr>s_env := e\<rparr>)"
    by (simp add: ready_def unfailing_def)
  ultimately show thesis
    by (rule that)
qed

lemma listed_iff:
  assumes "name = '''' \<or> has_suffix name ''.''"
  shows "walk_parents (map_of (entries_map d)) name \<noteq> None \<longleftrightarrow> listed name d"
proof (cases "name = ''''")
  case False
  with assms have dot: "has_suffix name ''.''"
    by simp
  show ?thesis
  proof (cases "walk_parents (map_of (entries_map d)) name")
    case None
    from walk_parents_None [OF dot this] None False show ?thesis
      by (auto simp: listed_def list_ex_iff map_of_entries_None)
  next
    case (Some m)
    from walk_parents_Some [OF dot this] obtain x where "x \<noteq> ''''" "covers x name" "map_of (entries_map d) x = Some m"
      by blast
    with map_of_entries_Some [of d x m] Some False show ?thesis
      by (auto simp: listed_def list_ex_iff)
  qed
qed (simp add: listed_def walk_parents.simps)

lemma MatchBlocklist_working:
  assumes "ready d s"
  obtains m t where "MatchBlocklist n s = (Inr m, t)" and "ready d t" and "m \<noteq> None \<longleftrightarrow> listed (NormalizeName n) d"
proof -
  let ?t = "s\<lparr>blocklistCache := blocklist_view s, blocklistLoaded := True\<rparr>" and ?m = "walk_parents (map_of (blocklist_view s)) (NormalizeName n)"
  note entries = reads_working(3) [OF readyD(2) [OF assms] readyD(1) [OF assms]]
  have run: "MatchBlocklist n s = (Inr ?m, ?t)"
    by (simp add: MatchBlocklist_def Let_def andThen_def ret_def entries)
  moreover have "ready d ?t"
    using assms keepsD [OF keeps_matches(2) readyD(1) [OF assms] run] by (simp add: ready_def unfailing_def)
  moreover have "?m \<noteq> None \<longleftrightarrow> listed (NormalizeName n) d"
    using listed_iff [of "NormalizeName n" "s_db s"] NormalizeName_final_dot [of n] assms
    by (auto simp: blocklist_view_def ready_def listed_def)
  ultimately show thesis
    by (rule that)
qed

lemma RecordRuleHit_working: "ready d s \<Longrightarrow> ready d (snd (RecordRuleHit i s))"
proof -
  assume s: "ready d s"
  have "policy_ok (snd (RecordRuleHit i s))"
    using keeps_RecordRuleHit readyD(1) [OF s] by (rule keeps_snd)
  with s show ?thesis
    by (auto simp: ready_def RecordRuleHit_def run_simps unfailing_def invalidateRuleCache_def split: list.splits)
qed
section \<open>The stages of the handler\<close>

lemma concat_keyed:
  assumes "distinct (map k xs)" and "\<And>x. k x \<noteq> a \<Longrightarrow> f x = []"
  shows "concat (map f xs) = (case find (\<lambda>x. k x = a) xs of None \<Rightarrow> [] | Some x \<Rightarrow> f x)"
  using assms(1)
proof (induction xs)
  case (Cons x xs)
  show ?case
  proof (cases "k x = a")
    case True
    with Cons.prems have "a \<notin> k ` set xs"
      by simp
    then have "find (\<lambda>x. k x = a) xs = None"
      by (auto simp: find_None_iff)
    with True Cons show ?thesis
      by simp
  qed (use Cons assms(2) in simp)
qed simp

lemma find_key_sorted:
  assumes "distinct (map k xs)"
  shows "find (\<lambda>x. k x = a) (sort_key g xs) = find (\<lambda>x. k x = a) xs"
proof (cases "find (\<lambda>x. k x = a) xs")
  case None
  then have "find (\<lambda>x. k x = a) (sort_key g xs) = None"
    by (simp add: find_None_iff)
  with None show ?thesis
    by simp
next
  case (Some x)
  then have x: "x \<in> set (sort_key g xs)" "k x = a"
    by (auto dest: find_Some_mem)
  have "distinct (map k (sort_key g xs))"
    using assms by (simp add: distinct_map)
  from find_distinct_same [OF this x(1)] Some x(2) show ?thesis
    by simp
qed

lemma record_for_static:
  assumes "static_table_ok (t_static d)"
  shows "concat (map (record_answer q (NormalizeName (q_Name q)) (TypeToString lib (q_Qtype q))) (map scan_static (select_static d))) =
    record_for lib q d"
proof -
  let ?f = "\<lambda>r. record_answer q (NormalizeName (q_Name q)) (TypeToString lib (q_Qtype q)) (scan_static r)"
  let ?a = "(NormalizeName (q_Name q), TypeToString lib (q_Qtype q))"
  have keys: "distinct (map static_key (t_static d))"
    using assms by (simp add: static_table_ok_def)
  then have "distinct (map static_key (select_static d))"
    by (simp add: select_static_def distinct_map)
  moreover have "?f r = []" if "static_key r \<noteq> ?a" for r
    using that by (auto simp: record_answer_def scan_static_def static_key_def)
  ultimately have "concat (map ?f (select_static d)) = (case find (\<lambda>r. static_key r = ?a) (select_static d) of None \<Rightarrow> [] | Some r \<Rightarrow> ?f r)"
    by (rule concat_keyed)
  then show ?thesis
    by (simp add: record_for_def comp_def find_key_sorted [OF keys] select_static_def)
qed

lemma apply_rule_working:
  assumes "ready (s_db (sv_store s)) (sv_store s)" and "apply_rule cfg q n (v, s) = (v1, s1)" and "v_action v = ''allowed''" and "v_matchedRuleID v = None"
  shows "ready (s_db (sv_store s)) (sv_store s1)"
    and "v_matchedRuleID v1 = map_option rr_id (rule_for (next_time (sv_store s)) (NormalizeName n) (s_db (sv_store s)))"
    and "v_action v1 = (case rule_for (next_time (sv_store s)) (NormalizeName n) (s_db (sv_store s)) of
      None \<Rightarrow> ''allowed'' | Some r \<Rightarrow> if rr_action r = ''allow'' then ''allowed'' else ''blocked'')"
    and "v_action v1 = ''allowed'' \<Longrightarrow> v_msg v1 = v_msg v"
proof -
  obtain t where run: "MatchRule n (sv_store s) =
      (Inr (map_option scanRule (rule_for (next_time (sv_store s)) (NormalizeName n) (s_db (sv_store s)))), t)"
    and t: "ready (s_db (sv_store s)) t"
    using assms(1) by (rule MatchRule_working)
  have hit: "ready (s_db (sv_store s)) (sv_store (snd (on_store (RecordRuleHit i) (s\<lparr>sv_store := t\<rparr>))))" for i
    using RecordRuleHit_working [OF t] by (simp add: on_store_def split: prod.split) (metis snd_conv)
  note d = assms(2) [unfolded apply_rule_def on_store_def [of "MatchRule n"] run] run
  show "ready (s_db (sv_store s)) (sv_store s1)"
    using d t hit
    by (cases "rule_for (next_time (sv_store s)) (NormalizeName n) (s_db (sv_store s))")
      (auto simp: sinkhole_def Let_def split: if_splits)
  show "v_matchedRuleID v1 = map_option rr_id (rule_for (next_time (sv_store s)) (NormalizeName n) (s_db (sv_store s)))"
    "v_action v1 = (case rule_for (next_time (sv_store s)) (NormalizeName n) (s_db (sv_store s)) of
      None \<Rightarrow> ''allowed'' | Some r \<Rightarrow> if rr_action r = ''allow'' then ''allowed'' else ''blocked'')"
    "v_action v1 = ''allowed'' \<Longrightarrow> v_msg v1 = v_msg v"
    using d assms(3,4)
    by (cases "rule_for (next_time (sv_store s)) (NormalizeName n) (s_db (sv_store s))";
        auto simp: sinkhole_def Let_def scanRule_def split: if_splits)+
qed

lemma apply_blocklist_working:
  assumes "ready d (sv_store s)" and "apply_blocklist cfg q n (v, s) = (v1, s1)"
  shows "ready d (sv_store s1)" and "v_matchedRuleID v1 = v_matchedRuleID v"
    and "v_action v1 = (if v_action v \<noteq> ''blocked'' \<and> v_matchedRuleID v = None \<and> listed (NormalizeName n) d then ''blocked'' else v_action v)"
    and "v_action v1 \<noteq> ''blocked'' \<Longrightarrow> v_msg v1 = v_msg v"
proof -
  obtain m t where run: "MatchBlocklist n (sv_store s) = (Inr m, t)" "ready d t" "m \<noteq> None \<longleftrightarrow> listed (NormalizeName n) d"
    using assms(1) by (rule MatchBlocklist_working)
  have step: "(v1, s1) = (if v_action v \<noteq> ''blocked'' \<and> v_matchedRuleID v = None
      then (case m of None \<Rightarrow> (v, s\<lparr>sv_store := t\<rparr>)
        | Some x \<Rightarrow> sinkhole cfg q (v\<lparr>v_matchedSource := BM_SourceType x @ '':'' @ BM_SourceName x\<rparr>, s\<lparr>sv_store := t\<rparr>))
      else (v, s))"
    using assms(2) by (auto simp: apply_blocklist_def on_store_def run(1) split: option.split if_splits)
  show "ready d (sv_store s1)" "v_matchedRuleID v1 = v_matchedRuleID v" "v_action v1 \<noteq> ''blocked'' \<Longrightarrow> v_msg v1 = v_msg v"
    using step run(2) assms(1) by (cases m; simp add: sinkhole_def split: if_splits)+
  show "v_action v1 = (if v_action v \<noteq> ''blocked'' \<and> v_matchedRuleID v = None \<and> listed (NormalizeName n) d then ''blocked'' else v_action v)"
  proof (cases m)
    case None
    with run(3) have "\<not> listed (NormalizeName n) d"
      by blast
    with step None show ?thesis
      by (simp split: if_splits)
  next
    case (Some x)
    with run(3) have "listed (NormalizeName n) d"
      by blast
    with step Some show ?thesis
      by (simp add: sinkhole_def split: if_splits)
  qed
qed

lemma apply_static_working:
  assumes "ready d (sv_store s)" and "apply_static lib q (v, s) = (v1, s1)" and "v_action v = ''allowed''" and "m_Answer (v_msg v) = []"
  shows "v_matchedRuleID v1 = v_matchedRuleID v" and "v_action v1 = (if record_for lib q d = [] then ''allowed'' else ''static'')"
    and "v_msg v1 = (v_msg v)\<lparr>m_Answer := record_for lib q d\<rparr>"
proof -
  let ?st = "sv_store s"
  have "static_table_ok (t_static (s_db ?st))"
    using readyD(1) [OF assms(1)] by (simp add: policy_ok_def)
  moreover have "record_for lib q (s_db ?st) = record_for lib q d"
    using assms(1) by (simp add: record_for_def ready_def)
  ultimately have answers: "concat (map (record_answer q (NormalizeName (q_Name q)) (TypeToString lib (q_Qtype q))) (static_view ?st)) = record_for lib q d"
    using record_for_static [of "s_db ?st" q lib] by (simp only: static_view_def)
  have "fst (staticAnswer lib q s) = (record_for lib q d, record_for lib q d \<noteq> [])"
    by (simp only: staticAnswer_def on_store_def reads_working(2) [OF readyD(2) [OF assms(1)] readyD(1) [OF assms(1)]]
        Let_def answers prod.case sum.case fst_conv)
  then obtain u where u: "staticAnswer lib q s = ((record_for lib q d, record_for lib q d \<noteq> []), u)"
    by (metis prod.collapse)
  show "v_matchedRuleID v1 = v_matchedRuleID v" "v_action v1 = (if record_for lib q d = [] then ''allowed'' else ''static'')"
    "v_msg v1 = (v_msg v)\<lparr>m_Answer := record_for lib q d\<rparr>"
    using assms(2-4) by (cases "record_for lib q d = []"; auto simp: apply_static_def u Let_def)+
qed

section \<open>The server carries out the policy\<close>

lemma answer_query_carries_out:
  assumes "policy_ok (sv_store s)" and "unfailing (sv_store s)" and "m_Answer (SetReply lib r) = []"
    and "answer_query lib cfg r q s = (v, t)"
  shows "carries_out lib cfg r q s (decision_of lib (next_time (sv_store s)) q (s_db (sv_store s))) v t"
proof -
  let ?d = "s_db (sv_store s)" and ?n = "NormalizeName (q_Name q)"
  let ?rule = "rule_for (next_time (sv_store s)) (NormalizeName ?n) ?d"
  have ready: "ready ?d (sv_store s)"
    using assms(1,2) by (simp add: ready_def)
  obtain v1 s1 v2 s2 v3 s3 where
    1: "apply_rule cfg q ?n (start_query lib r, s) = (v1, s1)" and 2: "apply_blocklist cfg q ?n (v1, s1) = (v2, s2)"
    and 3: "apply_static lib q (v2, s2) = (v3, s3)" and 4: "apply_forward lib cfg r (v3, s3) = (v, t)"
    using assms(4) by (rule answer_query_steps)
  note r1 = apply_rule_working [OF ready 1, simplified]
  note r2 = apply_blocklist_working [OF r1(1) 2]
  have last: "v_matchedRuleID v = v_matchedRuleID v3" "v_action v3 \<in> {''blocked'', ''static''} \<Longrightarrow> v_action v = v_action v3"
    "v_action v3 = ''allowed'' \<Longrightarrow> v_action v \<in> {''allowed'', ''upstream_failed''}"
    using 4 by (cases rule: apply_forward_cases; auto)+
  show ?thesis
  proof (cases "v_action v2 = ''blocked''")
    case True
    with 3 have "v3 = v2"
      by (auto simp: apply_static_def)
    with last True have "v_action v = ''blocked''" "v_matchedRuleID v = v_matchedRuleID v1"
      by (simp_all add: r2(2))
    moreover have "decision_of lib (next_time (sv_store s)) q ?d = Block (v_matchedRuleID v1)"
      using True r1(2,3) r2(3) by (cases ?rule) (auto simp: decision_of_def Let_def split: if_splits)
    ultimately have b: "v_action v = ''blocked''" "decision_of lib (next_time (sv_store s)) q ?d = Block (v_matchedRuleID v)"
      by simp_all
    from assms(4) show ?thesis
      by (cases rule: answer_query_cases) (use b in \<open>auto simp: carries_out_def\<close>)
  next
    case False
    have v1: "v_action v1 \<in> {''allowed'', ''blocked''}"
      using r1(3) by (cases ?rule) auto
    with False have act: "v_action v1 = ''allowed''" "v_action v2 = ''allowed''"
      using r2(3) by (auto split: if_splits)
    have dec: "decision_of lib (next_time (sv_store s)) q ?d = answer_or_forward lib q (v_matchedRuleID v1) ?d"
      using False act r1(2,3) r2(3) by (cases ?rule) (auto simp: decision_of_def Let_def split: if_splits)
    have "m_Answer (v_msg v2) = []"
      using r1(4) [OF act(1)] r2(4) [OF False] assms(3) by simp
    note r3 = apply_static_working [OF r2(1) 3 act(2) this]
    have id: "v_matchedRuleID v = v_matchedRuleID v1"
      using last(1) r3(1) r2(2) by simp
    show ?thesis
    proof (cases "record_for lib q ?d = []")
      case True
      with r3(2) last(3) have b: "v_action v \<in> {''allowed'', ''upstream_failed''}"
        by simp
      from assms(4) show ?thesis
        by (cases rule: answer_query_cases) (use b True id in \<open>auto simp: carries_out_def dec answer_or_forward_def\<close>)
    next
      case rec: False
      with r3(2) last(2) have b: "v_action v = ''static''"
        by simp
      have "v = v3"
        using 4 r3(2) rec by (auto simp: apply_forward_def)
      then have msg: "v_msg v = (reply_to lib r)\<lparr>m_Answer := record_for lib q ?d\<rparr>"
        using r3(3) r2(4) [OF False] r1(4) [OF act(1)] by simp
      from assms(4) show ?thesis
        by (cases rule: answer_query_cases) (use b msg id rec in \<open>auto simp: carries_out_def dec answer_or_forward_def\<close>)
    qed
  qed
qed


lemma sample_policy_ok: "policy_ok (sample_store sample_block_db)"
  using sample_block_table
  by (simp add: policy_ok_def static_coherent_def blocklist_coherent_def coherent_def static_table_ok_def sample_block_db_def empty_db_def)

lemma sample_ready: "unfailing (sample_store d)" "next_time (sample_store d) = 0"
  by (simp_all add: unfailing_def next_time_def sample_store_def fresh_store_def)

lemma sample_decision:
  "decision_of sample_lib 0 (sample_question ''x.ads.com.'') sample_block_db = Block (Some 1)"
  using sample_names
  by (simp add: decision_of_def sample_question_def rule_for_def sample_block_db_def sample_rule_def row_applies_def parse_nullable_def)


section \<open>Queries to a running server\<close>

lemma decision_same_tables: "same_tables d d' \<Longrightarrow> decision_of lib now q d' = decision_of lib now q d"
proof -
  assume same: "same_tables d d'"
  then have "rule_for now n d' = rule_for now n d" "listed n d' = listed n d" "record_for lib q d' = record_for lib q d" for n
    by (simp_all add: same_tables_def rule_for_def listed_def record_for_def)
  then show "decision_of lib now q d' = decision_of lib now q d"
    by (simp only: decision_of_def answer_or_forward_def)
qed

lemma unfailing_EnsureHost: "keeps unfailing (EnsureHost ip)"
  unfolding EnsureHost_def Let_def by (intro keeps_intro)

lemma unfailing_on_store: "keeps unfailing m \<Longrightarrow> unfailing (sv_store s) \<Longrightarrow> on_store m s = (r, t) \<Longrightarrow> unfailing (sv_store t)"
  by (auto simp: on_store_def split: prod.splits dest: keepsD)

lemma unfailing_now_of: "unfailing (sv_store s) \<Longrightarrow> now_of s = (n, t) \<Longrightarrow> unfailing (sv_store t)"
  by (auto simp: now_of_def split: prod.splits dest: unfailing_on_store [OF unfailing_time_now])

lemma calm_on_store: "calm m \<Longrightarrow> on_store m s = (r, t) \<Longrightarrow> calm_rel (sv_store s) (sv_store t)"
  by (auto simp: on_store_def split: prod.splits dest: calmD)

lemma calm_now_of: "now_of s = (n, t) \<Longrightarrow> calm_rel (sv_store s) (sv_store t)"
  by (auto simp: now_of_def split: prod.splits dest: calm_on_store [OF calm_time_now])

text \<open>Where the registration of the host leaves the store.\<close>

lemma admit_host_store:
  assumes "admit_host ip s = (h, t)" and "unfailing (sv_store s)"
  shows "unfailing (sv_store t)" and "calm_rel (sv_store s) (sv_store t)"
proof -
  obtain r u where u: "on_store (EnsureHost ip) s = (r, u)"
    by fastforce
  have a: "unfailing (sv_store u)" and b: "calm_rel (sv_store s) (sv_store u)"
    using unfailing_on_store [OF unfailing_EnsureHost assms(2) u] calm_on_store [OF calm_hosts(1) u] by auto
  have "unfailing (sv_store (enqueueHostEnrichment i ip u)) \<and> calm_rel (sv_store u) ((sv_store (enqueueHostEnrichment i ip u)))" for i
    using a by (auto simp: enqueueHostEnrichment_def Let_def split: prod.splits dest: unfailing_now_of calm_now_of)
  with assms(1) u a b show "unfailing (sv_store t)" "calm_rel (sv_store s) (sv_store t)"
    by (auto simp: admit_host_def split: sum.splits prod.splits intro: calm_rel_trans)
qed

lemma finish_query_fields:
  "sv_sent (finish_query lib cfg start h ip q (v, s)) = sv_sent s @ [v_msg v]"
  "sv_asked (finish_query lib cfg start h ip q (v, s)) = sv_asked s"
  "sv_blocked (finish_query lib cfg start h ip q (v, s)) = sv_blocked s"
  by (auto simp: finish_query_def Let_def enqueue_event_def write_msg_def split: prod.splits dest!: now_of_frame)

definition decision_time :: "string option \<Rightarrow> Server \<Rightarrow> instant" where
  \<comment> \<open>what the clock shows when the rules are consulted: after the start and the registration of the host\<close>
  "decision_time addr s = next_time (sv_store (snd (admit_host (remoteIP addr) (snd (now_of s)))))"

lemma handleDNS_carries_out:
  assumes "policy_ok (sv_store s)" and "unfailing (sv_store s)"
    and "m_Question r = q # qs" and "m_Answer (SetReply lib r) = []"
  shows "\<exists>v t. sv_sent (handleDNS lib cfg addr r s) = sv_sent s @ [v_msg v] \<and> sv_asked (handleDNS lib cfg addr r s) = sv_asked t \<and>
    sv_blocked (handleDNS lib cfg addr r s) = sv_blocked t \<and>
    carries_out lib cfg r q s (decision_of lib (decision_time addr s) q (s_db (sv_store s))) v t"
proof -
  obtain start s1 where 1: "now_of s = (start, s1)"
    by fastforce
  obtain h s2 where 2: "admit_host (remoteIP addr) s1 = (h, s2)"
    by fastforce
  obtain v t where 3: "answer_query lib cfg r q s2 = (v, t)"
    by fastforce
  have u: "unfailing (sv_store s2)" and same: "calm_rel (sv_store s) (sv_store s2)"
    using admit_host_store [OF 2 unfailing_now_of [OF assms(2) 1]] calm_now_of [OF 1] by (auto intro: calm_rel_trans)
  have ok: "policy_ok (sv_store s2)"
    using same assms(1) by (rule policy_ok_calm)
  have frame: "sv_sent s2 = sv_sent s" "sv_asked s2 = sv_asked s" "sv_blocked s2 = sv_blocked s"
    using now_of_frame [OF 1] by (auto simp: admit_host_frame [OF 2])
  have "sv_sent t = sv_sent s2"
    using 3 by (cases rule: answer_query_cases) auto
  have "decision_time addr s = next_time (sv_store s2)"
    by (simp add: decision_time_def 1 2)
  with answer_query_carries_out [OF ok u assms(4) 3] frame have "carries_out lib cfg r q s (decision_of lib (decision_time addr s) q (s_db (sv_store s))) v t"
    by (simp add: decision_same_tables [OF same [unfolded calm_rel_def, THEN conjunct2]] carries_out_def split: decision.splits)
  moreover have "handleDNS lib cfg addr r s = finish_query lib cfg start h (remoteIP addr) q (v, t)"
    by (simp add: handleDNS_def Let_def 1 2 3 assms(3))
  ultimately show ?thesis
    using \<open>sv_sent t = sv_sent s2\<close> frame by (auto simp: finish_query_fields)
qed

end
