(* ===== verification/DNS_Lifecycle.thy ===== *)
theory DNS_Lifecycle
  imports DNS_Policy
begin

text \<open>
  The goroutine \<open>eventWriter\<close> and \<open>Shutdown\<close> of internal/dnsserver/server.go. The writer and the handlers
  run concurrently: a run is a list of moments, each an event that a handler queues, the cancellation of the
  context, or a turn of the writer's \<open>select\<close>. When both cases of the \<open>select\<close> are ready Go picks one at
  random; the choice is part of the moment.
\<close>

section \<open>The writer\<close>

record writer =
  wr_server :: Server
  wr_cancelled :: bool
  wr_running :: bool

datatype moment = Arrival QueryEvent | Cancelled | Turn (takes_event: bool)

fun eventWriter :: "bool \<Rightarrow> writer \<Rightarrow> writer" where
  \<comment> \<open>one turn of its loop; a turn with neither case ready blocks and changes nothing\<close>
  "eventWriter takes w =
     (if \<not> wr_running w then w
      else if wr_cancelled w \<and> (\<not> takes \<or> sv_events (wr_server w) = []) then w\<lparr>wr_running := False\<rparr>
      else w\<lparr>wr_server := write_event (wr_server w)\<rparr>)"

fun run_moment :: "Config \<Rightarrow> moment \<Rightarrow> writer \<Rightarrow> writer" where
  "run_moment cfg (Arrival ev) w = w\<lparr>wr_server := enqueue_event cfg ev (wr_server w)\<rparr>"
| "run_moment cfg Cancelled w = w\<lparr>wr_cancelled := True\<rparr>"
| "run_moment cfg (Turn takes) w = eventWriter takes w"

definition run_moments :: "Config \<Rightarrow> moment list \<Rightarrow> writer \<Rightarrow> writer" where
  "run_moments cfg ms w = fold (run_moment cfg) ms w"

definition Shutdown :: "error option option \<Rightarrow> error option option \<Rightarrow> error option" where
  \<comment> \<open>for each listener \<open>None\<close> when it was never made, else what closing it returns\<close>
  "Shutdown udp tcp =
     (let first = (case udp of Some (Some e) \<Rightarrow> Some e | _ \<Rightarrow> None)
      in case tcp of Some (Some e) \<Rightarrow> if first = None then Some e else first | _ \<Rightarrow> first)"

section \<open>Termination\<close>

definition waiting :: "writer \<Rightarrow> nat" where
  "waiting w = length (sv_events (wr_server w))"

definition arrivals :: "moment list \<Rightarrow> nat" where
  "arrivals ms = length (filter (\<lambda>m. case m of Arrival _ \<Rightarrow> True | _ \<Rightarrow> False) ms)"

definition turns :: "moment list \<Rightarrow> nat" where
  "turns ms = length (filter (\<lambda>m. case m of Turn _ \<Rightarrow> True | _ \<Rightarrow> False) ms)"

lemma counts_simps [simp]:
  "arrivals [] = 0" "arrivals (Arrival ev # ms) = Suc (arrivals ms)" "arrivals (Cancelled # ms) = arrivals ms"
  "arrivals (Turn b # ms) = arrivals ms"
  "turns [] = 0" "turns (Arrival ev # ms) = turns ms" "turns (Cancelled # ms) = turns ms" "turns (Turn b # ms) = Suc (turns ms)"
  by (simp_all add: arrivals_def turns_def)

lemma run_moments_simps [simp]:
  "run_moments cfg [] w = w" "run_moments cfg (m # ms) w = run_moments cfg ms (run_moment cfg m w)"
  by (simp_all add: run_moments_def)

lemma run_moments_append: "run_moments cfg (ms @ ns) w = run_moments cfg ns (run_moments cfg ms w)"
  by (simp add: run_moments_def)

lemma write_event_queue: "sv_events (write_event s) = drop 1 (sv_events s)"
proof (cases "sv_events s")
  case (Cons ev evs)
  obtain r t where t: "on_store (InsertQueryEvent ev) (s\<lparr>sv_events := evs\<rparr>) = (r, t)"
    by fastforce
  with on_store_frame [OF t] Cons show ?thesis
    by (auto simp: write_event_def)
qed (simp add: write_event_def)

lemma enqueue_waiting: "length (sv_events (enqueue_event cfg ev s)) \<le> Suc (length (sv_events s))"
  by (simp add: enqueue_event_def)

lemma stopped_stays:
  assumes "\<not> wr_running w"
  shows "\<not> wr_running (run_moments cfg ms w) \<and> sv_store (wr_server (run_moments cfg ms w)) = sv_store (wr_server w)"
  using assms
proof (induction ms arbitrary: w)
  case (Cons m ms)
  have "\<not> wr_running (run_moment cfg m w) \<and> sv_store (wr_server (run_moment cfg m w)) = sv_store (wr_server w)"
    using Cons.prems by (cases m) (simp_all add: enqueue_event_def)
  with Cons.IH show ?case
    by simp
qed simp

lemma cancelled_turn:
  assumes "wr_cancelled w" and "wr_running (eventWriter takes w)"
  shows "wr_cancelled (eventWriter takes w)" and "Suc (waiting (eventWriter takes w)) = waiting w"
proof -
  from assms have "wr_running w" "takes" "sv_events (wr_server w) \<noteq> []"
    by (auto split: if_splits)
  then show "wr_cancelled (eventWriter takes w)" "Suc (waiting (eventWriter takes w)) = waiting w"
    using assms(1) by (simp_all add: waiting_def write_event_queue Suc_diff_le)
qed

lemma cancelled_terminates:
  assumes "wr_cancelled w" and "waiting w + arrivals ms < turns ms"
  shows "\<not> wr_running (run_moments cfg ms w)"
  using assms
proof (induction ms arbitrary: w)
  case (Cons m ms)
  show ?case
  proof (cases m)
    case (Arrival ev)
    have "waiting (run_moment cfg m w) \<le> Suc (waiting w)"
      using enqueue_waiting by (simp add: Arrival waiting_def)
    with Cons.prems have "waiting (run_moment cfg m w) + arrivals ms < turns ms" "wr_cancelled (run_moment cfg m w)"
      by (simp_all add: Arrival)
    with Cons.IH show ?thesis
      by simp
  next
    case Cancelled
    with Cons show ?thesis
      by (simp add: waiting_def)
  next
    case (Turn takes)
    show ?thesis
    proof (cases "wr_running (eventWriter takes w)")
      case True
      note t = cancelled_turn [OF Cons.prems(1) True]
      with Cons.prems(2) have "waiting (eventWriter takes w) + arrivals ms < turns ms"
        by (simp add: Turn)
      with Cons.IH t(1) show ?thesis
        by (simp add: Turn del: eventWriter.simps)
    next
      case False
      with stopped_stays show ?thesis
        by (simp add: Turn del: eventWriter.simps)
    qed
  qed
qed simp

text \<open>
  C12. The writer stops. Once the context is cancelled, in every interleaving that gives the writer more
  turns than there are events waiting and still arriving, whichever case its \<open>select\<close> picks, the loop
  returns; and from then on nothing is stored: what is queued then, or later, is lost.
\<close>
theorem writer_stops:
  assumes "wr_cancelled w" and "waiting w + arrivals ms < turns ms"
  shows "\<not> wr_running (run_moments cfg ms w) \<and>
    (\<forall>more. stored_events (wr_server (run_moments cfg (ms @ more) w)) = stored_events (wr_server (run_moments cfg ms w)))"
  using cancelled_terminates [OF assms, of cfg] stopped_stays [of "run_moments cfg ms w" cfg]
  by (simp add: run_moments_append stored_events_def)

lemma writer_stops_witness:
  "let w = \<lparr>wr_server = (New (sample_store empty_db))\<lparr>sv_events := [sample_event ''blocked'']\<rparr>, wr_cancelled = True, wr_running = True\<rparr>;
       ms = [Turn False, Arrival (sample_event ''allowed''), Turn True, Turn True]
   in \<not> wr_running (run_moments sample_config ms w) \<and> length (sv_events (wr_server (run_moments sample_config ms w))) = 2 \<and>
      stored_events (wr_server (run_moments sample_config (ms @ [Turn True]) w)) = []"
proof -
  let ?w = "\<lparr>wr_server = (New (sample_store empty_db))\<lparr>sv_events := [sample_event ''blocked'']\<rparr>, wr_cancelled = True, wr_running = True\<rparr>"
  let ?ms = "[Turn False, Arrival (sample_event ''allowed''), Turn True, Turn True]"
  have "stored_events (wr_server (run_moments sample_config ?ms ?w)) = [] \<and>
      length (sv_events (wr_server (run_moments sample_config ?ms ?w))) = 2"
    by (simp add: enqueue_event_def stored_events_def sample_config_def empty_db_def)
  with writer_stops [of ?w ?ms sample_config] show ?thesis
    unfolding Let_def by (auto simp: waiting_def)
qed

end
