(* ===== verification/Store_Open.thy ===== *)
theory Store_Open
  imports Store_Rules Store_Secrets
begin

text \<open>
  Opening the database: \<open>Open\<close>, \<open>migrate\<close> and \<open>ensureColumn\<close> of internal/store/store.go, on a file of
  this or of an older version. Of the schema, the model keeps what the statements ask for: which tables and
  indexes exist, the columns of \<open>hosts\<close>, and the pragmas of the one connection. A column added to existing
  rows holds its default, the empty string, which is what \<open>t_hosts\<close> holds for rows without it.
\<close>

section \<open>The file and the statements\<close>

record disk =
  dk_store :: store
  dk_tables :: "string list"
  dk_columns :: "string list"
  dk_indexes :: "string list"
  dk_pragmas :: "string list"

datatype statement = Pragma string | CreateTable string | DeleteDuplicateRules | CreateUniqueRuleIndex string | CreateIndex string

definition host_columns :: "string list" where
  "host_columns = [''id'', ''source_ip'', ''label'', ''hostname'', ''mac'', ''vendor'', ''group_name'',
     ''identity_confidence'', ''identity_last_checked'', ''first_seen'', ''last_seen'', ''query_count'', ''block_count'', ''notes'']"

definition statements :: "statement list" where
  "statements =
     [Pragma ''journal_mode=WAL'', Pragma ''synchronous=NORMAL'', Pragma ''busy_timeout=5000'', Pragma ''foreign_keys=ON'',
      CreateTable ''hosts'', CreateTable ''host_observations'', CreateTable ''static_records'', CreateTable ''rules'',
      DeleteDuplicateRules, CreateUniqueRuleIndex ''idx_rules_target_action_scope'',
      CreateTable ''blocklist_presets'', CreateTable ''blocklist_sources'', CreateTable ''blocklist_entries'',
      CreateTable ''query_events'', CreateTable ''block_events'', CreateTable ''audit_events'', CreateTable ''settings'',
      CreateTable ''system_samples'', CreateIndex ''idx_query_events_ts'', CreateIndex ''idx_query_events_host'',
      CreateIndex ''idx_query_events_name'', CreateIndex ''idx_block_events_host'', CreateIndex ''idx_blocklist_entries_domain'']"

definition oldest_of_key :: "rule_row list \<Rightarrow> rule_row \<Rightarrow> bool" where
  "oldest_of_key rows r \<longleftrightarrow> list_all (\<lambda>r'. rule_key r' = rule_key r \<longrightarrow> rr_id r \<le> rr_id r') rows"

definition without_duplicates :: "rule_row list \<Rightarrow> rule_row list" where
  \<comment> \<open>\<open>DELETE FROM rules WHERE id NOT IN (SELECT MIN(id) FROM rules GROUP BY scope, target, action)\<close>\<close>
  "without_duplicates rows = filter (oldest_of_key rows) rows"

definition add_name :: "string \<Rightarrow> string list \<Rightarrow> string list" where
  \<comment> \<open>\<open>IF NOT EXISTS\<close>\<close>
  "add_name n ns = (if n \<in> set ns then ns else ns @ [n])"

fun run_statement :: "statement \<Rightarrow> disk \<Rightarrow> error + disk" where
  "run_statement (Pragma p) k = Inr (k\<lparr>dk_pragmas := add_name p (dk_pragmas k)\<rparr>)"
| "run_statement (CreateTable t) k =
     Inr (k\<lparr>dk_tables := add_name t (dk_tables k),
            dk_columns := (if t = ''hosts'' \<and> t \<notin> set (dk_tables k) then host_columns else dk_columns k)\<rparr>)"
| "run_statement DeleteDuplicateRules k =
     Inr (k\<lparr>dk_store := (dk_store k)\<lparr>s_db := (s_db (dk_store k))\<lparr>t_rules := without_duplicates (t_rules (s_db (dk_store k)))\<rparr>\<rparr>\<rparr>)"
| "run_statement (CreateUniqueRuleIndex i) k =
     (if i \<notin> set (dk_indexes k) \<and> \<not> distinct (map rule_key (t_rules (s_db (dk_store k)))) then Inl ErrConstraint
      else Inr (k\<lparr>dk_indexes := add_name i (dk_indexes k)\<rparr>))"
| "run_statement (CreateIndex i) k = Inr (k\<lparr>dk_indexes := add_name i (dk_indexes k)\<rparr>)"

definition on_file :: "(disk \<Rightarrow> error + disk) \<Rightarrow> (disk, unit) comp" where
  \<comment> \<open>one call to the driver\<close>
  "on_file f k =
     (case db_call (dk_store k) of (failed, s) \<Rightarrow>
        let k = k\<lparr>dk_store := s\<rparr>
        in if failed then (Inl ErrDB, k) else (case f k of Inl e \<Rightarrow> (Inl e, k) | Inr k \<Rightarrow> (Inr (), k)))"

definition ensureColumn :: "string \<Rightarrow> (disk, unit) comp" where
  \<comment> \<open>of the table \<open>hosts\<close>, the only one it is called for\<close>
  "ensureColumn column =
     andThen (on_file Inr) (\<lambda>_. andThen (gets dk_columns) (\<lambda>columns.
       if column \<in> set columns then ret ()
       else on_file (\<lambda>k. Inr (k\<lparr>dk_columns := dk_columns k @ [column]\<rparr>))))"

definition migrate :: "(disk, unit) comp" where
  "migrate =
     andThen (forEach statements (\<lambda>st. on_file (run_statement st))) (\<lambda>_.
     andThen (ensureColumn ''vendor'') (\<lambda>_. ensureColumn ''identity_last_checked''))"

definition Open :: "bool \<Rightarrow> string option \<Rightarrow> string \<Rightarrow> bool \<Rightarrow> disk \<Rightarrow> (error + unit) \<times> string option \<times> disk" where
  \<comment> \<open>with what is written into the key file, if anything; the arguments are those of \<open>loadSecretKey\<close>\<close>
  "Open mkdir content random writes k =
     (case loadSecretKey mkdir content random writes of
        Inl e \<Rightarrow> (Inl e, None, k)
      | Inr (key, written) \<Rightarrow>
          (case migrate (k\<lparr>dk_store := fresh_store (s_db (dk_store k)) (s_env (dk_store k)) key, dk_pragmas := []\<rparr>) of
             (r, k) \<Rightarrow> (r, written, k)))"

section \<open>Duplicates\<close>

lemma without_duplicates_keeps_keys:
  assumes "r \<in> set rows"
  shows "\<exists>r' \<in> set (without_duplicates rows). rule_key r' = rule_key r"
proof -
  let ?S = "{x \<in> set rows. rule_key x = rule_key r}"
  have "finite ?S" and "?S \<noteq> {}"
    using assms by auto
  then obtain m where m: "m \<in> ?S" "\<forall>x \<in> ?S. rr_id m \<le> rr_id x"
    by (metis (no_types, lifting) arg_min_if_finite(1) arg_min_least)
  then have "m \<in> set (without_duplicates rows)"
    by (auto simp: without_duplicates_def oldest_of_key_def list_all_iff)
  with m(1) show ?thesis
    by blast
qed

lemma without_duplicates_distinct:
  assumes "distinct (map rr_id rows)"
  shows "distinct (map rule_key (without_duplicates rows))"
proof -
  have "inj_on rule_key (set (without_duplicates rows))"
  proof (rule inj_onI)
    fix x y assume xy: "x \<in> set (without_duplicates rows)" "y \<in> set (without_duplicates rows)" "rule_key x = rule_key y"
    then have "rr_id x \<le> rr_id y" "rr_id y \<le> rr_id x" "x \<in> set rows" "y \<in> set rows"
      by (auto simp: without_duplicates_def oldest_of_key_def list_all_iff)
    with assms show "x = y"
      by (auto simp: distinct_map dest: inj_onD)
  qed
  moreover have "distinct (without_duplicates rows)"
    using assms by (simp add: without_duplicates_def distinct_map)
  ultimately show ?thesis
    by (simp add: distinct_map)
qed

lemma without_duplicates_id:
  assumes "distinct (map rule_key rows)"
  shows "without_duplicates rows = rows"
proof -
  have "oldest_of_key rows r" if "r \<in> set rows" for r
    using assms that by (auto simp: oldest_of_key_def list_all_iff distinct_map dest: inj_onD)
  then show ?thesis
    by (simp add: without_duplicates_def)
qed

section \<open>What a migration does to the rows\<close>

lemma without_duplicates_idem: "distinct (map rr_id rows) \<Longrightarrow> without_duplicates (without_duplicates rows) = without_duplicates rows"
  by (rule without_duplicates_id [OF without_duplicates_distinct])

definition unfilled :: "db \<Rightarrow> disk \<Rightarrow> bool" where
  \<comment> \<open>the store holds the rows of the file, with or without the duplicate rules, and no cache\<close>
  "unfilled d k \<longleftrightarrow> s_db (dk_store k) \<in> {d, d\<lparr>t_rules := without_duplicates (t_rules d)\<rparr>} \<and>
     \<not> rulesLoaded (dk_store k) \<and> \<not> staticLoaded (dk_store k) \<and> \<not> blocklistLoaded (dk_store k)"

lemma db_call_frame: "db_call s = (b, t) \<Longrightarrow> \<exists>e. t = s\<lparr>s_env := e\<rparr>"
  by (rule db_call_state)

lemma keeps_on_file:
  assumes "\<And>k e. P k \<Longrightarrow> P (k\<lparr>dk_store := (dk_store k)\<lparr>s_env := e\<rparr>\<rparr>)" and "\<And>k k'. P k \<Longrightarrow> f k = Inr k' \<Longrightarrow> P k'"
  shows "keeps P (on_file f)"
proof (rule keepsI)
  fix k assume k: "P k"
  obtain b t where c: "db_call (dk_store k) = (b, t)"
    by fastforce
  with assms(1) [OF k] have "P (k\<lparr>dk_store := t\<rparr>)"
    using db_call_frame by fastforce
  with c assms(2) show "P (snd (on_file f k))"
    by (auto simp: on_file_def Let_def split: sum.split)
qed

lemma on_file_Inr:
  assumes "on_file f k = (Inr u, k')"
  obtains e where "f (k\<lparr>dk_store := (dk_store k)\<lparr>s_env := e\<rparr>\<rparr>) = Inr k'"
proof -
  obtain b t where c: "db_call (dk_store k) = (b, t)"
    by fastforce
  then obtain e where "t = (dk_store k)\<lparr>s_env := e\<rparr>"
    using db_call_frame by blast
  with assms c show thesis
    by (intro that [of e]) (auto simp: on_file_def Let_def split: if_splits sum.splits)
qed

lemma unfilled_env: "unfilled d k \<Longrightarrow> unfilled d (k\<lparr>dk_store := (dk_store k)\<lparr>s_env := e\<rparr>\<rparr>)"
  by (simp add: unfilled_def)

lemma unfilled_statement:
  assumes "distinct (map rr_id (t_rules d))" and "unfilled d k" and "run_statement st k = Inr k'"
  shows "unfilled d k'"
  using assms(2,3) without_duplicates_idem [OF assms(1)]
  by (cases st) (auto simp: unfilled_def split: if_splits)

lemma keeps_ensureColumn:
  assumes "\<And>k e. P k \<Longrightarrow> P (k\<lparr>dk_store := (dk_store k)\<lparr>s_env := e\<rparr>\<rparr>)" and "\<And>k cs. P k \<Longrightarrow> P (k\<lparr>dk_columns := cs\<rparr>)"
  shows "keeps P (ensureColumn c)"
proof -
  have "keeps P (on_file Inr)" "keeps P (on_file (\<lambda>k. Inr (k\<lparr>dk_columns := dk_columns k @ [c]\<rparr>)))"
    by (rule keeps_on_file; use assms in auto)+
  then show ?thesis
    unfolding ensureColumn_def by (intro keeps_andThen keeps_gets keeps_if keeps_ret)
qed

lemma keeps_unfilled:
  assumes "distinct (map rr_id (t_rules d))"
  shows "keeps (unfilled d) migrate"
proof -
  have "keeps (unfilled d) (on_file (run_statement st))" for st
    by (rule keeps_on_file) (use unfilled_env unfilled_statement [OF assms] in blast)+
  moreover have "keeps (unfilled d) (ensureColumn c)" for c
    by (rule keeps_ensureColumn) (simp_all add: unfilled_def)
  ultimately show ?thesis
    unfolding migrate_def by (intro keeps_andThen keeps_forEach)
qed

text \<open>What one statement of the list has established, the others leave.\<close>

lemma forEach_establishes:
  assumes "forEach xs f s = (Inr u, t)" and "x \<in> set xs" and "\<And>s v t. f x s = (Inr v, t) \<Longrightarrow> Q t" and "\<And>y. keeps Q (f y)"
  shows "Q t"
  using assms(1,2)
proof (induction xs arbitrary: s)
  case (Cons y ys)
  from Cons.prems(1) obtain v s1 where 1: "f y s = (Inr v, s1)" "forEach ys f s1 = (Inr u, t)"
    by (auto elim!: andThen_InrE)
  show ?case
  proof (cases "x \<in> set ys")
    case True
    with Cons.IH [OF 1(2)] show ?thesis .
  next
    case False
    with Cons.prems(2) 1(1) assms(3) have "Q s1"
      by auto
    moreover have "keeps Q (forEach ys f)"
      by (rule keeps_forEach [OF assms(4)])
    ultimately show ?thesis
      using 1(2) by (blast dest: keepsD)
  qed
qed simp

lemma migrate_Inr:
  assumes "migrate k = (Inr u, k')"
  obtains k1 k2 where "forEach statements (\<lambda>st. on_file (run_statement st)) k = (Inr (), k1)"
    and "ensureColumn ''vendor'' k1 = (Inr (), k2)" and "ensureColumn ''identity_last_checked'' k2 = (Inr (), k')"
  using assms by (auto simp: migrate_def elim!: andThen_InrE)

lemma ensureColumn_Inr:
  assumes "ensureColumn c k = (Inr u, k')"
  shows "set (dk_columns k') = insert c (set (dk_columns k))" and "dk_pragmas k' = dk_pragmas k" and "dk_tables k' = dk_tables k"
    and "dk_indexes k' = dk_indexes k" and "s_db (dk_store k') = s_db (dk_store k)"
  using assms by (auto simp: ensureColumn_def gets_def ret_def elim!: andThen_InrE on_file_Inr split: if_splits)

lemma migrate_establishes:
  assumes "migrate k = (Inr u, k')" and "st \<in> set statements"
    and "\<And>j j'. run_statement st j = Inr j' \<Longrightarrow> Q j'"
    and "\<And>st j j'. Q j \<Longrightarrow> run_statement st j = Inr j' \<Longrightarrow> Q j'"
    and "\<And>j e. Q j \<Longrightarrow> Q (j\<lparr>dk_store := (dk_store j)\<lparr>s_env := e\<rparr>\<rparr>)" and "\<And>j cs. Q j \<Longrightarrow> Q (j\<lparr>dk_columns := cs\<rparr>)"
  shows "Q k'"
proof -
  obtain k1 k2 where 1: "forEach statements (\<lambda>st. on_file (run_statement st)) k = (Inr (), k1)"
    and 2: "ensureColumn ''vendor'' k1 = (Inr (), k2)" and 3: "ensureColumn ''identity_last_checked'' k2 = (Inr (), k')"
    using assms(1) by (rule migrate_Inr)
  have keep: "keeps Q (on_file (run_statement y))" for y
    by (rule keeps_on_file) (use assms(4,5) in blast)+
  have "Q k1"
    by (rule forEach_establishes [OF 1 assms(2) _ keep]) (auto elim: on_file_Inr dest: assms(3))
  moreover have "keeps Q (ensureColumn c)" for c
    by (rule keeps_ensureColumn [OF assms(5,6)])
  ultimately show ?thesis
    using 2 3 by (blast dest: keepsD)
qed

lemma without_duplicates_twice: "without_duplicates (without_duplicates rows) = without_duplicates rows"
  by (auto simp: without_duplicates_def oldest_of_key_def list_all_iff intro!: filter_cong)

text \<open>What \<open>migrate\<close> leaves once it succeeds, whatever the state it found.\<close>

lemma migrate_rules:
  assumes "migrate k = (Inr u, k')" and "distinct (map rr_id (t_rules d))" and "unfilled d k"
  shows "s_db (dk_store k') = d\<lparr>t_rules := without_duplicates (t_rules d)\<rparr>"
proof -
  let ?rules = "\<lambda>j. t_rules (s_db (dk_store j))"
  have "without_duplicates (?rules k') = ?rules k'"
  proof (rule migrate_establishes [OF assms(1), where st = DeleteDuplicateRules])
    show "DeleteDuplicateRules \<in> set statements"
      by (simp add: statements_def)
    fix st j j' assume "without_duplicates (?rules j) = ?rules j" "run_statement st j = Inr j'"
    then show "without_duplicates (?rules j') = ?rules j'"
      by (cases st) (auto simp: without_duplicates_twice split: if_splits)
  qed (auto simp: without_duplicates_twice)
  moreover have "unfilled d k'"
    using keeps_unfilled [OF assms(2)] assms(3,1) by (rule keepsD)
  ultimately show ?thesis
    by (auto simp: unfilled_def)
qed

lemma migrate_schema:
  assumes "migrate k = (Inr u, k')"
  shows "''foreign_keys=ON'' \<in> set (dk_pragmas k')" and "{''vendor'', ''identity_last_checked''} \<subseteq> set (dk_columns k')"
proof -
  show "''foreign_keys=ON'' \<in> set (dk_pragmas k')"
  proof (rule migrate_establishes [OF assms, where st = "Pragma ''foreign_keys=ON''"])
    show "Pragma ''foreign_keys=ON'' \<in> set statements"
      by (simp add: statements_def)
    fix st j j' assume "''foreign_keys=ON'' \<in> set (dk_pragmas j)" "run_statement st j = Inr j'"
    then show "''foreign_keys=ON'' \<in> set (dk_pragmas j')"
      by (cases st) (auto simp: add_name_def split: if_splits)
  qed (auto simp: add_name_def)
  show "{''vendor'', ''identity_last_checked''} \<subseteq> set (dk_columns k')"
    using assms by (rule migrate_Inr) (auto dest: ensureColumn_Inr(1))
qed

text \<open>
  C10. Opening a database makes the rules a key-indexed table whatever version wrote it, and loses no rule:
  when \<open>Open\<close> succeeds, of the rules with one scope, target and action exactly the one of smallest id is
  left, no other row of any table has changed, foreign keys are enforced, the columns added since the
  first version exist and no cache is filled. When it fails at any call, the rows are the old ones or
  these.
\<close>
theorem Open_migrates:
  assumes "Open mkdir content random writes k = (r, w, k')" and "d = s_db (dk_store k)" and "distinct (map rr_id (t_rules d))"
    and "\<not> rulesLoaded (dk_store k) \<and> \<not> staticLoaded (dk_store k) \<and> \<not> blocklistLoaded (dk_store k)"
  shows "s_db (dk_store k') \<in> {d, d\<lparr>t_rules := without_duplicates (t_rules d)\<rparr>} \<and>
    (\<forall>x \<in> set (t_rules d). \<exists>y \<in> set (t_rules (s_db (dk_store k'))). rule_key y = rule_key x \<and> rr_id y \<le> rr_id x) \<and>
    \<not> rulesLoaded (dk_store k') \<and> \<not> staticLoaded (dk_store k') \<and> \<not> blocklistLoaded (dk_store k') \<and>
    (r = Inr () \<longrightarrow> distinct (map rule_key (t_rules (s_db (dk_store k')))) \<and>
       s_db (dk_store k') = d\<lparr>t_rules := without_duplicates (t_rules d)\<rparr> \<and>
       ''foreign_keys=ON'' \<in> set (dk_pragmas k') \<and> {''vendor'', ''identity_last_checked''} \<subseteq> set (dk_columns k'))"
proof -
  have start: "unfilled d (k\<lparr>dk_store := fresh_store (s_db (dk_store k)) (s_env (dk_store k)) key, dk_pragmas := []\<rparr>)" for key
    by (simp add: unfilled_def fresh_store_def assms(2))
  have a: "unfilled d k'"
    using assms(1) assms(2,4) keepsD [OF keeps_unfilled [OF assms(3)] start]
    by (auto simp: Open_def unfilled_def split: sum.splits prod.splits)
  have b: "\<exists>y \<in> set (without_duplicates (t_rules d)). rule_key y = rule_key x \<and> rr_id y \<le> rr_id x"
    if "x \<in> set (t_rules d)" for x
    using without_duplicates_keeps_keys [OF that] that
    by (auto simp: without_duplicates_def oldest_of_key_def list_all_iff)
  have c: "distinct (map rule_key (t_rules (s_db (dk_store k')))) \<and>
      s_db (dk_store k') = d\<lparr>t_rules := without_duplicates (t_rules d)\<rparr> \<and>
      ''foreign_keys=ON'' \<in> set (dk_pragmas k') \<and> {''vendor'', ''identity_last_checked''} \<subseteq> set (dk_columns k')" if "r = Inr ()"
  proof -
    from assms(1) that obtain key where "migrate (k\<lparr>dk_store := fresh_store (s_db (dk_store k)) (s_env (dk_store k)) key, dk_pragmas := []\<rparr>) = (Inr (), k')"
      by (auto simp: Open_def split: sum.splits prod.splits)
    with migrate_rules [OF _ assms(3) start] migrate_schema without_duplicates_distinct [OF assms(3)] show ?thesis
      by simp
  qed
  from a have db: "s_db (dk_store k') \<in> {d, d\<lparr>t_rules := without_duplicates (t_rules d)\<rparr>}"
    by (auto simp: unfilled_def)
  then have "\<forall>x \<in> set (t_rules d). \<exists>y \<in> set (t_rules (s_db (dk_store k'))). rule_key y = rule_key x \<and> rr_id y \<le> rr_id x"
  proof (rule insertE)
    assume "s_db (dk_store k') = d"
    then show ?thesis
      by (metis order_refl)
  next
    assume "s_db (dk_store k') \<in> {d\<lparr>t_rules := without_duplicates (t_rules d)\<rparr>}"
    then have "t_rules (s_db (dk_store k')) = without_duplicates (t_rules d)"
      by simp
    with b show ?thesis
      by simp
  qed
  with a c db show ?thesis
    unfolding unfilled_def by blast
qed

definition sample_disk :: disk where
  \<comment> \<open>a file of the first version, with a rule that is there twice\<close>
  "sample_disk = \<lparr>dk_store = sample_store (sample_rules_db\<lparr>t_rules := [sample_rule 1 ''a.test.'' ''block'', sample_rule 2 ''a.test.'' ''block'', sample_rule 3 ''b.test.'' ''allow'']\<rparr>),
     dk_tables = [''hosts'', ''rules''], dk_columns = [''id'', ''source_ip'', ''hostname'', ''mac''], dk_indexes = [], dk_pragmas = []\<rparr>"

lemma sample_disk_opens: "fst (Open True None (replicate 32 CHR 0x41) True sample_disk) = Inr ()"
  by code_simp

lemma sample_disk_unfailing: "unfailing (dk_store (snd (snd (Open True None (replicate 32 CHR 0x41) True sample_disk))))"
  unfolding unfailing_def by code_simp

lemma Open_migrates_witness:
  "case Open True None (replicate 32 CHR 0x41) True sample_disk of
     (r, w, k) \<Rightarrow> r = Inr () \<and> map rr_id (t_rules (s_db (dk_store k))) = [1, 3] \<and> ''vendor'' \<in> set (dk_columns k)"
proof -
  obtain r w k where o: "Open True None (replicate 32 CHR 0x41) True sample_disk = (r, w, k)"
    by (cases "Open True None (replicate 32 CHR 0x41) True sample_disk") blast
  with sample_disk_opens have "r = Inr ()"
    by simp
  moreover have "distinct (map rr_id (t_rules (s_db (dk_store sample_disk))))"
    "\<not> rulesLoaded (dk_store sample_disk) \<and> \<not> staticLoaded (dk_store sample_disk) \<and> \<not> blocklistLoaded (dk_store sample_disk)"
    by (simp_all add: sample_disk_def sample_rule_def sample_store_def fresh_store_def)
  note Open_migrates [OF o refl this]
  ultimately show ?thesis
    using o by (simp add: sample_disk_def sample_rule_def sample_store_def fresh_store_def without_duplicates_def oldest_of_key_def rule_key_def)
qed

section \<open>A database that could be opened\<close>

lemma Open_succeeds:
  assumes "Open mkdir content random writes k = (Inr u, w, k')" and "distinct (map rr_id (t_rules (s_db (dk_store k))))"
  shows "unfilled (s_db (dk_store k)) k'"
    and "s_db (dk_store k') = (s_db (dk_store k))\<lparr>t_rules := without_duplicates (t_rules (s_db (dk_store k)))\<rparr>"
proof -
  let ?d = "s_db (dk_store k)"
  from assms(1) obtain key where m: "migrate (k\<lparr>dk_store := fresh_store ?d (s_env (dk_store k)) key, dk_pragmas := []\<rparr>) = (Inr (), k')"
    by (auto simp: Open_def split: sum.splits prod.splits)
  have start: "unfilled ?d (k\<lparr>dk_store := fresh_store ?d (s_env (dk_store k)) key, dk_pragmas := []\<rparr>)"
    by (simp add: unfilled_def fresh_store_def)
  show "unfilled ?d k'"
    using keepsD [OF keeps_unfilled [OF assms(2)] start m] .
  show "s_db (dk_store k') = ?d\<lparr>t_rules := without_duplicates (t_rules ?d)\<rparr>"
    by (rule migrate_rules [OF m assms(2) start])
qed

end
