(* ===== verification/Cache_Race.thy ===== *)
theory Cache_Race
  imports Store_Blocklist Store_Static Store_Rules
begin

text \<open>
  The three caches of internal/store/store.go under concurrent calls. \<open>cacheMu\<close> is held while a cache is
  looked at, while it is filled and while it is dropped, but not between these: a read of a cache that is
  not filled runs its query outside the lock, and a change runs its statement before it drops the cache.
  Reads and changes are split into the sections that are atomic (under the lock, or one call on the one
  connection of the database), and any number of them run interleaved.
\<close>

section \<open>The three caches\<close>

record 'v cache =
  ca_loaded :: "store \<Rightarrow> bool"
  ca_rows :: "store \<Rightarrow> 'v"
  ca_select :: "db \<Rightarrow> 'v"
  ca_fill :: "'v \<Rightarrow> store \<Rightarrow> store"
  ca_drop :: "store \<Rightarrow> store"

definition shared_rules :: "Rule list cache" where
  "shared_rules = \<lparr>ca_loaded = rulesLoaded, ca_rows = rulesCache, ca_select = (\<lambda>d. map scanRule (select_rules d)),
     ca_fill = (\<lambda>rules s. s\<lparr>rulesCache := rules, rulesLoaded := True\<rparr>), ca_drop = invalidateRuleCache\<rparr>"

definition shared_static :: "StaticRecord list cache" where
  "shared_static = \<lparr>ca_loaded = staticLoaded, ca_rows = staticCache, ca_select = (\<lambda>d. map scan_static (select_static d)),
     ca_fill = (\<lambda>records s. s\<lparr>staticCache := records, staticLoaded := True\<rparr>), ca_drop = invalidateStaticCache\<rparr>"

definition shared_blocklist :: "(string \<times> BlocklistMatch) list cache" where
  "shared_blocklist = \<lparr>ca_loaded = blocklistLoaded, ca_rows = blocklistCache, ca_select = entries_map,
     ca_fill = (\<lambda>cache s. s\<lparr>blocklistCache := cache, blocklistLoaded := True\<rparr>), ca_drop = invalidateBlocklistCache\<rparr>"

section \<open>Reads and changes in steps\<close>

datatype 'v reader = Starting | Missed | Holding 'v | Returned "error + 'v"

fun reader_step :: "'v cache \<Rightarrow> 'v reader \<Rightarrow> store \<Rightarrow> 'v reader \<times> store" where
  \<comment> \<open>look under the read lock; query without the lock; fill under the lock\<close>
  "reader_step c Starting s = (if ca_loaded c s then (Returned (Inr (ca_rows c s)), s) else (Missed, s))"
| "reader_step c Missed s =
     (case query_db (ca_select c) s of (Inl e, s) \<Rightarrow> (Returned (Inl e), s) | (Inr rows, s) \<Rightarrow> (Holding rows, s))"
| "reader_step c (Holding rows) s = (Returned (Inr rows), ca_fill c rows s)"
| "reader_step c (Returned r) s = (Returned r, s)"

datatype changer = Pending | Stored | Acknowledged | Refused error

fun changer_step :: "'v cache \<Rightarrow> (db \<Rightarrow> db) \<Rightarrow> changer \<Rightarrow> store \<Rightarrow> changer \<times> store" where
  \<comment> \<open>the statement, or the commit of a transaction; then the cache is dropped under the lock\<close>
  "changer_step c change Pending s =
     (case exec_stmt change s of (Inl e, s) \<Rightarrow> (Refused e, s) | (Inr _, s) \<Rightarrow> (Stored, s))"
| "changer_step c change Stored s = (Acknowledged, ca_drop c s)"
| "changer_step c change Acknowledged s = (Acknowledged, s)"
| "changer_step c change (Refused e) s = (Refused e, s)"

record 'v race =
  rc_store :: store
  rc_readers :: "nat \<Rightarrow> 'v reader"
  rc_changers :: "nat \<Rightarrow> changer"

definition race_start :: "store \<Rightarrow> 'v race" where
  "race_start s = \<lparr>rc_store = s, rc_readers = (\<lambda>_. Starting), rc_changers = (\<lambda>_. Pending)\<rparr>"

definition read_at :: "'v cache \<Rightarrow> nat \<Rightarrow> 'v race \<Rightarrow> 'v race" where
  "read_at c i x = (case reader_step c (rc_readers x i) (rc_store x) of
     (p, s) \<Rightarrow> x\<lparr>rc_store := s, rc_readers := (rc_readers x)(i := p)\<rparr>)"

definition change_at :: "'v cache \<Rightarrow> (nat \<Rightarrow> db \<Rightarrow> db) \<Rightarrow> nat \<Rightarrow> 'v race \<Rightarrow> 'v race" where
  "change_at c change i x = (case changer_step c (change i) (rc_changers x i) (rc_store x) of
     (p, s) \<Rightarrow> x\<lparr>rc_store := s, rc_changers := (rc_changers x)(i := p)\<rparr>)"

inductive race_step :: "'v cache \<Rightarrow> (nat \<Rightarrow> db \<Rightarrow> db) \<Rightarrow> 'v race \<Rightarrow> 'v race \<Rightarrow> bool" for c change where
  reads: "race_step c change x (read_at c i x)"
| changes: "race_step c change x (change_at c change i x)"
| elsewhere: "ca_select c (s_db s) = ca_select c (s_db (rc_store x)) \<Longrightarrow> ca_loaded c s = ca_loaded c (rc_store x) \<Longrightarrow>
    ca_rows c s = ca_rows c (rc_store x) \<Longrightarrow> race_step c change x (x\<lparr>rc_store := s\<rparr>)"

inductive orderly :: "'v cache \<Rightarrow> (nat \<Rightarrow> db \<Rightarrow> db) \<Rightarrow> 'v race \<Rightarrow> 'v race \<Rightarrow> bool" for c change where
  \<comment> \<open>the same, but no statement runs while a read holds rows that it has not yet put into the cache\<close>
  reads: "orderly c change x (read_at c i x)"
| changes: "(rc_changers x i = Pending \<Longrightarrow> \<forall>j rows. rc_readers x j \<noteq> Holding rows) \<Longrightarrow> orderly c change x (change_at c change i x)"
| elsewhere: "ca_select c (s_db s) = ca_select c (s_db (rc_store x)) \<Longrightarrow> ca_loaded c s = ca_loaded c (rc_store x) \<Longrightarrow>
    ca_rows c s = ca_rows c (rc_store x) \<Longrightarrow> orderly c change x (x\<lparr>rc_store := s\<rparr>)"

section \<open>Alone, the steps are the operations\<close>

definition run_reader :: "'v cache \<Rightarrow> store \<Rightarrow> 'v reader \<times> store" where
  "run_reader c s = (case reader_step c Starting s of (p, s) \<Rightarrow> case reader_step c p s of (p, s) \<Rightarrow> reader_step c p s)"

lemma reader_alone:
  "run_reader shared_rules s = (case Rules s of (r, t) \<Rightarrow> (Returned r, t))"
  "run_reader shared_static s = (case StaticRecords s of (r, t) \<Rightarrow> (Returned r, t))"
  "run_reader shared_blocklist s = (case blocklistEntries s of (r, t) \<Rightarrow> (Returned r, t))"
  by (simp_all add: run_reader_def shared_rules_def Rules_def shared_static_def StaticRecords_def shared_blocklist_def blocklistEntries_def
      split: prod.splits sum.splits)

definition run_changer :: "'v cache \<Rightarrow> (db \<Rightarrow> db) \<Rightarrow> store \<Rightarrow> changer \<times> store" where
  "run_changer c change s = (case changer_step c change Pending s of (p, s) \<Rightarrow> changer_step c change p s)"

lemma changer_alone:
  "run_changer c change s =
     (case andThen (exec_stmt change) (\<lambda>_. modify (ca_drop c)) s of
        (Inl e, t) \<Rightarrow> (Refused e, t) | (Inr _, t) \<Rightarrow> (Acknowledged, t))"
  by (simp add: run_changer_def andThen_def modify_def split: prod.splits sum.splits)

definition orderly_ok :: "'v cache \<Rightarrow> 'v race \<Rightarrow> bool" where
  \<comment> \<open>rows held are those of the table; a filled cache is too, unless a change has yet to drop it\<close>
  "orderly_ok c x \<longleftrightarrow> (\<forall>i rows. rc_readers x i = Holding rows \<longrightarrow> rows = ca_select c (s_db (rc_store x))) \<and>
     (ca_loaded c (rc_store x) \<longrightarrow> ca_rows c (rc_store x) = ca_select c (s_db (rc_store x)) \<or> (\<exists>i. rc_changers x i = Stored))"

section \<open>Interface: a cache of rows\<close>

text \<open>What a read and a change rely on: filling shows the rows given, dropping empties, neither touches the tables.\<close>

locale lawful_cache =
  fixes c :: "'v cache"
  assumes loaded_db: "ca_loaded c (s\<lparr>s_db := d, s_env := e\<rparr>) = ca_loaded c s" "ca_rows c (s\<lparr>s_db := d, s_env := e\<rparr>) = ca_rows c s"
    and loaded_env: "ca_loaded c (s\<lparr>s_env := e\<rparr>) = ca_loaded c s" "ca_rows c (s\<lparr>s_env := e\<rparr>) = ca_rows c s"
    and filled: "ca_loaded c (ca_fill c rows s)" "ca_rows c (ca_fill c rows s) = rows" "s_db (ca_fill c rows s) = s_db s"
    and dropped: "\<not> ca_loaded c (ca_drop c s)" "s_db (ca_drop c s) = s_db s"
begin

lemma orderly_read: "orderly_ok c x \<Longrightarrow> orderly_ok c (read_at c i x)"
proof -
  assume x: "orderly_ok c x"
  show "orderly_ok c (read_at c i x)"
  proof (cases "rc_readers x i")
    case Missed
    obtain r t where t: "query_db (ca_select c) (rc_store x) = (r, t)"
      by fastforce
    then show ?thesis
      by (cases rule: query_db_cases) (use x Missed t in \<open>auto simp: orderly_ok_def read_at_def loaded_env\<close>)
  qed (use x in \<open>auto simp: orderly_ok_def read_at_def filled\<close>)
qed

lemma orderly_change:
  assumes "orderly_ok c x" and "rc_changers x i = Pending \<Longrightarrow> \<forall>j rows. rc_readers x j \<noteq> Holding rows"
  shows "orderly_ok c (change_at c change i x)"
proof (cases "rc_changers x i")
  case Pending
  obtain r t where t: "exec_stmt (change i) (rc_store x) = (r, t)"
    by fastforce
  then show ?thesis
  proof (cases rule: exec_stmt_cases)
    case (okay e)
    have "rc_changers (change_at c change i x) i = Stored" "rc_readers (change_at c change i x) = rc_readers x"
      by (simp_all add: change_at_def Pending t okay(1))
    with assms(2) [OF Pending] show ?thesis
      unfolding orderly_ok_def by metis
  next
    case (failed e y)
    then have x': "change_at c change i x = x\<lparr>rc_store := (rc_store x)\<lparr>s_env := e\<rparr>, rc_changers := (rc_changers x)(i := Refused y)\<rparr>"
      by (simp add: change_at_def Pending t)
    have "\<exists>j. ((rc_changers x)(i := Refused y)) j = Stored" if "rc_changers x j = Stored" for j
      using that Pending by (intro exI [of _ j]) auto
    with assms(1) show ?thesis
      unfolding x' orderly_ok_def by (auto simp: loaded_env simp del: fun_upd_apply)
  qed
next
  case Stored
  with assms(1) show ?thesis
    by (auto simp: orderly_ok_def change_at_def dropped)
qed (use assms(1) in \<open>simp_all add: change_at_def fun_upd_idem\<close>)

lemma orderly_keeps: "orderly c change x y \<Longrightarrow> orderly_ok c x \<Longrightarrow> orderly_ok c y"
proof (induction rule: orderly.induct)
  case (elsewhere s x)
  then show ?case
    by (simp add: orderly_ok_def)
qed (simp_all add: orderly_read orderly_change)

lemma orderly_reaches:
  assumes "(orderly c change)\<^sup>*\<^sup>* (race_start s) x" and "coherent (ca_loaded c) (ca_rows c) (\<lambda>s. ca_select c (s_db s)) s"
  shows "orderly_ok c x"
  using assms(1)
proof (induction rule: rtranclp_induct)
  case base
  with assms(2) show ?case
    by (simp add: orderly_ok_def race_start_def coherent_def)
qed (rule orderly_keeps)

lemma orderly_coherent:
  assumes "(orderly c change)\<^sup>*\<^sup>* (race_start s) x" and "coherent (ca_loaded c) (ca_rows c) (\<lambda>s. ca_select c (s_db s)) s"
    and "\<forall>i. rc_changers x i \<noteq> Stored"
  shows "coherent (ca_loaded c) (ca_rows c) (\<lambda>s. ca_select c (s_db s)) (rc_store x)"
  using orderly_reaches [OF assms(1,2)] assms(3) by (auto simp: orderly_ok_def coherent_def)

lemma goes_stale:
  assumes "unfailing s" and "\<not> ca_loaded c s"
  obtains x where "(race_step c change)\<^sup>*\<^sup>* (race_start s) x" and "rc_changers x 0 = Acknowledged"
    and "s_db (rc_store x) = change 0 (s_db s)" and "ca_loaded c (rc_store x)" and "ca_rows c (rc_store x) = ca_select c (s_db s)"
proof -
  let ?x = "read_at c 0 (change_at c change 0 (change_at c change 0 (read_at c 0 (read_at c 0 (race_start s)))))"
  have "(race_step c change)\<^sup>*\<^sup>* (race_start s) ?x"
    by (meson race_step.intros(1,2) rtranclp.intros)
  moreover have "query_db q s = (Inr (q (s_db s)), s)" "exec_stmt f s = (Inr (), s\<lparr>s_db := f (s_db s)\<rparr>)" for f :: "db \<Rightarrow> db" and q :: "db \<Rightarrow> 'v"
    using assms(1) by (simp_all add: query_db_def exec_stmt_def exec_db_def db_call_def unfailing_def)
  then have "rc_changers ?x 0 = Acknowledged" "s_db (rc_store ?x) = change 0 (s_db s)" "ca_loaded c (rc_store ?x)"
    "ca_rows c (rc_store ?x) = ca_select c (s_db s)"
    using assms(2) by (simp_all add: read_at_def change_at_def race_start_def filled dropped)
  ultimately show thesis
    by (rule that)
qed

end

interpretation rules_race: lawful_cache shared_rules
  by unfold_locales (simp_all add: shared_rules_def invalidateRuleCache_def)

interpretation static_race: lawful_cache shared_static
  by unfold_locales (simp_all add: shared_static_def invalidateStaticCache_def)

interpretation blocklist_race: lawful_cache shared_blocklist
  by unfold_locales (simp_all add: shared_blocklist_def invalidateBlocklistCache_def)

text \<open>
  C8. A change that nobody overtakes is seen. However many reads and changes of a cache run interleaved,
  and whatever calls fail: as long as no statement runs while a read holds rows that it has not yet put
  into the cache, then whenever no change is between its statement and its dropping of the cache, each of
  the three caches that is filled holds what its table says now.
\<close>
theorem orderly_changes_are_seen:
  assumes "rules_coherent s" and "static_coherent s" and "blocklist_coherent s"
  shows "((orderly shared_rules change)\<^sup>*\<^sup>* (race_start s) x \<longrightarrow> (\<forall>i. rc_changers x i \<noteq> Stored) \<longrightarrow> rules_coherent (rc_store x)) \<and>
    ((orderly shared_static change)\<^sup>*\<^sup>* (race_start s) y \<longrightarrow> (\<forall>i. rc_changers y i \<noteq> Stored) \<longrightarrow> static_coherent (rc_store y)) \<and>
    ((orderly shared_blocklist change)\<^sup>*\<^sup>* (race_start s) z \<longrightarrow> (\<forall>i. rc_changers z i \<noteq> Stored) \<longrightarrow> blocklist_coherent (rc_store z))"
  using assms rules_race.orderly_coherent [of change s x] static_race.orderly_coherent [of change s y]
    blocklist_race.orderly_coherent [of change s z]
  by (simp add: rules_coherent_def static_coherent_def blocklist_coherent_def coherent_def rules_view_def static_view_def blocklist_view_def shared_rules_def shared_static_def shared_blocklist_def)

definition block_ads :: "nat \<Rightarrow> db \<Rightarrow> db" where
  \<comment> \<open>the statement of \<open>AddRule\<close> for a rule that blocks \<open>ads.com\<close>\<close>
  "block_ads i d = d\<lparr>t_rules := rule_put \<lparr>ra_target = ''ads.com.'', ra_action = ''block'', ra_note = '''', ra_now = ''''\<rparr> (t_rules d)\<rparr>"

lemma orderly_changes_are_seen_witness:
  "\<exists>x. (orderly shared_rules block_ads)\<^sup>*\<^sup>* (race_start (sample_store empty_db)) x \<and> rc_changers x 0 = Acknowledged \<and>
     rules_coherent (rc_store x) \<and> map rr_target (t_rules (s_db (rc_store x))) = [''ads.com.'']"
proof -
  let ?s = "sample_store empty_db"
  let ?y = "change_at shared_rules block_ads 0 (race_start ?s)"
  let ?x = "change_at shared_rules block_ads 0 ?y"
  have "orderly shared_rules block_ads (race_start ?s) ?y"
    by (rule orderly.changes) (simp add: race_start_def)
  moreover have stored: "rc_changers ?y = (\<lambda>_. Pending)(0 := Stored)" "s_db (rc_store ?y) = block_ads 0 empty_db"
    by (simp_all add: change_at_def race_start_def run_simps)
  then have "orderly shared_rules block_ads ?y ?x"
    by (intro orderly.changes) simp
  ultimately have steps: "(orderly shared_rules block_ads)\<^sup>*\<^sup>* (race_start ?s) ?x"
    by (meson rtranclp.intros)
  have end_state: "rc_changers ?x = (\<lambda>_. Pending)(0 := Acknowledged)" "s_db (rc_store ?x) = block_ads 0 empty_db"
    using stored by (simp_all add: change_at_def [of _ _ _ ?y] rules_race.dropped)
  have "rules_coherent ?s" "static_coherent ?s" "blocklist_coherent ?s"
    by (simp_all add: rules_coherent_def static_coherent_def blocklist_coherent_def coherent_def)
  from orderly_changes_are_seen [OF this, of block_ads ?x] steps end_state have "rules_coherent (rc_store ?x)"
    by simp
  moreover have "map rr_target (t_rules (block_ads 0 empty_db)) = [''ads.com.'']"
    by (simp add: block_ads_def empty_db_def rule_put_def upsert_def rule_fresh_def)
  ultimately show ?thesis
    using steps end_state by (intro exI [of _ ?x]) simp
qed

text \<open>
  C9. An overtaken change is not seen. From every state in which the rules are not cached there is a run in
  which a rule is stored, the cache is dropped and the change is acknowledged, and which yet ends with the
  rules of before the change in the cache: every later read, so every later query, is answered with them
  until something else drops the cache. The read of another query had its rows before the change and put
  them into the cache after it.
\<close>
theorem stale_rules_reachable:
  assumes "unfailing s" and "\<not> rulesLoaded s"
  shows "\<exists>x. (race_step shared_rules change)\<^sup>*\<^sup>* (race_start s) x \<and> rc_changers x 0 = Acknowledged \<and>
    s_db (rc_store x) = change 0 (s_db s) \<and> Rules (rc_store x) = (Inr (rules_view s), rc_store x)"
proof -
  have "\<not> ca_loaded shared_rules s"
    using assms(2) by (simp add: shared_rules_def)
  then obtain x where "(race_step shared_rules change)\<^sup>*\<^sup>* (race_start s) x" "rc_changers x 0 = Acknowledged"
    "s_db (rc_store x) = change 0 (s_db s)" "ca_loaded shared_rules (rc_store x)"
    "ca_rows shared_rules (rc_store x) = ca_select shared_rules (s_db s)"
    by (rule rules_race.goes_stale [OF assms(1)])
  then show ?thesis
    by (intro exI [of _ x]) (simp add: shared_rules_def Rules_def rules_view_def)
qed

lemma stale_rules_reachable_witness:
  "\<exists>x. (race_step shared_rules block_ads)\<^sup>*\<^sup>* (race_start (sample_store empty_db)) x \<and> rc_changers x 0 = Acknowledged \<and>
     map rr_target (t_rules (s_db (rc_store x))) = [''ads.com.''] \<and> fst (MatchRule ''ads.com'' (rc_store x)) = Inr None"
proof -
  have "unfailing (sample_store empty_db)" "\<not> rulesLoaded (sample_store empty_db)"
    by (simp_all add: unfailing_def)
  from stale_rules_reachable [OF this, of block_ads] obtain x where
    x: "(race_step shared_rules block_ads)\<^sup>*\<^sup>* (race_start (sample_store empty_db)) x" "rc_changers x 0 = Acknowledged"
      "s_db (rc_store x) = block_ads 0 empty_db" "Rules (rc_store x) = (Inr [], rc_store x)"
    by (auto simp: rules_view_def select_rules_def empty_db_def)
  have "map rr_target (t_rules (block_ads 0 empty_db)) = [''ads.com.'']"
    by (simp add: block_ads_def empty_db_def rule_put_def upsert_def rule_fresh_def)
  moreover have "fst (MatchRule ''ads.com'' (rc_store x)) = Inr None"
    by (simp add: MatchRule_def Let_def andThen_def time_now_def ret_def x(4) split: list.split)
  ultimately show ?thesis
    using x by auto
qed

text \<open>The same for the static records and the blocklists.\<close>

lemma stale_others_reachable:
  assumes "unfailing s"
  shows "\<not> staticLoaded s \<Longrightarrow> \<exists>x. (race_step shared_static change)\<^sup>*\<^sup>* (race_start s) x \<and> rc_changers x 0 = Acknowledged \<and>
      s_db (rc_store x) = change 0 (s_db s) \<and> StaticRecords (rc_store x) = (Inr (static_view s), rc_store x)"
    and "\<not> blocklistLoaded s \<Longrightarrow> \<exists>x. (race_step shared_blocklist change)\<^sup>*\<^sup>* (race_start s) x \<and> rc_changers x 0 = Acknowledged \<and>
      s_db (rc_store x) = change 0 (s_db s) \<and> blocklistEntries (rc_store x) = (Inr (blocklist_view s), rc_store x)"
proof -
  assume "\<not> staticLoaded s"
  then have "\<not> ca_loaded shared_static s"
    by (simp add: shared_static_def)
  from static_race.goes_stale [OF assms this, of change]
  show "\<exists>x. (race_step shared_static change)\<^sup>*\<^sup>* (race_start s) x \<and> rc_changers x 0 = Acknowledged \<and>
      s_db (rc_store x) = change 0 (s_db s) \<and> StaticRecords (rc_store x) = (Inr (static_view s), rc_store x)"
    by (auto simp: shared_static_def StaticRecords_def static_view_def)
next
  assume "\<not> blocklistLoaded s"
  then have "\<not> ca_loaded shared_blocklist s"
    by (simp add: shared_blocklist_def)
  from blocklist_race.goes_stale [OF assms this, of change]
  show "\<exists>x. (race_step shared_blocklist change)\<^sup>*\<^sup>* (race_start s) x \<and> rc_changers x 0 = Acknowledged \<and>
      s_db (rc_store x) = change 0 (s_db s) \<and> blocklistEntries (rc_store x) = (Inr (blocklist_view s), rc_store x)"
    by (auto simp: shared_blocklist_def blocklistEntries_def blocklist_view_def)
qed

end
