(* ===== verification/Program.thy ===== *)
theory Program
  imports HTTP_Policy DNS_Policy DNS_Lifecycle Store_Open Cache_Race
begin

text \<open>
  The program of cmd/tmdns/main.go: \<open>SeedDefaults\<close> and the start, and the running system as a state
  machine whose steps are the queries, the writer of events, the enrichments, the requests to the admin
  API and the ticks of the three workers, in any order, with any failures of the database.
\<close>

section \<open>The start\<close>

definition default_record :: "string \<Rightarrow> string \<Rightarrow> string \<Rightarrow> static_row list \<Rightarrow> static_row list" where
  "default_record name val now rows =
     insert_ignore (\<lambda>r. static_key r = (name, ''A''))
       \<lparr>sr_id = next_rowid (map sr_id rows), sr_name = name, sr_type = ''A'', sr_value = val, sr_ttl = 60, sr_created_at = now\<rparr> rows"

definition default_rule :: "string \<Rightarrow> rule_row list \<Rightarrow> rule_row list" where
  "default_rule now rows =
     (if list_ex (\<lambda>r. rr_target r = ''blocked.test.'' \<and> rr_action r = ''block'') rows then rows
      else rows @ [rule_fresh \<lparr>ra_target = ''blocked.test.'', ra_action = ''block'', ra_note = ''Default test block rule'', ra_now = now\<rparr> rows])"

definition SeedDefaults :: "(store, unit) comp" where
  "SeedDefaults =
     andThen time_now (\<lambda>t.
     let now = fmt_time t
     in andThen (exec_stmt (\<lambda>d. d\<lparr>t_static := default_record ''dashboard.test.'' ''127.0.0.1'' now
          (default_record ''router.test.'' ''192.168.1.1'' now (t_static d))\<rparr>)) (\<lambda>_.
        andThen (exec_stmt (\<lambda>d. d\<lparr>t_rules := default_rule now (t_rules d)\<rparr>)) (\<lambda>_.
        SeedBlocklistPresets)))"

definition purge_tick :: "Server \<Rightarrow> Server" where
  \<comment> \<open>at the start, and then every 24 hours: the error is only logged\<close>
  "purge_tick s = snd (on_store PurgeOldEvents s)"

definition startup :: "Config \<Rightarrow> store \<Rightarrow> admin option" where
  \<comment> \<open>\<open>main\<close> once the store is open; \<open>None\<close> is the exit with status 1\<close>
  "startup cfg st =
     (case SeedDefaults st of
        (Inl _, _) \<Rightarrow> None
      | (Inr _, st) \<Rightarrow> Some (new_admin cfg (New (snd (PurgeOldEvents st)))))"

datatype level = LevelDebug | LevelInfo | LevelWarn | LevelError

definition newLogger :: "string \<Rightarrow> level" where
  "newLogger level =
     (if level = ''debug'' then LevelDebug else if level = ''warn'' then LevelWarn
      else if level = ''error'' then LevelError else LevelInfo)"

definition boot :: "Config \<Rightarrow> bool \<Rightarrow> string option \<Rightarrow> string \<Rightarrow> bool \<Rightarrow> disk \<Rightarrow> admin option" where
  \<comment> \<open>\<open>main\<close> from \<open>store.Open\<close> to the start of the services; the booleans and strings are those of \<open>Open\<close>\<close>
  "boot cfg mkdir content random writes k =
     (case Open mkdir content random writes k of
        (Inl _, _, _) \<Rightarrow> None
      | (Inr _, _, k) \<Rightarrow> startup cfg (dk_store k))"

datatype service_end = ServerClosed | OtherFailure

datatype wake = ShutdownRequested | ServiceReturned "service_end option"

fun main_status :: "admin option \<Rightarrow> wake \<Rightarrow> nat" where
  \<comment> \<open>the exit status: what wakes the \<open>select\<close> counts only when the start succeeded; errors of the shutdown are logged\<close>
  "main_status None w = 1"
| "main_status (Some a) (ServiceReturned (Some OtherFailure)) = 1"
| "main_status (Some a) w = 0"

section \<open>The running system\<close>

text \<open>
  One step. The libraries, the network and the outcome of lookups are those of the step; \<open>Weather\<close> changes
  which calls to the database will fail and what the clock will show.
\<close>

datatype event = Query dns_lib "string option" Msg | WriterTurn | Enriched lookups int string | Request site request
  | HeartbeatTick site | SyncTick site | PurgeTick | Weather env

fun run_event :: "Config \<Rightarrow> event \<Rightarrow> admin \<Rightarrow> admin" where
  "run_event cfg (Query lib addr msg) a = a\<lparr>ad_dns := handleDNS lib cfg addr msg (ad_dns a)\<rparr>"
| "run_event cfg WriterTurn a = a\<lparr>ad_dns := write_event (ad_dns a)\<rparr>"
| "run_event cfg (Enriched lk hid ip) a = a\<lparr>ad_dns := enrichment_done lk hid ip (ad_dns a)\<rparr>"
| "run_event cfg (Request si r) a = snd (serve si r a)"
| "run_event cfg (HeartbeatTick si) a =
     a\<lparr>ad_dns := (ad_dns a)\<lparr>sv_store := runHeartbeat (si_cipher si) (si_beat si) (sv_store (ad_dns a))\<rparr>\<rparr>"
| "run_event cfg (SyncTick si) a =
     a\<lparr>ad_dns := (ad_dns a)\<lparr>sv_store := runSync (si_cipher si) (si_push si) (sv_store (ad_dns a))\<rparr>\<rparr>"
| "run_event cfg PurgeTick a = a\<lparr>ad_dns := purge_tick (ad_dns a)\<rparr>"
| "run_event cfg (Weather e) a = a\<lparr>ad_dns := (ad_dns a)\<lparr>sv_store := (sv_store (ad_dns a))\<lparr>s_env := e\<rparr>\<rparr>\<rparr>"

inductive step :: "Config \<Rightarrow> admin \<Rightarrow> admin \<Rightarrow> bool" for cfg where
  step: "step cfg a (run_event cfg ev a)"

inductive reachable :: "Config \<Rightarrow> store \<Rightarrow> admin \<Rightarrow> bool" for cfg st where
  started: "startup cfg st = Some a \<Longrightarrow> reachable cfg st a"
| stepped: "reachable cfg st a \<Longrightarrow> step cfg a b \<Longrightarrow> reachable cfg st b"

inductive_cases stepE: "step cfg a b"

definition system_ok :: "Config \<Rightarrow> admin \<Rightarrow> bool" where
  "system_ok cfg a \<longleftrightarrow> policy_ok (sv_store (ad_dns a)) \<and> int (length (sv_events (ad_dns a))) \<le> EventQueueCap cfg"

section \<open>The start keeps the tables\<close>

lemma default_record_ok:
  assumes "static_table_ok rows" and "has_suffix name ''.''" and "to_lower name = name" and "val \<noteq> ''''"
  shows "static_table_ok (default_record name val now rows)"
proof (cases "list_ex (\<lambda>r. static_key r = (name, ''A'')) rows")
  case True
  with assms(1) show ?thesis
    by (simp add: default_record_def insert_ignore_def)
next
  case False
  have a: "to_upper ''A'' = ''A''"
    by code_simp
  have "next_rowid (map sr_id rows) \<notin> sr_id ` set rows"
    using next_rowid_fresh [of "map sr_id rows"] by simp
  moreover have "(name, ''A'') \<notin> static_key ` set rows"
    using False by (auto simp: list_ex_iff)
  ultimately show ?thesis
    using assms False a by (auto simp: default_record_def insert_ignore_def static_table_ok_def static_key_def static_row_ok_def)
qed

lemma default_rule_ok:
  assumes "rules_table_ok rows"
  shows "rules_table_ok (default_rule now rows)"
proof (cases "list_ex (\<lambda>r. rr_target r = ''blocked.test.'' \<and> rr_action r = ''block'') rows")
  case False
  let ?n = "\<lparr>ra_target = ''blocked.test.'', ra_action = ''block'', ra_note = ''Default test block rule'', ra_now = now\<rparr>"
  have "has_suffix ''blocked.test.'' ''.''" "to_lower ''blocked.test.'' = ''blocked.test.''"
    by code_simp+
  then have "rule_args_ok ?n"
    by (simp add: rule_args_ok_def)
  then have "rules_table_ok (rule_put ?n rows)"
    using assms by (rule rule_put_ok [rotated])
  moreover have "\<not> list_ex (\<lambda>r. rule_key r = rule_args_key ?n) rows"
    using False by (auto simp: list_ex_iff rule_key_def rule_args_key_def)
  ultimately show ?thesis
    using False by (simp add: default_rule_def rule_put_def upsert_def)
qed (use assms in \<open>simp add: default_rule_def\<close>)

section \<open>Every step keeps the invariant\<close>

definition dns_ok :: "Config \<Rightarrow> Server \<Rightarrow> bool" where
  "dns_ok cfg s \<longleftrightarrow> policy_ok (sv_store s) \<and> int (length (sv_events s)) \<le> EventQueueCap cfg"

lemma on_store_ok:
  assumes "keeps policy_ok m" and "dns_ok cfg s" and "on_store m s = (r, t)"
  shows "dns_ok cfg t"
  using assms by (auto simp: dns_ok_def on_store_def split: prod.splits dest: keepsD)

lemma on_store_calm: "calm m \<Longrightarrow> dns_ok cfg s \<Longrightarrow> on_store m s = (r, t) \<Longrightarrow> dns_ok cfg t"
  by (rule on_store_ok [OF calm_keeps])

lemma now_of_ok: "dns_ok cfg s \<Longrightarrow> now_of s = (n, t) \<Longrightarrow> dns_ok cfg t"
  by (auto simp: now_of_def split: prod.splits intro: on_store_calm [OF calm_time_now])

lemma dns_ok_fields [simp]:
  "dns_ok cfg (s\<lparr>sv_sent := a\<rparr>) = dns_ok cfg s" "dns_ok cfg (s\<lparr>sv_queries := n\<rparr>) = dns_ok cfg s"
  "dns_ok cfg (s\<lparr>sv_blocked := n\<rparr>) = dns_ok cfg s" "dns_ok cfg (s\<lparr>sv_asked := l\<rparr>) = dns_ok cfg s"
  "dns_ok cfg (s\<lparr>sv_enrichInFlight := f\<rparr>) = dns_ok cfg s" "dns_ok cfg (s\<lparr>sv_enrichNext := g\<rparr>) = dns_ok cfg s"
  "dns_ok cfg (s\<lparr>sv_spawned := p\<rparr>) = dns_ok cfg s" "dns_ok cfg (s\<lparr>sv_dropped := n\<rparr>) = dns_ok cfg s"
  by (simp_all add: dns_ok_def)

lemma admit_host_ok: "dns_ok cfg s \<Longrightarrow> admit_host ip s = (h, t) \<Longrightarrow> dns_ok cfg t"
proof -
  assume s: "dns_ok cfg s" and x: "admit_host ip s = (h, t)"
  obtain r u where u: "on_store (EnsureHost ip) s = (r, u)"
    by fastforce
  note ok = on_store_calm [OF calm_hosts(1) s u]
  from x u ok show "dns_ok cfg t"
    by (auto simp: admit_host_def enqueueHostEnrichment_def Let_def split: sum.splits prod.splits if_splits dest: now_of_ok)
qed

lemma apply_rule_ok: "dns_ok cfg' (snd vs) \<Longrightarrow> dns_ok cfg' (snd (apply_rule cfg q n vs))"
proof -
  assume s: "dns_ok cfg' (snd vs)"
  obtain r t where t: "on_store (MatchRule n) (snd vs) = (r, t)"
    by fastforce
  note ok = on_store_ok [OF keeps_matches(1) s t]
  have "dns_ok cfg' (snd (on_store (RecordRuleHit i) t))" for i
    using on_store_ok [OF keeps_RecordRuleHit ok] by (metis prod.collapse)
  with ok t show ?thesis
    by (auto simp: apply_rule_def sinkhole_def Let_def split: prod.splits sum.splits option.splits)
qed

lemma apply_blocklist_ok: "dns_ok cfg' (snd vs) \<Longrightarrow> dns_ok cfg' (snd (apply_blocklist cfg q n vs))"
proof -
  assume s: "dns_ok cfg' (snd vs)"
  obtain r t where t: "on_store (MatchBlocklist n) (snd vs) = (r, t)"
    by fastforce
  from on_store_ok [OF keeps_matches(2) s t] s t show ?thesis
    by (auto simp: apply_blocklist_def sinkhole_def split: prod.splits sum.splits option.splits)
qed

lemma apply_static_ok: "dns_ok cfg' (snd vs) \<Longrightarrow> dns_ok cfg' (snd (apply_static lib q vs))"
proof -
  assume s: "dns_ok cfg' (snd vs)"
  obtain r t where t: "on_store StaticRecords (snd vs) = (r, t)"
    by fastforce
  from on_store_ok [OF keeps_reads(1) s t] s t show ?thesis
    by (auto simp: apply_static_def staticAnswer_def Let_def split: prod.splits sum.splits bool.splits)
qed

lemma apply_forward_ok: "dns_ok cfg' (snd vs) \<Longrightarrow> dns_ok cfg' (snd (apply_forward lib cfg r vs))"
  by (auto simp: apply_forward_def forward_def Let_def split: prod.splits sum.splits)

lemma answer_query_ok: "dns_ok cfg' s \<Longrightarrow> dns_ok cfg' (snd (answer_query lib cfg r q s))"
  unfolding answer_query_def Let_def
  by (intro apply_forward_ok apply_static_ok apply_blocklist_ok apply_rule_ok) simp

lemma enqueue_event_ok: "dns_ok cfg s \<Longrightarrow> dns_ok cfg (enqueue_event cfg e s)"
  by (simp add: enqueue_event_def dns_ok_def)

lemma finish_query_ok:
  assumes "dns_ok cfg (snd vs)"
  shows "dns_ok cfg (finish_query lib cfg start h ip q vs)"
proof -
  obtain v s where vs: "vs = (v, s)"
    by fastforce
  let ?s1 = "(write_msg (v_msg v) s)\<lparr>sv_queries := sv_queries (write_msg (v_msg v) s) + 1\<rparr>"
  obtain t1 s2 where 1: "now_of ?s1 = (t1, s2)"
    by fastforce
  obtain t2 s3 where 2: "now_of s2 = (t2, s3)"
    by fastforce
  have "dns_ok cfg ?s1"
    using assms by (simp add: vs write_msg_def)
  from now_of_ok [OF now_of_ok [OF this 1] 2] show ?thesis
    by (simp add: finish_query_def vs Let_def 1 2 enqueue_event_ok)
qed

lemma handleDNS_ok:
  assumes "dns_ok cfg s"
  shows "dns_ok cfg (handleDNS lib cfg addr r s)"
proof -
  obtain start s1 where 1: "now_of s = (start, s1)"
    by fastforce
  obtain h s2 where 2: "admit_host (remoteIP addr) s1 = (h, s2)"
    by fastforce
  note ok = admit_host_ok [OF now_of_ok [OF assms 1] 2]
  show ?thesis
  proof (cases "m_Question r")
    case Nil
    with ok show ?thesis
      by (simp add: handleDNS_def Let_def 1 2 write_msg_def)
  next
    case (Cons q qs)
    have "dns_ok cfg (finish_query lib cfg start h (remoteIP addr) q (answer_query lib cfg r q s2))"
      by (intro finish_query_ok answer_query_ok ok)
    with Cons show ?thesis
      by (simp add: handleDNS_def Let_def 1 2)
  qed
qed

lemma write_event_ok: "dns_ok cfg s \<Longrightarrow> dns_ok cfg (write_event s)"
proof -
  assume s: "dns_ok cfg s"
  show "dns_ok cfg (write_event s)"
  proof (cases "sv_events s")
    case (Cons e rest)
    with s have "dns_ok cfg (s\<lparr>sv_events := rest\<rparr>)"
      by (simp add: dns_ok_def)
    with Cons show ?thesis
      using on_store_calm [OF calm_events(1)] by (metis list.simps(5) prod.collapse write_event_def)
  qed (use s in \<open>simp add: write_event_def\<close>)
qed

lemma enrichment_done_ok: "dns_ok cfg s \<Longrightarrow> dns_ok cfg (enrichment_done lk hid ip s)"
  by (auto simp: enrichment_done_def split: prod.splits dest: on_store_calm [OF calm_hosts(6)])

lemma purge_tick_ok: "dns_ok cfg s \<Longrightarrow> dns_ok cfg (purge_tick s)"
  unfolding purge_tick_def using on_store_calm [OF calm_purge] by (metis prod.collapse)

section \<open>Every request keeps the invariant\<close>

lemma system_ok_dns: "system_ok cfg a = dns_ok cfg (ad_dns a)"
  by (simp add: system_ok_def dns_ok_def)

lemma ok_call: "keeps policy_ok m \<Longrightarrow> system_ok cfg a \<Longrightarrow> system_ok cfg (snd (call m a))"
  by (auto simp: system_ok_dns call_def split: prod.splits intro: on_store_ok)

lemma ok_call_calm: "calm m \<Longrightarrow> system_ok cfg a \<Longrightarrow> system_ok cfg (snd (call m a))"
  by (rule ok_call [OF calm_keeps])

lemma ok_pair: "system_ok cfg a \<Longrightarrow> system_ok cfg (snd (x, a))"
  by simp

lemma ok_respond: "system_ok cfg (snd x) \<Longrightarrow> system_ok cfg (snd (respond f x))"
  by (simp add: respond_snd)

lemma ok_decoded: "system_ok cfg a \<Longrightarrow> (\<And>b. system_ok cfg (snd (k b a))) \<Longrightarrow> system_ok cfg (snd (decoded d z r k a))"
  by (simp add: decoded_def split: option.split)

lemma ok_only: "system_ok cfg a \<Longrightarrow> (system_ok cfg a \<Longrightarrow> system_ok cfg (snd (k a))) \<Longrightarrow> system_ok cfg (snd (only m r k a))"
  by (simp add: only_def)

lemma ok_or_error: "system_ok cfg (snd x) \<Longrightarrow> (\<And>v b. system_ok cfg b \<Longrightarrow> system_ok cfg (snd (k v b))) \<Longrightarrow> system_ok cfg (snd (or_error x k))"
  by (auto simp: or_error_def split: prod.splits sum.splits)

lemma ok_case_prod: "system_ok cfg (snd x) \<Longrightarrow> (\<And>u b. system_ok cfg b \<Longrightarrow> system_ok cfg (snd (f u b))) \<Longrightarrow>
    system_ok cfg (snd (case x of (u, b) \<Rightarrow> f u b))"
  by (auto split: prod.splits)

lemma ok_if: "(P \<Longrightarrow> system_ok cfg (snd x)) \<Longrightarrow> (\<not> P \<Longrightarrow> system_ok cfg (snd y)) \<Longrightarrow> system_ok cfg (snd (if P then x else y))"
  by simp

lemma ok_option: "system_ok cfg (snd x) \<Longrightarrow> (\<And>v. system_ok cfg (snd (f v))) \<Longrightarrow> system_ok cfg (snd (case p of None \<Rightarrow> x | Some v \<Rightarrow> f v))"
  by (cases p) simp_all

lemma ok_now_in: "system_ok cfg a \<Longrightarrow> system_ok cfg (snd (now_in a))"
  by (auto simp: now_in_def system_ok_dns split: prod.splits dest: now_of_ok)

lemma ok_dns_status: "system_ok cfg a \<Longrightarrow> system_ok cfg (snd (dns_status si a))"
  by (auto simp: dns_status_def DNS_Server.Status_def system_ok_dns split: prod.splits dest: now_of_ok)

lemma ok_systemStats: "system_ok cfg a \<Longrightarrow> system_ok cfg (snd (systemStats si a))"
proof -
  assume a: "system_ok cfg a"
  obtain t1 b where 1: "now_in a = (t1, b)"
    by fastforce
  obtain t2 c where 2: "now_in b = (t2, c)"
    by fastforce
  obtain t3 d where 3: "now_in c = (t3, d)"
    by fastforce
  from ok_now_in [OF a] ok_now_in [of cfg b] ok_now_in [of cfg c] 1 2 3 show ?thesis
    by (auto simp: systemStats_def system_ok_dns split: prod.splits)
qed

lemma ok_sends: "system_ok cfg (sends os a) = system_ok cfg a"
  by (simp add: sends_def system_ok_def)

lemma ok_with_result:
  "keeps policy_ok (with_result (TestUniFi c controller))" "keeps policy_ok (with_result (ImportUniFiClients c controller))"
proof -
  have "calm (with_result (TestUniFi c controller))"
    using calm_TestUniFi by (auto simp: calm_def with_result_def split: prod.splits) (metis snd_conv)
  then show "keeps policy_ok (with_result (TestUniFi c controller))"
    by (rule calm_keeps)
  have "calm (with_result (ImportUniFiClients c controller))"
    using calm_ImportUniFi by (auto simp: calm_def with_result_def split: prod.splits) (metis snd_conv)
  then show "keeps policy_ok (with_result (ImportUniFiClients c controller))"
    by (rule calm_keeps)
qed

lemma ok_writers:
  "keeps policy_ok (PushHASync c post)"
  by (simp add: PushHASync_def keeps_pushHASync)

lemmas ok_stores = keeps_reads keeps_UpsertStaticRecord keeps_AddRule keeps_SetRuleEnabled keeps_refresh
  keeps_ApplyHASyncPayload ok_writers ok_with_result

lemmas ok_intro = ok_respond ok_decoded ok_only ok_or_error ok_if ok_option ok_pair ok_dns_status ok_systemStats

lemma ok_haRequestJoin: "system_ok cfg a \<Longrightarrow> system_ok cfg (snd (haRequestJoin si r a))"
  unfolding haRequestJoin_def Let_def
  by (auto intro!: ok_only ok_decoded simp: ok_sends split: option.splits prod.splits peer_reply.splits)

lemma ok_haJoinAccept: "system_ok cfg a \<Longrightarrow> system_ok cfg (snd (haJoinAccept si r a))"
  unfolding haJoinAccept_def
  by (auto intro!: ok_intro ok_call_calm calm_intro simp: ok_sends split: option.splits prod.splits)

lemma ok_haImport: "system_ok cfg a \<Longrightarrow> system_ok cfg (snd (haImport si r a))"
proof -
  assume a: "system_ok cfg a"
  have "system_ok cfg (snd (call (ValidateHAImportAllowed (si_cipher si)) a))"
    by (intro ok_call_calm calm_intro a)
  with a show ?thesis
    unfolding haImport_def
    by (auto intro!: ok_only ok_decoded ok_respond ok_call keeps_ApplyHASyncPayload split: prod.splits sum.splits)
qed

lemma ok_haDiscovery: "system_ok cfg a \<Longrightarrow> system_ok cfg (snd (haDiscovery si r a))"
  using ok_call_calm [OF calm_HA(1), of cfg a "si_cipher si"]
  by (auto simp: haDiscovery_def only_def Let_def split: prod.splits)

lemma ok_dashboard: "system_ok cfg a \<Longrightarrow> system_ok cfg (snd (dashboard si a))"
  unfolding dashboard_def
  by (intro ok_or_error ok_call_calm calm_intro ok_case_prod ok_dns_status ok_systemStats) (auto intro: ok_call_calm calm_intro)

lemma ok_diagnostics: "system_ok cfg a \<Longrightarrow> system_ok cfg (snd (diagnostics si a))"
  unfolding diagnostics_def Let_def
  by (intro ok_or_error ok_call_calm calm_intro ok_case_prod ok_dns_status ok_systemStats) (auto intro: ok_call_calm calm_intro)

lemma ok_health: "system_ok cfg a \<Longrightarrow> system_ok cfg (snd (health si a))"
  by (cases "dns_status si a") (use ok_dns_status [of cfg a si] in \<open>simp add: health_def\<close>)

lemmas ok_special = ok_health ok_haRequestJoin ok_haJoinAccept ok_haImport ok_haDiscovery ok_dashboard ok_diagnostics

lemma ok_handle: "system_ok cfg a \<Longrightarrow> system_ok cfg (snd (handle si e r a))"
  by (cases e; simp add: ok_special)
    (auto simp: handler_defs only_def decoded_def respond_snd Let_def split: option.splits prod.splits
      intro: ok_call ok_stores ok_call_calm calm_intro ok_dns_status)

section \<open>The start\<close>

definition booting :: "store \<Rightarrow> bool" where
  \<comment> \<open>before the first query: no cache is filled yet\<close>
  "booting s \<longleftrightarrow> \<not> rulesLoaded s \<and> \<not> staticLoaded s \<and> \<not> blocklistLoaded s \<and>
     rules_table_ok (t_rules (s_db s)) \<and> static_table_ok (t_static (s_db s))"

lemma booting_policy_ok: "booting s \<Longrightarrow> policy_ok s"
  by (simp add: booting_def policy_ok_def rules_coherent_def static_coherent_def blocklist_coherent_def coherent_def)

lemma booting_env: "env_free booting"
  by (simp add: env_free_def booting_def)

lemma default_names:
  "has_suffix ''dashboard.test.'' ''.''" "to_lower ''dashboard.test.'' = ''dashboard.test.''"
  "has_suffix ''router.test.'' ''.''" "to_lower ''router.test.'' = ''router.test.''"
  by code_simp+

lemma keeps_SeedDefaults: "keeps booting SeedDefaults"
  unfolding SeedDefaults_def SeedBlocklistPresets_def Let_def
  by (intro keeps_intro keeps_exec_stmt booting_env)
    (auto simp: booting_def intro!: default_record_ok default_rule_ok default_names)

lemma startup_ok:
  assumes "startup cfg st = Some a" and "booting st" and "0 \<le> EventQueueCap cfg"
  shows "system_ok cfg a"
proof -
  obtain u st1 where 1: "SeedDefaults st = (Inr u, st1)"
    and a: "a = new_admin cfg (New (snd (PurgeOldEvents st1)))"
    using assms(1) by (auto simp: startup_def split: prod.splits sum.splits)
  have "policy_ok st1"
    using booting_policy_ok keeps_snd [OF keeps_SeedDefaults assms(2)] 1 by simp
  then have "policy_ok (snd (time_now (snd (PurgeOldEvents st1))))"
    by (intro keeps_snd [OF calm_keeps [OF calm_time_now]] keeps_snd [OF calm_keeps [OF calm_purge]])
  with assms(3) show ?thesis
    by (simp add: a system_ok_def new_admin_def New_def)
qed

section \<open>The invariant of the running system\<close>

lemma ok_serve: "system_ok cfg a \<Longrightarrow> system_ok cfg (snd (serve si r a))"
proof -
  assume a: "system_ok cfg a"
  then have m: "system_ok cfg (snd (mux si r a))"
    by (auto simp: mux_def ok_handle split: target.split)
  obtain rs b where s: "serve si r a = (rs, b)"
    by fastforce
  then show ?thesis
    by (cases rule: serve_cases) (use m a in \<open>auto simp: s\<close>)
qed

lemma run_event_ok: "system_ok cfg a \<Longrightarrow> system_ok cfg (run_event cfg ev a)"
proof (cases ev)
  case (Request si r)
  then show "system_ok cfg a \<Longrightarrow> system_ok cfg (run_event cfg ev a)"
    by (simp add: ok_serve)
next
  case (Weather e)
  then show "system_ok cfg a \<Longrightarrow> system_ok cfg (run_event cfg ev a)"
    using policy_ok_env by (simp add: system_ok_def env_free_def)
qed (simp_all add: system_ok_dns handleDNS_ok write_event_ok enrichment_done_ok purge_tick_ok,
    simp_all add: dns_ok_def policy_ok_workers)

lemma reachable_booting:
  assumes "reachable cfg st a" and "booting st" and "0 \<le> EventQueueCap cfg"
  shows "system_ok cfg a"
  using assms(1)
proof (induction rule: reachable.induct)
  case (started a)
  with assms(2,3) show ?case
    by (blast intro: startup_ok)
next
  case (stepped a b)
  then show ?case
    by (auto elim: stepE intro: run_event_ok)
qed

lemma reachable_ok:
  assumes "reachable cfg (fresh_store d e key) a" and "rules_table_ok (t_rules d)" and "static_table_ok (t_static d)"
    and "0 \<le> EventQueueCap cfg"
  shows "system_ok cfg a"
proof (rule reachable_booting [OF assms(1) _ assms(4)])
  show "booting (fresh_store d e key)"
    using assms(2,3) by (simp add: booting_def fresh_store_def)
qed

lemma without_duplicates_ok:
  assumes "distinct (map rr_id rows)" and "\<forall>r \<in> set rows. rule_row_ok r"
  shows "rules_table_ok (without_duplicates rows)"
proof -
  have "distinct (map rr_id (without_duplicates rows))"
    using assms(1) by (simp add: without_duplicates_def distinct_map_filter)
  with assms without_duplicates_distinct [OF assms(1)] show ?thesis
    by (auto simp: rules_table_ok_def without_duplicates_def)
qed

lemma Open_booting:
  assumes "Open mkdir content random writes k = (Inr u, w, k')" and "d = s_db (dk_store k)"
    and "distinct (map rr_id (t_rules d))" and "\<forall>r \<in> set (t_rules d). rule_row_ok r" and "static_table_ok (t_static d)"
  shows "booting (dk_store k')"
proof -
  have ids: "distinct (map rr_id (t_rules (s_db (dk_store k))))"
    using assms(2,3) by simp
  note o = Open_succeeds [OF assms(1) ids]
  then have "rules_table_ok (t_rules (s_db (dk_store k')))" "static_table_ok (t_static (s_db (dk_store k')))"
    using assms(2,5) without_duplicates_ok [OF assms(3,4)] by simp_all
  with o(1) show ?thesis
    by (simp add: booting_def unfilled_def)
qed

text \<open>The states of a server started on the file \<open>k\<close>.\<close>

inductive serving :: "Config \<Rightarrow> disk \<Rightarrow> admin \<Rightarrow> bool" for cfg k where
  booted: "boot cfg mkdir content random writes k = Some a \<Longrightarrow> serving cfg k a"
| served: "serving cfg k a \<Longrightarrow> step cfg a b \<Longrightarrow> serving cfg k b"

lemma serving_ok:
  assumes "serving cfg k a" and "d = s_db (dk_store k)" and "distinct (map rr_id (t_rules d))"
    and "\<forall>r \<in> set (t_rules d). rule_row_ok r" and "static_table_ok (t_static d)" and "0 \<le> EventQueueCap cfg"
  shows "system_ok cfg a"
  using assms(1)
proof (induction rule: serving.induct)
  case (booted mkdir content random writes a)
  then obtain w k' where "Open mkdir content random writes k = (Inr (), w, k')" "startup cfg (dk_store k') = Some a"
    by (auto simp: boot_def split: prod.splits sum.splits)
  with Open_booting [OF _ assms(2-5)] assms(6) show ?case
    by (blast intro: startup_ok)
next
  case (served a b)
  then show ?case
    by (auto elim: stepE intro: run_event_ok)
qed

text \<open>
  C11. The program may be started on a file of any version. Also when the file holds rules twice, as the
  first version allowed, every state of a server that could be started on it keeps the policy: the caches
  that are filled are what the tables say, no two rules or records have one key, and the queue is within
  its capacity.
\<close>
theorem old_file_keeps_policy:
  assumes "serving cfg k a" and "d = s_db (dk_store k)" and "distinct (map rr_id (t_rules d))"
    and "\<forall>r \<in> set (t_rules d). rule_row_ok r" and "static_table_ok (t_static d)" and "0 \<le> EventQueueCap cfg"
  shows "let st = sv_store (ad_dns a)
    in (rulesLoaded st \<longrightarrow> rulesCache st = rules_view st) \<and> (staticLoaded st \<longrightarrow> staticCache st = static_view st) \<and>
       (blocklistLoaded st \<longrightarrow> blocklistCache st = blocklist_view st) \<and>
       rules_table_ok (t_rules (s_db st)) \<and> static_table_ok (t_static (s_db st)) \<and>
       int (length (sv_events (ad_dns a))) \<le> EventQueueCap cfg"
  using serving_ok [OF assms] by (simp add: Let_def system_ok_def policy_ok_def coherence_defs)

text \<open>
  C2. Whatever happens in whatever order -- queries, turns of the writer, enrichments, requests of anybody
  to the admin server, ticks of the workers, any calls to the database failing -- a running server never
  answers from a stale cache: the caches that are filled are what the tables say, the tables keep their
  constraints (no two rules or records with one key, names normalised), and the queue of events never
  outgrows its capacity.
\<close>
theorem system_keeps_policy:
  assumes "reachable cfg (fresh_store d e key) a" and "rules_table_ok (t_rules d)" and "static_table_ok (t_static d)"
    and "0 \<le> EventQueueCap cfg"
  shows "let st = sv_store (ad_dns a)
    in (rulesLoaded st \<longrightarrow> rulesCache st = rules_view st) \<and> (staticLoaded st \<longrightarrow> staticCache st = static_view st) \<and>
       (blocklistLoaded st \<longrightarrow> blocklistCache st = blocklist_view st) \<and>
       rules_table_ok (t_rules (s_db st)) \<and> static_table_ok (t_static (s_db st)) \<and>
       int (length (sv_events (ad_dns a))) \<le> EventQueueCap cfg"
proof -
  have "system_ok cfg a"
    using assms by (rule reachable_ok)
  then show ?thesis
    by (simp add: Let_def system_ok_def policy_ok_def coherence_defs)
qed

lemma works_SeedBlocklistPresets: "works SeedBlocklistPresets"
  unfolding SeedBlocklistPresets_def by (rule works_andThen works_time_now works_forEach works_exec_stmt)+

lemma works_SeedDefaults: "works SeedDefaults"
  unfolding SeedDefaults_def Let_def
  by (rule works_andThen works_time_now works_exec_stmt works_SeedBlocklistPresets)+

lemma works_purge: "works (purge_before c)"
  unfolding purge_before_def by (intro keeps_intro)

lemma works_unfailing: "works m \<Longrightarrow> keeps unfailing m"
  by (fastforce simp: works_def keeps_def unfailing_def)

lemma unfailing_PurgeOldEvents: "keeps unfailing PurgeOldEvents"
proof (rule keepsI)
  fix s :: store assume s: "unfailing s"
  obtain days t where t: "RetentionDays s = (days, t)"
    by fastforce
  with s have "unfailing t"
    by (auto simp: RetentionDays_def read_setting_def query_row_def exec_db_def db_call_def unfailing_def
        split: option.splits)
  moreover have "keeps unfailing (andThen time_now (\<lambda>now. purge_before (fmt_time (days_ago now days))))"
    by (rule keeps_andThen [OF unfailing_time_now works_unfailing [OF works_purge]])
  ultimately show "unfailing (snd (PurgeOldEvents s))"
    by (simp add: PurgeOldEvents_def t keeps_def)
qed

lemma starts:
  assumes "unfailing st"
  obtains a where "startup cfg st = Some a" and "unfailing (sv_store (ad_dns a))"
proof -
  obtain u t where t: "SeedDefaults st = (Inr u, t)" "unfailing t"
    using worksE [OF works_SeedDefaults] assms by (metis unfailing_def)
  then have "startup cfg st = Some (new_admin cfg (New (snd (PurgeOldEvents t))))"
    by (simp add: startup_def)
  moreover have "unfailing (snd (time_now (snd (PurgeOldEvents t))))"
    by (intro keeps_snd [OF unfailing_time_now] keeps_snd [OF unfailing_PurgeOldEvents] t(2))
  then have "unfailing (sv_store (ad_dns (new_admin cfg (New (snd (PurgeOldEvents t))))))"
    by (simp add: new_admin_def New_def)
  ultimately show thesis
    by (rule that)
qed

lemma system_keeps_policy_witness:
  "\<exists>a. reachable sample_cfg (sample_store empty_db) a \<and>
     static_table_ok (t_static (s_db (sv_store (ad_dns a)))) \<and> int (length (sv_events (ad_dns a))) \<le> 8"
proof -
  let ?r = "sample_request ''127.0.0.1:4711'' ''POST'' ''/api/rules'' (Some (JsObj [(''target'', JsStr ''ads.com'')]))"
  obtain a where a: "startup sample_cfg (sample_store empty_db) = Some a"
    by (rule starts [of "sample_store empty_db"]) (simp_all add: unfailing_def sample_store_def fresh_store_def)
  let ?b = "run_event sample_cfg (Request (sample_site ''t'') ?r) a"
  have r: "reachable sample_cfg (fresh_store empty_db \<lparr>faults = [], clock = 0, readings = []\<rparr> '''') ?b"
    using a unfolding sample_store_def by (rule reachable.intros(2) [OF reachable.intros(1) step])
  from system_keeps_policy [OF r] have "static_table_ok (t_static (s_db (sv_store (ad_dns ?b)))) \<and>
      int (length (sv_events (ad_dns ?b))) \<le> EventQueueCap sample_cfg"
    by (simp add: Let_def empty_db_def rules_table_ok_def static_table_ok_def sample_cfg_def sample_config_def)
  with r show ?thesis
    by (auto simp: sample_store_def sample_cfg_def sample_config_def)
qed

text \<open>
  C1. A running server follows its tables. In every state the system can reach, by whatever requests,
  queries, imports, refreshes and failures, a query that finds the database working is answered by the
  abstract policy of the tables as they are: exactly one message is sent, and it is the sinkhole, the
  static record or the answer of the upstream as \<open>decision_of\<close> says; a blocked or static name never
  reaches the upstream.
\<close>
theorem running_system_follows_tables:
  assumes "reachable cfg (fresh_store d e key) a" and "rules_table_ok (t_rules d)" and "static_table_ok (t_static d)"
    and "0 \<le> EventQueueCap cfg" and "unfailing (sv_store (ad_dns a))"
    and "m_Question r = q # qs" and "m_Answer (SetReply lib r) = []"
  shows "let s = ad_dns a; s' = handleDNS lib cfg addr r s
    in \<exists>v t. sv_sent s' = sv_sent s @ [v_msg v] \<and> sv_asked s' = sv_asked t \<and> sv_blocked s' = sv_blocked t \<and>
       carries_out lib cfg r q s (decision_of lib (decision_time addr s) q (db_of a)) v t"
proof -
  have "policy_ok (sv_store (ad_dns a))"
    using reachable_ok [OF assms(1-4)] by (simp add: system_ok_def)
  from handleDNS_carries_out [OF this assms(5-7)] show ?thesis
    by (simp add: Let_def db_of_def)
qed

lemma running_system_follows_tables_witness:
  "\<exists>a v t. reachable sample_cfg (sample_store sample_block_db) a \<and>
     sv_sent (handleDNS sample_lib sample_cfg None (sample_query ''x.ads.com.'') (ad_dns a)) = sv_sent (ad_dns a) @ [v_msg v] \<and>
     carries_out sample_lib sample_cfg (sample_query ''x.ads.com.'') (sample_question ''x.ads.com.'') (ad_dns a)
       (decision_of sample_lib (decision_time None (ad_dns a)) (sample_question ''x.ads.com.'') (db_of a)) v t"
proof -
  let ?st = "sample_store sample_block_db"
  obtain a where a: "startup sample_cfg ?st = Some a" and u: "unfailing (sv_store (ad_dns a))"
    by (rule starts [OF sample_ready(1)])
  have r: "reachable sample_cfg (fresh_store sample_block_db \<lparr>faults = [], clock = 0, readings = []\<rparr> '''') a"
    using a unfolding sample_store_def by (rule reachable.intros(1))
  have "m_Question (sample_query ''x.ads.com.'') = [sample_question ''x.ads.com.'']" "m_Answer (SetReply sample_lib (sample_query ''x.ads.com.'')) = []"
    "rules_table_ok (t_rules sample_block_db)" "static_table_ok (t_static sample_block_db)" "0 \<le> EventQueueCap sample_cfg"
    using sample_block_table
    by (simp_all add: sample_query_def sample_lib_def sample_reply_def static_table_ok_def sample_block_db_def empty_db_def sample_cfg_def sample_config_def)
  from running_system_follows_tables [OF r this(3,4,5) u this(1,2)] r show ?thesis
    unfolding Let_def sample_store_def by blast
qed

lemma sample_disk_boots: "\<exists>a. boot sample_cfg True None (replicate 32 CHR 0x41) True sample_disk = Some a"
proof -
  obtain u w k where o: "Open True None (replicate 32 CHR 0x41) True sample_disk = (Inr u, w, k)"
    using sample_disk_opens by (metis old.unit.exhaust prod.collapse)
  have "unfailing (dk_store k)"
    using sample_disk_unfailing o by simp
  then obtain a where "startup sample_cfg (dk_store k) = Some a"
    by (rule starts)
  with o show ?thesis
    by (simp add: boot_def)
qed

lemma old_file_keeps_policy_witness:
  "\<exists>a. serving sample_cfg sample_disk a \<and> \<not> distinct (map rule_key (t_rules (s_db (dk_store sample_disk)))) \<and>
     distinct (map rule_key (t_rules (s_db (sv_store (ad_dns a)))))"
proof -
  obtain a where "boot sample_cfg True None (replicate 32 CHR 0x41) True sample_disk = Some a"
    using sample_disk_boots by blast
  then have a: "serving sample_cfg sample_disk a"
    by (rule serving.booted)
  have names: "has_suffix ''a.test.'' ''.''" "to_lower ''a.test.'' = ''a.test.''" "has_suffix ''b.test.'' ''.''" "to_lower ''b.test.'' = ''b.test.''"
    by code_simp+
  have d: "t_rules (s_db (dk_store sample_disk)) = [sample_rule 1 ''a.test.'' ''block'', sample_rule 2 ''a.test.'' ''block'', sample_rule 3 ''b.test.'' ''allow'']"
    "t_static (s_db (dk_store sample_disk)) = []"
    by (simp_all add: sample_disk_def sample_rules_db_def empty_db_def)
  then have "distinct (map rr_id (t_rules (s_db (dk_store sample_disk))))" "\<forall>r \<in> set (t_rules (s_db (dk_store sample_disk))). rule_row_ok r"
    "static_table_ok (t_static (s_db (dk_store sample_disk)))" "0 \<le> EventQueueCap sample_cfg"
    by (simp_all add: sample_rule_def rule_row_ok_def names static_table_ok_def sample_cfg_def sample_config_def)
  from old_file_keeps_policy [OF a refl this] a show ?thesis
    by (auto simp: Let_def rules_table_ok_def d sample_rule_def rule_key_def)
qed

end
